theory Spec2Isabelle
  imports Main "HOL-Library.Sublist" "HOL-Library.AList"
begin

section \<open>JavaScript string and array helpers\<close>

text \<open>
  \<open>Array.prototype.join\<close>: the elements separated by \<open>sep\<close>; the empty array gives
  the empty string.
\<close>

fun join :: "string \<Rightarrow> string list \<Rightarrow> string" where
  "join sep [] = []"
| "join sep [x] = x"
| "join sep (x # y # ys) = x @ sep @ join sep (y # ys)"

text \<open>
  Truthiness of a value of type \<open>string | undefined\<close>: \<open>undefined\<close> (\<open>None\<close>) and the
  empty string are falsy. \<open>filter_Boolean\<close> is \<open>.filter(Boolean)\<close> on an array of such
  values.
\<close>

fun truthy :: "string option \<Rightarrow> bool" where
  "truthy None = False"
| "truthy (Some s) = (s \<noteq> [])"

definition filter_Boolean :: "string option list \<Rightarrow> string list" where
  "filter_Boolean xs = map the (filter truthy xs)"

text \<open>Interpolation \<open>${v}\<close> of a value that may be \<open>undefined\<close> in a template literal.\<close>

fun interpolate :: "string option \<Rightarrow> string" where
  "interpolate None = ''undefined''"
| "interpolate (Some s) = s"

text \<open>\<open>Number.prototype.toString\<close> on integers, and \<open>padStart\<close> with a one-character pad.\<close>

definition digit :: "nat \<Rightarrow> char" where
  "digit n = ''0123456789'' ! n"

function toString_nat :: "nat \<Rightarrow> string" where
  "toString_nat n = (if n < 10 then [digit n] else toString_nat (n div 10) @ [digit (n mod 10)])"
  by pat_completeness auto
termination
  by (relation "measure id") auto

declare toString_nat.simps [simp del]

definition toString :: "int \<Rightarrow> string" where
  "toString i = (if i < 0 then ''-'' @ toString_nat (nat (- i)) else toString_nat (nat i))"

definition padStart :: "nat \<Rightarrow> char \<Rightarrow> string \<Rightarrow> string" where
  "padStart n c s = replicate (n - length s) c @ s"

text \<open>\<open>String.prototype.toLowerCase\<close> on the ASCII letters; other characters are kept.\<close>

definition toLowerCase_char :: "char \<Rightarrow> char" where
  "toLowerCase_char c =
     (case map_of (zip ''ABCDEFGHIJKLMNOPQRSTUVWXYZ'' ''abcdefghijklmnopqrstuvwxyz'') c of
        Some l \<Rightarrow> l
      | None \<Rightarrow> c)"

definition toLowerCase :: "string \<Rightarrow> string" where
  "toLowerCase s = map toLowerCase_char s"

section \<open>Data model\<close>

text \<open>The script interfaces, shared by \<open>anime.ts\<close> and \<open>exampleScript.ts\<close>.\<close>

record Character =
  name :: string
  description :: string
  stylePrompt :: string

record Scene =
  sceneNumber :: int
  description :: string
  characters :: "string list"
  setting :: string
  mood :: string
  cameraAngle :: "string option"
  action :: string

record AnimeScript =
  title :: string
  style :: string
  artStyle :: string
  characters :: "Character list"
  scenes :: "Scene list"

text \<open>The backend response \<open>MJResponse\<close> of \<open>exampleScript.ts\<close>; every field is optional.\<close>

record Variation =
  id' :: string
  hash :: string
  uri :: string

record MJResponse =
  id' :: "string option"
  hash :: "string option"
  flags :: "int option"
  uri :: "string option"
  options :: "Variation list option"

text \<open>The metadata object that \<open>generateAndSelectVariation\<close> writes beside an image
  (the timestamp, which is the wall clock, is left out).\<close>

record Metadata =
  prompt :: string
  imagineId :: "string option"
  selectedVariation :: string
  allVariations :: "(string \<times> string) list"
  localPath :: string

text \<open>The progress ledger of the storyboard script in \<open>anime.ts\<close>.\<close>

record ProgressState =
  completedCharacters :: "string list"
  completedScenes :: "string list"

text \<open>The argument object of \<open>client.Upscale\<close>.\<close>

record UpscaleArgs =
  index :: nat
  msgId :: "string option"
  hash :: "string option"
  flags :: "int option"

section \<open>The outside world\<close>

text \<open>
  A thrown JavaScript exception is a value \<open>Error msg\<close>; a call that may throw returns
  \<open>error + 'a\<close>.
\<close>

datatype error = Error string

text \<open>What is written to a file: image bytes, or the object that is serialised as JSON.
  A \<open>Record<string, string>\<close> is an association list in insertion order.\<close>

datatype filedata =
    ImageData string
  | MetadataJson Metadata
  | ProgressJson ProgressState
  | ReferencesJson "(string \<times> string) list" "(string \<times> string) list"

datatype asset_type = character_asset | scene_asset

text \<open>
  The trace of a run: every call that leaves the program, in order, with its outcome
  where one of the properties below depends on it, and every \<open>console.error\<close>.
  A backend call carries the kind and the identifier of the item it is made for (the
  identifier that its progress callback closes over). \<open>console.log\<close> output is not
  recorded.
\<close>

datatype event =
    Call_Connect bool
  | Call_Close
  | Call_Imagine asset_type string string "error + MJResponse option"
  | Call_Upscale asset_type string UpscaleArgs "error + MJResponse option"
  | Call_get string bool
  | Call_writeFile string filedata bool
  | Call_mkdir string bool
  | Call_readFile string bool
  | Console_error string
  | Delay nat

text \<open>
  The collaborators, as functions on an abstract world state \<open>'w\<close>: the Midjourney
  client (\<open>Connect\<close>, \<open>Imagine\<close>, \<open>Upscale\<close>), the HTTP download (\<open>axios\<close> in
  \<open>exampleScript.ts\<close>, \<open>fetch\<close> in \<open>anime.ts\<close>; the result is the body), the file system
  (\<open>writeFile\<close>, \<open>mkdir\<close>, and the three files that are read and parsed: the script,
  the ledger and the character-reference summary), and \<open>path.join\<close>.
  Each call may throw and may change the world, so that the same call can answer
  differently the next time.
\<close>

record 'w env =
  path_join :: "string list \<Rightarrow> string"
  Connect :: "'w \<Rightarrow> (error + unit) \<times> 'w"
  Imagine :: "string \<Rightarrow> 'w \<Rightarrow> (error + MJResponse option) \<times> 'w"
  Upscale :: "UpscaleArgs \<Rightarrow> 'w \<Rightarrow> (error + MJResponse option) \<times> 'w"
  http_get :: "string \<Rightarrow> 'w \<Rightarrow> (error + string) \<times> 'w"
  writeFile :: "string \<Rightarrow> filedata \<Rightarrow> 'w \<Rightarrow> (error + unit) \<times> 'w"
  mkdir :: "string \<Rightarrow> 'w \<Rightarrow> (error + unit) \<times> 'w"
  readScript :: "string \<Rightarrow> 'w \<Rightarrow> (error + AnimeScript) \<times> 'w"
  readProgress :: "string \<Rightarrow> 'w \<Rightarrow> (error + ProgressState) \<times> 'w"
  readReferences ::
    "string \<Rightarrow> 'w \<Rightarrow> (error + (string \<times> string) list \<times> (string \<times> string) list) \<times> 'w"

definition ok :: "error + 'a \<Rightarrow> bool" where
  "ok r = (case r of Inl _ \<Rightarrow> False | Inr _ \<Rightarrow> True)"

section \<open>\<open>anime.ts\<close>, class \<open>AnimeSceneGenerator\<close>: the prompt builders\<close>

definition anime_outputDir :: string where
  "anime_outputDir = ''./anime_output''"

definition anime_buildCharacterPrompt :: "Character \<Rightarrow> string" where
  "anime_buildCharacterPrompt character =
     Character.description character @ '', '' @ stylePrompt character
     @ '', full body character reference sheet, character design, high detail --v 6 --style raw''"

text \<open>\<open>characterRefs.forEach((ref, index) => { prompt += ` --cref ${ref}`; })\<close>\<close>

fun anime_add_crefs :: "string list \<Rightarrow> string \<Rightarrow> string" where
  "anime_add_crefs [] acc = acc"
| "anime_add_crefs (ref # refs) acc = anime_add_crefs refs (acc @ '' --cref '' @ ref)"

text \<open>
  In this file \<open>fs\<close> is the namespace of the module \<open>fs/promises\<close>
  (\<open>import * as fs from "fs/promises"\<close>). That module exports the promise-based functions
  only: it has no member \<open>existsSync\<close>, so \<open>fs.existsSync\<close> is \<open>undefined\<close>. A member of a
  namespace is a function or is missing, and a call of a missing member throws a
  \<open>TypeError\<close>.
\<close>

definition fs_existsSync :: "(string \<Rightarrow> bool) option" where
  "fs_existsSync = None"

definition call_member :: "string \<Rightarrow> ('a \<Rightarrow> 'b) option \<Rightarrow> 'a \<Rightarrow> error + 'b" where
  "call_member expr member x =
     (case member of
        None \<Rightarrow> Inl (Error (''TypeError: '' @ expr @ '' is not a function''))
      | Some f \<Rightarrow> Inr (f x))"

text \<open>
  The scene prompt of the first generator. For a scene after the first it asks whether
  the image of scene 1 exists, with \<open>fs.existsSync\<close>; what that call throws leaves the
  function, which has no \<open>try\<close>.
\<close>

definition anime_buildScenePrompt ::
  "'w env \<Rightarrow> Scene \<Rightarrow> AnimeScript \<Rightarrow> string list \<Rightarrow> error + string" where
  "anime_buildScenePrompt env scene script characterRefs =
     (let characterPrompts =
            join '', ''
              (map (\<lambda>charName.
                      case find (\<lambda>c. Character.name c = charName) (AnimeScript.characters script) of
                        Some char \<Rightarrow> Character.name char @ '' '' @ Character.description char
                      | None \<Rightarrow> charName)
                   (Scene.characters scene));
          prompt0 =
            action scene @ '', '' @ setting scene @ '', '' @ mood scene @ '', ''
            @ characterPrompts @ '', ''
            @ (if truthy (cameraAngle scene) then the (cameraAngle scene) else '''') @ '', ''
            @ artStyle script
            @ '', highly detailed, professional lighting --ar 16:9 --v 6 --style raw'';
          prompt1 = anime_add_crefs characterRefs prompt0
      in if sceneNumber scene > 1
         then (let firstSceneRef = path_join env [anime_outputDir, ''scene_001.png'']
               in case call_member ''fs.existsSync'' fs_existsSync firstSceneRef of
                    Inl e \<Rightarrow> Inl e
                  | Inr found \<Rightarrow>
                      if found then Inr (prompt1 @ '' --sref '' @ firstSceneRef)
                      else Inr prompt1)
         else Inr prompt1)"

section \<open>\<open>exampleScript.ts\<close>, class \<open>AnimeSceneGenerator\<close>\<close>

definition baseOutputDir :: string where
  "baseOutputDir = ''./anime_output''"

definition buildCharacterPrompt :: "Character \<Rightarrow> string" where
  "buildCharacterPrompt character =
     ''masterpiece, high quality, anime character design, '' @ Character.description character
     @ '', '' @ stylePrompt character
     @ '', full body character sheet, full body reference, multiple angles, detailed facial features, high detail, professional character design --v 6 --style raw''"

definition characterDetails :: "Scene \<Rightarrow> AnimeScript \<Rightarrow> string" where
  "characterDetails scene script =
     join '' and ''
       (map (\<lambda>charName.
               case find (\<lambda>c. Character.name c = charName) (AnimeScript.characters script) of
                 Some char \<Rightarrow>
                   Character.name char @ '' ('' @ Character.description char @ '', ''
                   @ stylePrompt char @ '')''
               | None \<Rightarrow> charName)
            (Scene.characters scene))"

text \<open>The array of prompt parts before \<open>.filter(Boolean).join(", ")\<close>.\<close>

definition scene_parts :: "Scene \<Rightarrow> AnimeScript \<Rightarrow> string option list" where
  "scene_parts scene script =
     [Some ''masterpiece, best quality'',
      Some (characterDetails scene script),
      Some (action scene),
      Some (''in '' @ setting scene),
      Some (mood scene),
      cameraAngle scene,
      Some (artStyle script),
      Some ''detailed lighting, perfect composition'',
      Some ''--ar 16:9 --v 6 --style raw'']"

text \<open>
  \<open>scene.characters.forEach((charName, index) => ...)\<close>: the loop over the scene's
  character names with their positions, appending to \<open>finalPrompt\<close>.
\<close>

fun add_character_references ::
  "(string \<rightharpoonup> string) \<Rightarrow> nat \<Rightarrow> string list \<Rightarrow> string \<Rightarrow> string" where
  "add_character_references characterRefs i [] finalPrompt = finalPrompt"
| "add_character_references characterRefs i (charName # rest) finalPrompt =
     add_character_references characterRefs (Suc i) rest
       (let charRef = characterRefs charName
        in if truthy charRef
           then finalPrompt @ '' --cref '' @ the charRef @ (if i = 0 then '' --cw 1'' else '''')
           else finalPrompt)"

definition buildScenePrompt :: "(string \<rightharpoonup> string) \<Rightarrow> Scene \<Rightarrow> AnimeScript \<Rightarrow> string" where
  "buildScenePrompt characterRefs scene script =
     add_character_references characterRefs 0 (Scene.characters scene)
       (join '', '' (filter_Boolean (scene_parts scene script)))"

text \<open>
  \<open>downloadImage\<close> catches whatever the download or the write throws, reports it with
  \<open>console.error\<close> and returns normally.
\<close>

definition downloadImage :: "'w env \<Rightarrow> string \<Rightarrow> string \<Rightarrow> 'w \<Rightarrow> event list \<times> 'w" where
  "downloadImage env imageUrl outputPath w =
     (case http_get env imageUrl w of
        (Inl e, w1) \<Rightarrow>
          ([Call_get imageUrl False,
            Console_error (''Error downloading image from '' @ imageUrl @ '':'')], w1)
      | (Inr body, w1) \<Rightarrow>
          (case writeFile env outputPath (ImageData body) w1 of
             (Inl e, w2) \<Rightarrow>
               ([Call_get imageUrl True, Call_writeFile outputPath (ImageData body) False,
                 Console_error (''Error downloading image from '' @ imageUrl @ '':'')], w2)
           | (Inr _, w2) \<Rightarrow>
               ([Call_get imageUrl True, Call_writeFile outputPath (ImageData body) True], w2)))"

text \<open>\<open>for (let i = 0; i < imagine.options.length; i++)\<close>: the variations that are left,
  with the index of the first of them.\<close>

fun download_variations ::
  "'w env \<Rightarrow> string \<Rightarrow> nat \<Rightarrow> Variation list \<Rightarrow> 'w \<Rightarrow> event list \<times> 'w" where
  "download_variations env variationsDir i [] w = ([], w)"
| "download_variations env variationsDir i (variation # rest) w =
     (let (evs1, w1) =
            downloadImage env (Variation.uri variation)
              (path_join env [variationsDir, ''variation_'' @ toString (int i + 1) @ ''.png'']) w;
          (evs2, w2) = download_variations env variationsDir (Suc i) rest w1
      in (evs1 @ evs2, w2))"

definition type_dir :: "asset_type \<Rightarrow> string" where
  "type_dir ty = (if ty = character_asset then ''characters'' else ''scenes'')"

definition type_variations_dir :: "asset_type \<Rightarrow> string" where
  "type_variations_dir ty =
     (if ty = character_asset then ''characters/variations'' else ''scenes/variations'')"

text \<open>
  \<open>generateAndSelectVariation\<close>: the whole body is inside \<open>try\<close>, and the \<open>catch\<close>
  returns \<open>null\<close> (\<open>None\<close>). The result is the value, the trace and the world.
\<close>

definition generateAndSelectVariation ::
  "'w env \<Rightarrow> string \<Rightarrow> string \<Rightarrow> asset_type \<Rightarrow> 'w \<Rightarrow> MJResponse option \<times> event list \<times> 'w" where
  "generateAndSelectVariation env promptText outputName ty w =
     (let (r, w1) = Imagine env promptText w;
          called = Call_Imagine ty outputName promptText r;
          caught = Console_error (''Error generating '' @ outputName @ '':'');
          failed = Console_error (''Failed to generate variations for '' @ outputName)
      in case r of
           Inl e \<Rightarrow> (None, [called, caught], w1)
         | Inr None \<Rightarrow> (None, [called, failed], w1)
         | Inr (Some imagine) \<Rightarrow>
             (case options imagine of
                None \<Rightarrow> (None, [called, failed], w1)
              | Some [] \<Rightarrow> (None, [called, failed], w1)
              | Some (selected # others) \<Rightarrow>
                  (let variationsDir =
                         path_join env [baseOutputDir, type_variations_dir ty, outputName];
                       (made, w2) = mkdir env variationsDir w1
                   in case made of
                        Inl e \<Rightarrow> (None, [called, Call_mkdir variationsDir False, caught], w2)
                      | Inr _ \<Rightarrow>
                          (let (evs_variations, w3) =
                                 download_variations env variationsDir 0 (selected # others) w2;
                               mainPath =
                                 path_join env [baseOutputDir, type_dir ty, outputName @ ''.png''];
                               (evs_main, w4) =
                                 downloadImage env (Variation.uri selected) mainPath w3;
                               metadataPath =
                                 path_join env
                                   [baseOutputDir, type_dir ty, outputName @ ''_metadata.json''];
                               metadata =
                                 \<lparr>prompt = promptText,
                                  imagineId = MJResponse.id' imagine,
                                  selectedVariation = Variation.id' selected,
                                  allVariations =
                                    map (\<lambda>opt. (Variation.id' opt, Variation.uri opt))
                                      (selected # others),
                                  localPath = mainPath\<rparr>;
                               (written, w5) =
                                 writeFile env metadataPath (MetadataJson metadata) w4;
                               evs = [called, Call_mkdir variationsDir True] @ evs_variations
                                     @ evs_main
                           in case written of
                                Inl e \<Rightarrow>
                                  (None,
                                   evs @ [Call_writeFile metadataPath (MetadataJson metadata) False,
                                          caught], w5)
                              | Inr _ \<Rightarrow>
                                  (Some (imagine\<lparr>MJResponse.uri := Some (Variation.uri selected)\<rparr>),
                                   evs @ [Call_writeFile metadataPath (MetadataJson metadata) True],
                                   w5)))))"

text \<open>
  \<open>generateCharacterReferences\<close>: the loop over \<open>script.characters\<close>; \<open>characterRefs\<close> is
  the field of the generator, a \<open>Map\<close>.
\<close>

definition record_reference ::
  "Character \<Rightarrow> MJResponse option \<Rightarrow> (string \<rightharpoonup> string) \<Rightarrow> (string \<rightharpoonup> string)" where
  "record_reference c response characterRefs =
     (case response of
        None \<Rightarrow> characterRefs
      | Some r \<Rightarrow>
          if truthy (MJResponse.uri r)
          then characterRefs(Character.name c \<mapsto> the (MJResponse.uri r))
          else characterRefs)"

fun character_references_loop ::
  "'w env \<Rightarrow> Character list \<Rightarrow> (string \<rightharpoonup> string) \<Rightarrow> 'w
   \<Rightarrow> (string \<rightharpoonup> string) \<times> event list \<times> 'w" where
  "character_references_loop env [] characterRefs w = (characterRefs, [], w)"
| "character_references_loop env (c # rest) characterRefs w =
     (let (response, evs1, w1) =
            generateAndSelectVariation env (buildCharacterPrompt c)
              (''character_'' @ toLowerCase (Character.name c)) character_asset w;
          (characterRefs2, evs2, w2) =
            character_references_loop env rest (record_reference c response characterRefs) w1
      in (characterRefs2, evs1 @ [Delay 2000] @ evs2, w2))"

definition generateCharacterReferences ::
  "'w env \<Rightarrow> AnimeScript \<Rightarrow> (string \<rightharpoonup> string) \<Rightarrow> 'w
   \<Rightarrow> (string \<rightharpoonup> string) \<times> event list \<times> 'w" where
  "generateCharacterReferences env script characterRefs w =
     character_references_loop env (AnimeScript.characters script) characterRefs w"

definition scene_outputName :: "Scene \<Rightarrow> string" where
  "scene_outputName s = ''scene_'' @ padStart 3 (CHR ''0'') (toString (sceneNumber s))"

fun scenes_loop ::
  "'w env \<Rightarrow> AnimeScript \<Rightarrow> (string \<rightharpoonup> string) \<Rightarrow> Scene list \<Rightarrow> 'w \<Rightarrow> event list \<times> 'w" where
  "scenes_loop env script characterRefs [] w = ([], w)"
| "scenes_loop env script characterRefs (s # rest) w =
     (let (response, evs1, w1) =
            generateAndSelectVariation env (buildScenePrompt characterRefs s script)
              (scene_outputName s) scene_asset w;
          (evs2, w2) = scenes_loop env script characterRefs rest w1
      in (evs1 @ [Delay 2000] @ evs2, w2))"

definition generateScenes ::
  "'w env \<Rightarrow> AnimeScript \<Rightarrow> (string \<rightharpoonup> string) \<Rightarrow> 'w \<Rightarrow> event list \<times> 'w" where
  "generateScenes env script characterRefs w =
     scenes_loop env script characterRefs (AnimeScript.scenes script) w"

text \<open>\<open>createDirectoryStructure\<close>: the first \<open>mkdir\<close> that throws ends it.\<close>

fun mkdir_each :: "'w env \<Rightarrow> string list \<Rightarrow> 'w \<Rightarrow> (error + unit) \<times> event list \<times> 'w" where
  "mkdir_each env [] w = (Inr (), [], w)"
| "mkdir_each env (dir # dirs) w =
     (case mkdir env dir w of
        (Inl e, w1) \<Rightarrow> (Inl e, [Call_mkdir dir False], w1)
      | (Inr _, w1) \<Rightarrow>
          (let (r, evs, w2) = mkdir_each env dirs w1 in (r, Call_mkdir dir True # evs, w2)))"

definition createDirectoryStructure ::
  "'w env \<Rightarrow> 'w \<Rightarrow> (error + unit) \<times> event list \<times> 'w" where
  "createDirectoryStructure env w =
     mkdir_each env
       [baseOutputDir,
        path_join env [baseOutputDir, ''characters''],
        path_join env [baseOutputDir, ''characters/variations''],
        path_join env [baseOutputDir, ''scenes''],
        path_join env [baseOutputDir, ''scenes/variations'']] w"

text \<open>
  \<open>generate\<close>: reading the script, the directories and the connection are inside the
  \<open>try\<close>; its \<open>catch\<close> reports the error and closes the client. The generator's
  \<open>characterRefs\<close> is passed in and returned; a new generator has the empty map.
\<close>

definition generate ::
  "'w env \<Rightarrow> string \<Rightarrow> (string \<rightharpoonup> string) \<Rightarrow> 'w \<Rightarrow> (string \<rightharpoonup> string) \<times> event list \<times> 'w" where
  "generate env scriptPath characterRefs w =
     (let caught = [Console_error ''Error in generate:'', Call_Close]
      in case readScript env scriptPath w of
           (Inl e, w1) \<Rightarrow> (characterRefs, Call_readFile scriptPath False # caught, w1)
         | (Inr script, w1) \<Rightarrow>
             (case createDirectoryStructure env w1 of
                (Inl e, evs_dirs, w2) \<Rightarrow>
                  (characterRefs, Call_readFile scriptPath True # evs_dirs @ caught, w2)
              | (Inr _, evs_dirs, w2) \<Rightarrow>
                  (case Connect env w2 of
                     (Inl e, w3) \<Rightarrow>
                       (characterRefs,
                        Call_readFile scriptPath True # evs_dirs @ Call_Connect False # caught, w3)
                   | (Inr _, w3) \<Rightarrow>
                       (let (characterRefs1, evs_characters, w4) =
                              generateCharacterReferences env script characterRefs w3;
                            (evs_scenes, w5) = generateScenes env script characterRefs1 w4
                        in (characterRefs1,
                            Call_readFile scriptPath True # evs_dirs @ [Call_Connect True]
                            @ evs_characters @ evs_scenes @ [Call_Close], w5)))))"

section \<open>\<open>anime.ts\<close>, the storyboard script with the progress ledger\<close>

text \<open>
  The \<open>story\<close> object. A scene's \<open>prompt\<close> is a function of \<open>charRefs\<close> given by a
  template literal; it is kept as the list of the template's pieces, literal text and
  interpolations \<open>${charRefs.<key>}\<close>, and \<open>scene_prompt\<close> applies it.
\<close>

record StoryCharacter =
  name :: string
  description :: string
  prompt :: string

datatype template_part = Verbatim string | Handle_of string

record StoryScene =
  title :: string
  prompt :: "template_part list"

record Story =
  title :: string
  artStyle :: string
  mainCharacters :: "StoryCharacter list"
  scenes :: "StoryScene list"

fun render_part :: "(string \<times> string) list \<Rightarrow> template_part \<Rightarrow> string" where
  "render_part charRefs (Verbatim s) = s"
| "render_part charRefs (Handle_of key) = interpolate (map_of charRefs key)"

definition scene_prompt :: "StoryScene \<Rightarrow> (string \<times> string) list \<Rightarrow> string" where
  "scene_prompt s charRefs = concat (map (render_part charRefs) (StoryScene.prompt s))"

definition story :: Story where
  "story =
     \<lparr>Story.title = ''Seasons of the Heart'',
      Story.artStyle =
        ''Generate a photo-realistic image with ultra-high detail and cinematic lighting, capturing lifelike skin textures, natural expressions, and realistic shadows. Aim for a sharp, DSLR-quality look that emphasizes authentic human features and rich color tones.'',
      mainCharacters =
        [\<lparr>StoryCharacter.name = ''Zoey'',
          StoryCharacter.description =
            ''A beautiful woman in her early thirties with tired eyes and worry lines. Professional attire suggesting her career as an interior designer. Exhausted but determined expression.'',
          StoryCharacter.prompt =
            ''Beautiful woman in early thirties, tired eyes, professional attire, exhausted but determined expression, interior designer appearance --style raw --ar 1:1 --v 6''\<rparr>,
         \<lparr>StoryCharacter.name = ''Blaine'',
          StoryCharacter.description =
            ''A handsome surgeon in his mid-thirties wearing professional medical attire. Charismatic appearance with subtle signs of emotional pain. Wealthy and sophisticated demeanor.'',
          StoryCharacter.prompt =
            ''Handsome male surgeon in mid-thirties, sophisticated appearance, professional medical attire, charismatic yet melancholic expression --style raw --ar 1:1 --v 6''\<rparr>,
         \<lparr>StoryCharacter.name = ''Max'',
          StoryCharacter.description =
            ''A brave four-year-old boy with pale skin due to illness. Bright eyes full of hope despite medical equipment around him. Gentle smile and thinning hair.'',
          StoryCharacter.prompt =
            ''Four-year-old boy with pale skin, bright hopeful eyes, gentle smile, thinning hair, medical patient appearance --style raw --ar 1:1 --v 6''\<rparr>,
         \<lparr>StoryCharacter.name = ''Sophia'',
          StoryCharacter.description =
            ''A beautiful woman in her early thirties from a wealthy background. Initially kind appearance masking growing inner conflict. Sophisticated and well-dressed.'',
          StoryCharacter.prompt =
            ''Beautiful sophisticated woman in early thirties, wealthy appearance, kind face with hint of inner conflict, designer clothing --style raw --ar 1:1 --v 6''\<rparr>,
         \<lparr>StoryCharacter.name = ''Mother'',
          StoryCharacter.description =
            ''A kind and worried woman in her late fifties. Gentle features with concern etched on her face. Casual but elegant attire.'',
          StoryCharacter.prompt =
            ''Kind worried woman in late fifties, gentle features, concerned expression, casual elegant clothing --style raw --ar 1:1 --v 6''\<rparr>],
      Story.scenes =
        [\<lparr>StoryScene.title = ''The Passionate Reunion'',
          StoryScene.prompt =
            [Verbatim
               ''Intimate hospital room setting, Zoey (wearing professional attire, vulnerable expression) turning away from Blaine (in doctor's coat, intense gaze). Tension-filled atmosphere with medical equipment in background, dramatic shadows emphasizing their emotional connection, warm lighting highlighting their faces. Close physical proximity suggesting unresolved feelings --cref '',
             Handle_of ''Zoey'',
             Verbatim
               '' '',
             Handle_of ''Blaine'',
             Verbatim
               '' --ar 1:1 --v 6'']\<rparr>,
         \<lparr>StoryScene.title = ''The Necklace Confrontation'',
          StoryScene.prompt =
            [Verbatim
               ''Night scene at Blaine's doorstep, Zoey (distressed, desperate expression) facing Blaine (conflicted, holding a meaningful necklace). Dramatic porch lighting casting shadows on their faces, urban background with city lights, emphasis on the emotional tension between them --cref '',
             Handle_of ''Zoey'',
             Verbatim
               '' '',
             Handle_of ''Blaine'',
             Verbatim
               '' --ar 1:1 --v 6'']\<rparr>,
         \<lparr>StoryScene.title = ''Sofia's Discovery'',
          StoryScene.prompt =
            [Verbatim
               ''Elegant living room, Sofia (wearing the contested necklace, defiant expression) confronting Blaine (tense, angry stance). Rich interior decor reflecting wealth, dramatic lighting emphasizing the conflict, focus on the necklace around Sofia's neck --cref '',
             Handle_of ''Sophia'',
             Verbatim
               '' '',
             Handle_of ''Blaine'',
             Verbatim
               '' --ar 1:1 --v 6'']\<rparr>,
         \<lparr>StoryScene.title = ''The Secret Escape'',
          StoryScene.prompt =
            [Verbatim
               ''Hospital corridor at night, Blaine (in doctor's coat, gentle expression) crouching down to Max's level (pale but excited young patient in hospital gown). Warm lighting from overhead, medical equipment in background, intimate moment between them as they plan their adventure --cref '',
             Handle_of ''Blaine'',
             Verbatim
               '' '',
             Handle_of ''Max'',
             Verbatim
               '' --ar 1:1 --v 6'']\<rparr>,
         \<lparr>StoryScene.title = ''The Pet Store Mission'',
          StoryScene.prompt =
            [Verbatim
               ''Colorful pet store interior, Blaine (caring expression, casual clothes) helping Max (excited despite illness, wearing comfortable clothes) choose a pet. Vibrant display of animal cages and supplies, warm lighting emphasizing their bonding moment --cref '',
             Handle_of ''Blaine'',
             Verbatim
               '' '',
             Handle_of ''Max'',
             Verbatim
               '' --ar 1:1 --v 6'']\<rparr>,
         \<lparr>StoryScene.title = ''Mother's Comfort'',
          StoryScene.prompt =
            [Verbatim
               ''Hospital waiting area, Zoey (exhausted, emotional) being comforted by her mother (concerned, supportive stance). Soft ambient lighting, medical facility backdrop, focus on their emotional interaction as they discuss Max's treatment --cref '',
             Handle_of ''Zoey'',
             Verbatim
               '' '',
             Handle_of ''Mother'',
             Verbatim
               '' --ar 1:1 --v 6'']\<rparr>,
         \<lparr>StoryScene.title = ''The Shocking Discovery'',
          StoryScene.prompt =
            [Verbatim
               ''Hospital hallway intersection, Zoey (frozen in shock) witnessing Blaine (protective stance) with Max (happy despite illness). Medical equipment and signage visible, dramatic lighting highlighting Zoey's realization, multiple perspective view capturing all three characters' expressions --cref '',
             Handle_of ''Zoey'',
             Verbatim
               '' '',
             Handle_of ''Blaine'',
             Verbatim
               '' '',
             Handle_of ''Max'',
             Verbatim
               '' --ar 1:1 --v 6'']\<rparr>]\<rparr>"

text \<open>\<open>target[k] = v\<close> on a \<open>Record<string, string>\<close> is \<open>AList.update\<close>; \<open>Object.assign\<close>
  does it for every property of the source.\<close>

definition Object_assign ::
  "(string \<times> string) list \<Rightarrow> (string \<times> string) list \<Rightarrow> (string \<times> string) list" where
  "Object_assign target source = foldl (\<lambda>t kv. AList.update (fst kv) (snd kv) t) target source"

definition progress_path :: "'w env \<Rightarrow> string" where
  "progress_path env = path_join env [''output'', ''progress.json'']"

definition references_path :: "'w env \<Rightarrow> string" where
  "references_path env = path_join env [''output'', ''character_references.json'']"

definition message :: "error \<Rightarrow> string" where
  "message e = (case e of Error m \<Rightarrow> m)"

definition loadProgress :: "'w env \<Rightarrow> 'w \<Rightarrow> ProgressState \<times> event list \<times> 'w" where
  "loadProgress env w =
     (case readProgress env (progress_path env) w of
        (Inl e, w1) \<Rightarrow>
          (\<lparr>completedCharacters = [], completedScenes = []\<rparr>,
           [Call_readFile (progress_path env) False], w1)
      | (Inr loaded, w1) \<Rightarrow> (loaded, [Call_readFile (progress_path env) True], w1))"

definition saveProgress ::
  "'w env \<Rightarrow> ProgressState \<Rightarrow> 'w \<Rightarrow> (error + unit) \<times> event list \<times> 'w" where
  "saveProgress env progress w =
     (case writeFile env (progress_path env) (ProgressJson progress) w of
        (r, w1) \<Rightarrow> (r, [Call_writeFile (progress_path env) (ProgressJson progress) (ok r)], w1))"

definition ensureDirectories :: "'w env \<Rightarrow> 'w \<Rightarrow> (error + unit) \<times> event list \<times> 'w" where
  "ensureDirectories env w =
     mkdir_each env [''output/character_images'', ''output/scene_images''] w"

text \<open>The \<open>downloadImage\<close> of this script has no \<open>try\<close>: a failure is thrown on.\<close>

definition anime_downloadImage ::
  "'w env \<Rightarrow> string \<Rightarrow> string \<Rightarrow> 'w \<Rightarrow> (error + unit) \<times> event list \<times> 'w" where
  "anime_downloadImage env url filepath w =
     (case http_get env url w of
        (Inl e, w1) \<Rightarrow> (Inl e, [Call_get url False], w1)
      | (Inr body, w1) \<Rightarrow>
          (case writeFile env filepath (ImageData body) w1 of
             (r, w2) \<Rightarrow>
               (r, [Call_get url True, Call_writeFile filepath (ImageData body) (ok r)], w2)))"

text \<open>
  What \<open>generateCharacter\<close> and \<open>generateScene\<close> share: \<open>Imagine\<close>, \<open>Upscale\<close> of
  variation 1, and the download of the upscaled image; a \<open>null\<close> result and an upscale
  without \<open>uri\<close> are thrown as errors. It returns the upscaled \<open>uri\<close>.
\<close>

definition imagine_upscale_download ::
  "'w env \<Rightarrow> asset_type \<Rightarrow> string \<Rightarrow> string \<Rightarrow> string \<Rightarrow> 'w
   \<Rightarrow> (error + string) \<times> event list \<times> 'w" where
  "imagine_upscale_download env ty ident promptText filepath w =
     (let kind = (if ty = character_asset then ''character '' else ''scene '');
          (r, w1) = Imagine env promptText w;
          imagined = Call_Imagine ty ident promptText r
      in case r of
           Inl e \<Rightarrow> (Inl e, [imagined], w1)
         | Inr None \<Rightarrow> (Inl (Error (''Failed to generate '' @ kind @ ident)), [imagined], w1)
         | Inr (Some result) \<Rightarrow>
             (let args = \<lparr>index = 1, msgId = MJResponse.id' result,
                          hash = MJResponse.hash result, flags = MJResponse.flags result\<rparr>;
                  (u, w2) = Upscale env args w1;
                  upscaled = Call_Upscale ty ident args u
              in case u of
                   Inl e \<Rightarrow> (Inl e, [imagined, upscaled], w2)
                 | Inr up \<Rightarrow>
                     (let upscaled_uri = (case up of None \<Rightarrow> None | Some m \<Rightarrow> MJResponse.uri m)
                      in if \<not> truthy upscaled_uri
                         then (Inl (Error (''Failed to upscale '' @ kind @ ident)),
                               [imagined, upscaled], w2)
                         else (case anime_downloadImage env (the upscaled_uri) filepath w2 of
                                 (Inl e, evs, w3) \<Rightarrow> (Inl e, [imagined, upscaled] @ evs, w3)
                               | (Inr _, evs, w3) \<Rightarrow>
                                   (Inr (the upscaled_uri), [imagined, upscaled] @ evs, w3)))))"

definition character_filepath :: "'w env \<Rightarrow> string \<Rightarrow> string" where
  "character_filepath env n = path_join env [''output/character_images'', n @ ''.png'']"

definition scene_filepath :: "'w env \<Rightarrow> string \<Rightarrow> string" where
  "scene_filepath env t = path_join env [''output/scene_images'', t @ ''.png'']"

definition generateCharacter ::
  "'w env \<Rightarrow> StoryCharacter \<Rightarrow> 'w \<Rightarrow> (error + string \<times> string) \<times> event list \<times> 'w" where
  "generateCharacter env c w =
     (let filepath = character_filepath env (StoryCharacter.name c)
      in case imagine_upscale_download env character_asset (StoryCharacter.name c)
                (StoryCharacter.prompt c) filepath w of
           (Inl e, evs, w1) \<Rightarrow> (Inl e, evs, w1)
         | (Inr u, evs, w1) \<Rightarrow> (Inr (u, filepath), evs, w1))"

definition generateScene ::
  "'w env \<Rightarrow> StoryScene \<Rightarrow> (string \<times> string) list \<Rightarrow> 'w
   \<Rightarrow> (error + string) \<times> event list \<times> 'w" where
  "generateScene env s characterRefs w =
     (let filepath = scene_filepath env (StoryScene.title s)
      in case imagine_upscale_download env scene_asset (StoryScene.title s)
                (scene_prompt s characterRefs) filepath w of
           (Inl e, evs, w1) \<Rightarrow> (Inl e, evs, w1)
         | (Inr u, evs, w1) \<Rightarrow> (Inr filepath, evs, w1))"

text \<open>
  The two loops of \<open>main\<close>. The state is \<open>progress\<close>, \<open>characterRefs\<close> and
  \<open>characterFiles\<close>; an error ends the loop and is handed to the \<open>catch\<close> of \<open>main\<close>.
\<close>

type_synonym run_state = "ProgressState \<times> (string \<times> string) list \<times> (string \<times> string) list"

fun characters_loop ::
  "'w env \<Rightarrow> StoryCharacter list \<Rightarrow> run_state \<Rightarrow> 'w
   \<Rightarrow> (error + unit) \<times> run_state \<times> event list \<times> 'w" where
  "characters_loop env [] st w = (Inr (), st, [], w)"
| "characters_loop env (c # rest) (progress, characterRefs, characterFiles) w =
     (if StoryCharacter.name c \<notin> set (completedCharacters progress)
      then (case generateCharacter env c w of
              (Inl e, evs1, w1) \<Rightarrow> (Inl e, (progress, characterRefs, characterFiles), evs1, w1)
            | (Inr (u, filepath), evs1, w1) \<Rightarrow>
                (let characterRefs1 = AList.update (StoryCharacter.name c) u characterRefs;
                     characterFiles1 = AList.update (StoryCharacter.name c) filepath characterFiles;
                     progress1 = progress\<lparr>completedCharacters :=
                                   completedCharacters progress @ [StoryCharacter.name c]\<rparr>
                 in case saveProgress env progress1 w1 of
                      (Inl e, evs2, w2) \<Rightarrow>
                        (Inl e, (progress1, characterRefs1, characterFiles1), evs1 @ evs2, w2)
                    | (Inr _, evs2, w2) \<Rightarrow>
                        (let (r, st, evs3, w3) =
                               characters_loop env rest
                                 (progress1, characterRefs1, characterFiles1) w2
                         in (r, st, evs1 @ evs2 @ [Delay 5000] @ evs3, w3))))
      else characters_loop env rest (progress, characterRefs, characterFiles) w)"

fun story_scenes_loop ::
  "'w env \<Rightarrow> StoryScene list \<Rightarrow> run_state \<Rightarrow> 'w
   \<Rightarrow> (error + unit) \<times> run_state \<times> event list \<times> 'w" where
  "story_scenes_loop env [] st w = (Inr (), st, [], w)"
| "story_scenes_loop env (s # rest) (progress, characterRefs, characterFiles) w =
     (if StoryScene.title s \<notin> set (completedScenes progress)
      then (case generateScene env s characterRefs w of
              (Inl e, evs1, w1) \<Rightarrow> (Inl e, (progress, characterRefs, characterFiles), evs1, w1)
            | (Inr filepath, evs1, w1) \<Rightarrow>
                (let progress1 = progress\<lparr>completedScenes :=
                                   completedScenes progress @ [StoryScene.title s]\<rparr>
                 in case saveProgress env progress1 w1 of
                      (Inl e, evs2, w2) \<Rightarrow>
                        (Inl e, (progress1, characterRefs, characterFiles), evs1 @ evs2, w2)
                    | (Inr _, evs2, w2) \<Rightarrow>
                        (let (r, st, evs3, w3) =
                               story_scenes_loop env rest
                                 (progress1, characterRefs, characterFiles) w2
                         in (r, st, evs1 @ evs2 @ [Delay 5000] @ evs3, w3))))
      else story_scenes_loop env rest (progress, characterRefs, characterFiles) w)"

text \<open>The inner \<open>try\<close> of \<open>main\<close>: the references of an earlier run, or nothing.\<close>

definition load_references ::
  "'w env \<Rightarrow> 'w \<Rightarrow> ((string \<times> string) list \<times> (string \<times> string) list) \<times> event list \<times> 'w" where
  "load_references env w =
     (case readReferences env (references_path env) w of
        (Inl e, w1) \<Rightarrow> (([], []), [Call_readFile (references_path env) False], w1)
      | (Inr (uris, files), w1) \<Rightarrow>
          ((Object_assign [] uris, Object_assign [] files),
           [Call_readFile (references_path env) True], w1))"

text \<open>The body of the outer \<open>try\<close> of \<open>main\<close>.\<close>

definition main_body ::
  "'w env \<Rightarrow> Story \<Rightarrow> ProgressState \<Rightarrow> 'w \<Rightarrow> (error + unit) \<times> run_state \<times> event list \<times> 'w" where
  "main_body env st0 progress w =
     (let ((characterRefs, characterFiles), evs0, w0) = load_references env w;
          (r1, st1, evs1, w1) =
            characters_loop env (mainCharacters st0) (progress, characterRefs, characterFiles) w0
      in case r1 of
           Inl e \<Rightarrow> (Inl e, st1, evs0 @ evs1, w1)
         | Inr _ \<Rightarrow>
             (let (r2, st2, evs2, w2) = story_scenes_loop env (Story.scenes st0) st1 w1
              in case r2 of
                   Inl e \<Rightarrow> (Inl e, st2, evs0 @ evs1 @ evs2, w2)
                 | Inr _ \<Rightarrow>
                     (let summary = ReferencesJson (fst (snd st2)) (snd (snd st2));
                          (r3, w3) = writeFile env (references_path env) summary w2
                      in (r3, st2,
                          evs0 @ evs1 @ evs2
                          @ [Call_writeFile (references_path env) summary (ok r3)], w3))))"

text \<open>
  \<open>main\<close>, for a story: the directories, the ledger and the connection come before
  the \<open>try\<close>, so their failure rejects \<open>main\<close> and \<open>main().catch(console.error)\<close> prints
  it; inside, the \<open>catch\<close> prints the error and \<open>finally\<close> closes the client.
\<close>

definition main :: "'w env \<Rightarrow> Story \<Rightarrow> 'w \<Rightarrow> run_state \<times> event list \<times> 'w" where
  "main env st0 w =
     (let none = (\<lparr>completedCharacters = [], completedScenes = []\<rparr>, [], [])
      in case ensureDirectories env w of
           (Inl e, evs_dirs, w1) \<Rightarrow> (none, evs_dirs @ [Console_error (message e)], w1)
         | (Inr _, evs_dirs, w1) \<Rightarrow>
             (let (progress, evs_load, w2) = loadProgress env w1
              in case Connect env w2 of
                   (Inl e, w3) \<Rightarrow>
                     ((progress, [], []),
                      evs_dirs @ evs_load @ [Call_Connect False, Console_error (message e)], w3)
                 | (Inr _, w3) \<Rightarrow>
                     (let (r, st, evs, w4) = main_body env st0 progress w3;
                          caught = (case r of
                                      Inl e \<Rightarrow> [Console_error ''Error generating storyboard:'']
                                    | Inr _ \<Rightarrow> [])
                      in (st, evs_dirs @ evs_load @ [Call_Connect True] @ evs @ caught
                              @ [Call_Close], w4))))"

section \<open>The specification's words\<close>

text \<open>
  The scene prompt as the specification composes it. A referenced name that is found in
  \<open>Script.characters\<close> gives the clause \<open><name> (<description>, <stylePrompt>)\<close>, a name
  that is not found gives the bare name. The tokens are, in order: the quality
  boilerplate, the clauses, the action, \<open>in <setting>\<close>, the mood, the camera angle if
  there is one, the art style of the script, the lighting and composition directive and
  the format directives; empty ones are left out.
\<close>

definition spec_clause :: "AnimeScript \<Rightarrow> string \<Rightarrow> string" where
  "spec_clause script n =
     (case filter (\<lambda>c. Character.name c = n) (AnimeScript.characters script) of
        [] \<Rightarrow> n
      | c # _ \<Rightarrow> n @ '' ('' @ Character.description c @ '', '' @ stylePrompt c @ '')'')"

definition spec_tokens :: "Scene \<Rightarrow> AnimeScript \<Rightarrow> string list" where
  "spec_tokens scene script =
     filter (\<lambda>t. t \<noteq> [])
       ([''masterpiece, best quality'',
         join '' and '' (map (spec_clause script) (Scene.characters scene)),
         action scene,
         ''in '' @ setting scene,
         mood scene]
        @ (case cameraAngle scene of None \<Rightarrow> [] | Some a \<Rightarrow> [a])
        @ [AnimeScript.artStyle script,
           ''detailed lighting, perfect composition'',
           ''--ar 16:9 --v 6 --style raw''])"

text \<open>
  The reference directives as the specification words them: one \<open>--cref\<close> directive for
  each listed name that has a resolved handle, in the order of the list, and the weight
  directive on the name at position 0.
\<close>

definition spec_directive :: "(string \<rightharpoonup> string) \<Rightarrow> nat \<times> string \<Rightarrow> string" where
  "spec_directive refs p =
     (if truthy (refs (snd p))
      then '' --cref '' @ the (refs (snd p)) @ (if fst p = 0 then '' --cw 1'' else '''')
      else '''')"

definition reference_directives :: "(string \<rightharpoonup> string) \<Rightarrow> string list \<Rightarrow> string" where
  "reference_directives refs names = concat (map (spec_directive refs) (enumerate 0 names))"

text \<open>The \<open>--cref\<close> directives of the names that have a resolved handle, without weight.\<close>

definition plain_directives :: "(string \<rightharpoonup> string) \<Rightarrow> string list \<Rightarrow> string" where
  "plain_directives refs names =
     concat (map (\<lambda>n. '' --cref '' @ the (refs n)) (filter (\<lambda>n. truthy (refs n)) names))"

text \<open>
  Variation selection as the specification words it. Every variation \<open>v\<^sub>i\<close> of a result is
  persisted to \<open>variation_<i+1>.png\<close> in the variations area of the item, in the order of
  the list, and then the first variation to the canonical path of the item. To persist
  is to download the URL and to write the bytes that came to the path; when the
  download or the write fails, the failure is reported, nothing is persisted for that
  target, and the next target is taken. The metadata of the item name the first
  variation as the selected one.
\<close>

definition variation_path :: "'w env \<Rightarrow> string \<Rightarrow> nat \<Rightarrow> string" where
  "variation_path env variationsDir i =
     path_join env [variationsDir, ''variation_'' @ toString (int i + 1) @ ''.png'']"

definition persist_targets ::
  "'w env \<Rightarrow> asset_type \<Rightarrow> string \<Rightarrow> Variation list \<Rightarrow> (string \<times> string) list" where
  "persist_targets env ty outputName vs =
     map (\<lambda>(i, v). (Variation.uri v,
            variation_path env
              (path_join env [baseOutputDir, type_variations_dir ty, outputName]) i))
         (enumerate 0 vs)
     @ [(Variation.uri (hd vs),
         path_join env [baseOutputDir, type_dir ty, outputName @ ''.png''])]"

definition persist :: "'w env \<Rightarrow> string \<times> string \<Rightarrow> 'w \<Rightarrow> event list \<times> 'w" where
  "persist env target w =
     (let (got, w1) = http_get env (fst target) w;
          report = Console_error (''Error downloading image from '' @ fst target @ '':'')
      in case got of
           Inl e \<Rightarrow> ([Call_get (fst target) False, report], w1)
         | Inr body \<Rightarrow>
             (let (written, w2) = writeFile env (snd target) (ImageData body) w1
              in (Call_get (fst target) True
                  # Call_writeFile (snd target) (ImageData body) (ok written)
                  # (if ok written then [] else [report]), w2)))"

fun persist_all :: "'w env \<Rightarrow> (string \<times> string) list \<Rightarrow> 'w \<Rightarrow> event list \<times> 'w" where
  "persist_all env [] w = ([], w)"
| "persist_all env (target # targets) w =
     (let (evs1, w1) = persist env target w;
          (evs2, w2) = persist_all env targets w1
      in (evs1 @ evs2, w2))"

definition selection_metadata ::
  "'w env \<Rightarrow> asset_type \<Rightarrow> string \<Rightarrow> string \<Rightarrow> MJResponse \<Rightarrow> Variation list \<Rightarrow> Metadata" where
  "selection_metadata env ty outputName promptText imagine vs =
     \<lparr>Metadata.prompt = promptText,
      imagineId = MJResponse.id' imagine,
      selectedVariation = Variation.id' (hd vs),
      allVariations = map (\<lambda>v. (Variation.id' v, Variation.uri v)) vs,
      localPath = path_join env [baseOutputDir, type_dir ty, outputName @ ''.png'']\<rparr>"

section \<open>Observations on a trace\<close>

text \<open>The backend calls of a trace: the kind and identifier of the item of each
  \<open>Imagine\<close> (\<open>attempts\<close>), and of each \<open>Imagine\<close> or \<open>Upscale\<close> (\<open>submissions\<close>).\<close>

fun attempt :: "event \<Rightarrow> (asset_type \<times> string) list" where
  "attempt (Call_Imagine ty ident p r) = [(ty, ident)]"
| "attempt e = []"

definition attempts :: "event list \<Rightarrow> (asset_type \<times> string) list" where
  "attempts evs = concat (map attempt evs)"

fun submission :: "event \<Rightarrow> (asset_type \<times> string) list" where
  "submission (Call_Imagine ty ident p r) = [(ty, ident)]"
| "submission (Call_Upscale ty ident a r) = [(ty, ident)]"
| "submission e = []"

definition submissions :: "event list \<Rightarrow> (asset_type \<times> string) list" where
  "submissions evs = concat (map submission evs)"

text \<open>A write of per-item metadata, or of the reference summary.\<close>

fun is_metadata_write :: "event \<Rightarrow> bool" where
  "is_metadata_write (Call_writeFile p (MetadataJson m) b) = True"
| "is_metadata_write (Call_writeFile p (ReferencesJson uris files) b) = True"
| "is_metadata_write e = False"

text \<open>Phase order of a list of backend calls: once a scene has been called for, no
  character is called for any more.\<close>

definition phase_ordered :: "(asset_type \<times> string) list \<Rightarrow> bool" where
  "phase_ordered calls =
     list_all (\<lambda>c. fst c = scene_asset) (dropWhile (\<lambda>c. fst c = character_asset) calls)"

text \<open>The prompts of the \<open>Imagine\<close> calls made for scenes, with the scene identifiers.\<close>

fun scene_call :: "event \<Rightarrow> (string \<times> string) list" where
  "scene_call (Call_Imagine scene_asset ident p r) = [(ident, p)]"
| "scene_call e = []"

definition scene_calls :: "event list \<Rightarrow> (string \<times> string) list" where
  "scene_calls evs = concat (map scene_call evs)"

text \<open>The events that are neither a backend call nor a write.\<close>

fun quiet :: "event \<Rightarrow> bool" where
  "quiet (Call_Imagine ty ident p r) = False"
| "quiet (Call_Upscale ty ident a r) = False"
| "quiet (Call_writeFile p d b) = False"
| "quiet (Call_get u b) = False"
| "quiet e = True"

text \<open>
  The ledger on a trace: the one that was written last, whether the write succeeded or
  not, which is what the program holds in \<open>progress\<close>; and the one that was saved last,
  which is what the ledger file holds. \<open>cur\<close> is the ledger before the trace.
\<close>

fun is_ledger_write :: "event \<Rightarrow> bool" where
  "is_ledger_write (Call_writeFile p (ProgressJson L) b) = True"
| "is_ledger_write e = False"

fun is_ledger_save :: "event \<Rightarrow> bool" where
  "is_ledger_save (Call_writeFile p (ProgressJson L) True) = True"
| "is_ledger_save e = False"

fun last_written :: "ProgressState \<Rightarrow> event list \<Rightarrow> ProgressState" where
  "last_written cur [] = cur"
| "last_written cur (Call_writeFile p (ProgressJson L) b # es) = last_written L es"
| "last_written cur (e # es) = last_written cur es"

fun last_saved :: "ProgressState \<Rightarrow> event list \<Rightarrow> ProgressState" where
  "last_saved cur [] = cur"
| "last_saved cur (Call_writeFile p (ProgressJson L) True # es) = last_saved L es"
| "last_saved cur (e # es) = last_saved cur es"

text \<open>The successful write of an image, the artifact of an item, and its path.\<close>

fun artifact_written :: "event \<Rightarrow> string option" where
  "artifact_written (Call_writeFile q (ImageData body) True) = Some q"
| "artifact_written e = None"

definition is_artifact_write :: "event \<Rightarrow> bool" where
  "is_artifact_write e = (artifact_written e \<noteq> None)"

text \<open>The ledger \<open>L\<close> has exactly one more entry than \<open>cur\<close>, at the end, and it is the entry
  of the item whose image is at the path \<open>q\<close>.\<close>

definition entry_added :: "'w env \<Rightarrow> ProgressState \<Rightarrow> ProgressState \<Rightarrow> string \<Rightarrow> bool" where
  "entry_added env cur L q =
     ((completedCharacters L \<noteq> []
       \<and> completedCharacters L = completedCharacters cur @ [last (completedCharacters L)]
       \<and> completedScenes L = completedScenes cur
       \<and> q = character_filepath env (last (completedCharacters L)))
      \<or> (completedScenes L \<noteq> []
         \<and> completedScenes L = completedScenes cur @ [last (completedScenes L)]
         \<and> completedCharacters L = completedCharacters cur
         \<and> q = scene_filepath env (last (completedScenes L))))"

text \<open>
  The ledger discipline on a trace, in both directions. Reading the trace from the left
  with the ledger as last saved (\<open>cur\<close>) and the path of an image that has just been
  written and is not yet in the ledger (\<open>awaiting\<close>): the event directly after the
  successful write of an image is a write of the ledger; every write of the ledger comes
  directly after such a write, goes to the ledger file, and has exactly one more entry
  than the ledger before it, the entry of that image's item; and after a write of the
  ledger that failed there is no further backend call, download or write.
\<close>

fun ledger_discipline ::
  "'w env \<Rightarrow> ProgressState \<Rightarrow> string option \<Rightarrow> event list \<Rightarrow> bool" where
  "ledger_discipline env cur awaiting [] = (awaiting = None)"
| "ledger_discipline env cur awaiting (Call_writeFile p (ProgressJson L) b # es) =
     (p = progress_path env
      \<and> (case awaiting of None \<Rightarrow> False | Some q \<Rightarrow> entry_added env cur L q)
      \<and> (if b then ledger_discipline env L None es else list_all quiet es))"
| "ledger_discipline env cur awaiting (e # es) =
     (awaiting = None \<and> ledger_discipline env cur (artifact_written e) es)"

text \<open>
  The items of a trace at which something happens: reading from the left, the item in
  work is the one of the latest backend call, and every event that satisfies \<open>at\<close> gives
  the item in work. With \<open>is_artifact_write\<close> these are the items whose image was
  written, with \<open>is_ledger_save\<close> the items after which the ledger was saved.
\<close>

definition item_in_work ::
  "(asset_type \<times> string) option \<Rightarrow> event \<Rightarrow> (asset_type \<times> string) option" where
  "item_in_work cur e = (case submission e of [] \<Rightarrow> cur | i # _ \<Rightarrow> Some i)"

fun items_at ::
  "(event \<Rightarrow> bool) \<Rightarrow> (asset_type \<times> string) option \<Rightarrow> event list
   \<Rightarrow> (asset_type \<times> string) list" where
  "items_at at cur [] = []"
| "items_at at cur (e # es) =
     (if at e then (case cur of None \<Rightarrow> [] | Some i \<Rightarrow> [i]) else [])
     @ items_at at (item_in_work cur e) es"

text \<open>The ledger with an entry added for each item of a list, in order.\<close>

fun record_item :: "ProgressState \<Rightarrow> asset_type \<times> string \<Rightarrow> ProgressState" where
  "record_item progress (character_asset, n) =
     progress\<lparr>completedCharacters := completedCharacters progress @ [n]\<rparr>"
| "record_item progress (scene_asset, t) =
     progress\<lparr>completedScenes := completedScenes progress @ [t]\<rparr>"

definition record_items :: "ProgressState \<Rightarrow> (asset_type \<times> string) list \<Rightarrow> ProgressState" where
  "record_items progress items = foldl record_item progress items"

text \<open>An event that is neither the successful write of an image nor a write of the
  ledger.\<close>

definition plain :: "event \<Rightarrow> bool" where
  "plain e = (artifact_written e = None \<and> \<not> is_ledger_write e)"

text \<open>
  The character handles that a trace resolves. Reading from the left, the handle in work
  is the \<open>uri\<close> of the latest upscale if that was made for a character, with the
  character's name, and none after any other backend call; the successful write of an
  image gives the handle in work.
\<close>

fun handle_in_work :: "(string \<times> string) option \<Rightarrow> event \<Rightarrow> (string \<times> string) option" where
  "handle_in_work cur (Call_Upscale character_asset n a (Inr (Some m))) =
     (case MJResponse.uri m of None \<Rightarrow> None | Some u \<Rightarrow> Some (n, u))"
| "handle_in_work cur (Call_Upscale ty n a r) = None"
| "handle_in_work cur (Call_Imagine ty n p r) = None"
| "handle_in_work cur e = cur"

fun resolved_handles :: "(string \<times> string) option \<Rightarrow> event list \<Rightarrow> (string \<times> string) list" where
  "resolved_handles cur [] = []"
| "resolved_handles cur (e # es) =
     (if is_artifact_write e then (case cur of None \<Rightarrow> [] | Some h \<Rightarrow> [h]) else [])
     @ resolved_handles (handle_in_work cur e) es"

text \<open>Metadata before the ledger, on a trace: every write of the ledger has a metadata
  write (of any item, or of the summary) somewhere before it. \<open>seen\<close> says whether one has occurred.\<close>

fun metadata_before_ledger :: "bool \<Rightarrow> event list \<Rightarrow> bool" where
  "metadata_before_ledger seen [] = True"
| "metadata_before_ledger seen (e # es) =
     ((is_ledger_write e \<longrightarrow> seen)
      \<and> metadata_before_ledger (seen \<or> is_metadata_write e) es)"

section \<open>Observations on a run of \<open>main\<close>\<close>

text \<open>
  What \<open>main\<close> has when it enters its \<open>try\<close>: the ledger that \<open>loadProgress\<close> returned
  and the world after the connection; \<open>None\<close> when the directories or the connection
  failed, so that \<open>main\<close> ended before the \<open>try\<close>.
\<close>

definition startup :: "'w env \<Rightarrow> 'w \<Rightarrow> (ProgressState \<times> 'w) option" where
  "startup env w =
     (case ensureDirectories env w of
        (Inl e, evs_dirs, w1) \<Rightarrow> None
      | (Inr _, evs_dirs, w1) \<Rightarrow>
          (case loadProgress env w1 of
             (progress, evs_load, w2) \<Rightarrow>
               (case Connect env w2 of
                  (Inl e, w3) \<Rightarrow> None
                | (Inr _, w3) \<Rightarrow> Some (progress, w3))))"

text \<open>The references that the inner \<open>try\<close> of \<open>main\<close> loads in that world.\<close>

definition loaded_references :: "'w env \<Rightarrow> 'w \<Rightarrow> (string \<times> string) list" where
  "loaded_references env w0 = fst (fst (load_references env w0))"

text \<open>The items of a story that a ledger does not mark complete.\<close>

definition pending :: "Story \<Rightarrow> ProgressState \<Rightarrow> (asset_type \<times> string) set" where
  "pending st progress =
     {(character_asset, StoryCharacter.name c) | c.
        c \<in> set (mainCharacters st)
        \<and> StoryCharacter.name c \<notin> set (completedCharacters progress)}
     \<union> {(scene_asset, StoryScene.title s) | s.
          s \<in> set (Story.scenes st) \<and> StoryScene.title s \<notin> set (completedScenes progress)}"

section \<open>Observations on a run of \<open>generate\<close>\<close>

text \<open>
  What \<open>generate\<close> has when it enters the character phase: the script that it read and
  the world after the connection; \<open>None\<close> when the script, a directory or the connection
  failed, so that \<open>generate\<close> ended before the phase.
\<close>

definition generate_startup :: "'w env \<Rightarrow> string \<Rightarrow> 'w \<Rightarrow> (AnimeScript \<times> 'w) option" where
  "generate_startup env scriptPath w =
     (case readScript env scriptPath w of
        (Inl e, w1) \<Rightarrow> None
      | (Inr script, w1) \<Rightarrow>
          (case createDirectoryStructure env w1 of
             (Inl e, evs_dirs, w2) \<Rightarrow> None
           | (Inr _, evs_dirs, w2) \<Rightarrow>
               (case Connect env w2 of
                  (Inl e, w3) \<Rightarrow> None
                | (Inr _, w3) \<Rightarrow> Some (script, w3))))"

text \<open>
  The handles that the character phase resolves from the world \<open>w\<close> on, in the order of
  the characters: for every character whose generation returns a result with a \<open>uri\<close>,
  the name of the character and that \<open>uri\<close>.
\<close>

fun resolved_references :: "'w env \<Rightarrow> Character list \<Rightarrow> 'w \<Rightarrow> (string \<times> string) list" where
  "resolved_references env [] w = []"
| "resolved_references env (c # cs) w =
     (let (response, evs, w1) =
            generateAndSelectVariation env (buildCharacterPrompt c)
              (''character_'' @ toLowerCase (Character.name c)) character_asset w
      in (case response of
            None \<Rightarrow> []
          | Some r \<Rightarrow>
              if truthy (MJResponse.uri r) then [(Character.name c, the (MJResponse.uri r))]
              else [])
         @ resolved_references env cs w1)"

section \<open>Sample inputs and a stub of the outside world\<close>

text \<open>
  A stub in the way a test would write it. The world is the list of the files written so
  far, each with its path and what was written, in the order of the writes. \<open>Imagine\<close>
  answers by the prompt, \<open>Upscale\<close> returns an image named after the message, a download
  returns a body named after the URL, a write to one of the \<open>read_only\<close> paths throws and
  writes nothing, and the three input files hold what the stub says (\<open>None\<close>: the file is
  missing). \<open>path.join\<close> joins with \<open>/\<close> and drops a leading \<open>./\<close>, which is what it does
  on the paths of these scripts.
\<close>

record stub =
  answers :: "string \<Rightarrow> MJResponse option"
  read_only :: "string list"
  script_file :: "AnimeScript option"
  ledger_file :: "ProgressState option"
  references_file :: "((string \<times> string) list \<times> (string \<times> string) list) option"

definition stub_path_join :: "string list \<Rightarrow> string" where
  "stub_path_join segments =
     (let p = join ''/'' segments in if take 2 p = ''./'' then drop 2 p else p)"

definition read_stub :: "'a option \<Rightarrow> 'w \<Rightarrow> (error + 'a) \<times> 'w" where
  "read_stub file w = (case file of None \<Rightarrow> (Inl (Error ''ENOENT''), w) | Some x \<Rightarrow> (Inr x, w))"

definition stub_upscaled :: "UpscaleArgs \<Rightarrow> MJResponse" where
  "stub_upscaled a =
     \<lparr>MJResponse.id' = Some (interpolate (msgId a) @ ''-U1''),
      MJResponse.hash = UpscaleArgs.hash a,
      MJResponse.flags = UpscaleArgs.flags a,
      MJResponse.uri = Some (''https://cdn.test/'' @ interpolate (msgId a) @ ''-U1.png''),
      MJResponse.options = None\<rparr>"

definition stub_env :: "stub \<Rightarrow> (string \<times> filedata) list env" where
  "stub_env s =
     \<lparr>path_join = stub_path_join,
      Connect = (\<lambda>w. (Inr (), w)),
      Imagine = (\<lambda>p w. (Inr (answers s p), w)),
      Upscale = (\<lambda>a w. (Inr (Some (stub_upscaled a)), w)),
      http_get = (\<lambda>u w. (Inr (''bytes of '' @ u), w)),
      writeFile = (\<lambda>p d w. if p \<in> set (read_only s) then (Inl (Error ''EACCES''), w)
                            else (Inr (), w @ [(p, d)])),
      mkdir = (\<lambda>p w. (Inr (), w)),
      readScript = (\<lambda>p. read_stub (script_file s)),
      readProgress = (\<lambda>p. read_stub (ledger_file s)),
      readReferences = (\<lambda>p. read_stub (references_file s))\<rparr>"

text \<open>A backend answer with two variations, named after \<open>ident\<close>.\<close>

definition two_variations :: "string \<Rightarrow> MJResponse" where
  "two_variations ident =
     \<lparr>MJResponse.id' = Some ident,
      MJResponse.hash = Some ''h'',
      MJResponse.flags = Some 0,
      MJResponse.uri = Some (''https://cdn.test/'' @ ident @ ''.png''),
      MJResponse.options =
        Some [\<lparr>Variation.id' = ident @ ''-1'', Variation.hash = ''h1'',
               Variation.uri = ''https://cdn.test/'' @ ident @ ''-1.png''\<rparr>,
              \<lparr>Variation.id' = ident @ ''-2'', Variation.hash = ''h2'',
               Variation.uri = ''https://cdn.test/'' @ ident @ ''-2.png''\<rparr>]\<rparr>"

definition plain_stub :: stub where
  "plain_stub =
     \<lparr>answers = (\<lambda>p. Some (two_variations ''m'')), read_only = [], script_file = None,
      ledger_file = None, references_file = None\<rparr>"

text \<open>A script with two characters and scenes that list a third, unknown name.\<close>

definition Ann :: Character where
  "Ann = \<lparr>Character.name = ''Ann'', Character.description = ''tall'', stylePrompt = ''red hat''\<rparr>"

definition Bob :: Character where
  "Bob = \<lparr>Character.name = ''Bob'', Character.description = ''short'', stylePrompt = ''scarf''\<rparr>"

definition scene_one :: Scene where
  "scene_one =
     \<lparr>sceneNumber = 1, Scene.description = ''first'', Scene.characters = [''Ann'', ''Bob''],
      setting = ''a park'', mood = ''calm'', cameraAngle = Some ''wide shot'',
      action = ''Ann waves''\<rparr>"

definition scene_two :: Scene where
  "scene_two =
     \<lparr>sceneNumber = 2, Scene.description = ''second'', Scene.characters = [''Eve'', ''Bob''],
      setting = ''a cafe'', mood = ''tense'', cameraAngle = None, action = ''Bob waits''\<rparr>"

definition sample_script :: AnimeScript where
  "sample_script =
     \<lparr>AnimeScript.title = ''Sample'', style = ''anime'', AnimeScript.artStyle = ''ink'',
      AnimeScript.characters = [Ann, Bob], AnimeScript.scenes = [scene_one, scene_two]\<rparr>"



text \<open>A stub whose file system refuses the second variation of the character \<open>Ann\<close>.\<close>

definition variation_refused_stub :: stub where
  "variation_refused_stub =
     plain_stub
       \<lparr>read_only := [''anime_output/characters/variations/character_ann/variation_2.png'']\<rparr>"

text \<open>Stubs for the storyboard script: the backend answers, the ledger file and the
  reference summary file are given; every write succeeds.\<close>

definition story_stub ::
  "(string \<Rightarrow> MJResponse option) \<Rightarrow> ProgressState option
   \<Rightarrow> ((string \<times> string) list \<times> (string \<times> string) list) option \<Rightarrow> stub" where
  "story_stub backend ledger references =
     \<lparr>answers = backend, read_only = [], script_file = None, ledger_file = ledger,
      references_file = references\<rparr>"

definition always_answers :: "string \<Rightarrow> MJResponse option" where
  "always_answers p = Some (two_variations ''m'')"

text \<open>A stub for the storyboard script whose file system refuses the ledger file; there
  is no ledger and no reference summary of an earlier run.\<close>

definition ledger_refused_stub :: stub where
  "ledger_refused_stub =
     (story_stub always_answers None None)\<lparr>read_only := [''output/progress.json'']\<rparr>"

text \<open>The ledger that marks every item of the story complete.\<close>

definition complete_ledger :: ProgressState where
  "complete_ledger =
     \<lparr>completedCharacters = map StoryCharacter.name (mainCharacters story),
      completedScenes = map StoryScene.title (Story.scenes story)\<rparr>"

text \<open>The ledger of a run that was interrupted before its last character, \<open>Mother\<close>.\<close>

definition Mother_pending :: ProgressState where
  "Mother_pending =
     \<lparr>completedCharacters = [''Zoey'', ''Blaine'', ''Max'', ''Sophia''],
      completedScenes = map StoryScene.title (Story.scenes story)\<rparr>"

text \<open>The ledger of a run that completed every character and no scene, and a reference
  summary of an earlier run.\<close>

definition characters_done :: ProgressState where
  "characters_done =
     \<lparr>completedCharacters = map StoryCharacter.name (mainCharacters story),
      completedScenes = []\<rparr>"

definition earlier_references :: "(string \<times> string) list \<times> (string \<times> string) list" where
  "earlier_references =
     ([(''Zoey'', ''https://old.test/zoey.png''), (''Blaine'', ''https://old.test/blaine.png'')],
      [(''Zoey'', ''output/character_images/Zoey.png''),
       (''Blaine'', ''output/character_images/Blaine.png'')])"

text \<open>A stub that holds the sample script.\<close>

definition scripted_stub :: stub where
  "scripted_stub = plain_stub\<lparr>script_file := Some sample_script\<rparr>"

text \<open>A stub with the sample script, a ledger that holds the character \<open>Blaine\<close> only, and
  the reference summary of an earlier run, which has handles for \<open>Zoey\<close> and \<open>Blaine\<close>.\<close>

definition Blaine_done :: ProgressState where
  "Blaine_done = \<lparr>completedCharacters = [''Blaine''], completedScenes = []\<rparr>"

definition partly_resumed_stub :: stub where
  "partly_resumed_stub =
     scripted_stub\<lparr>ledger_file := Some Blaine_done,
                   references_file := Some earlier_references\<rparr>"


section \<open>Properties of the prompt builders\<close>

lemmas sample_defs = sample_script_def scene_one_def scene_two_def Ann_def Bob_def

lemma stub_env_fields [simp]:
  "path_join (stub_env s) = stub_path_join"
  "Connect (stub_env s) = (\<lambda>w. (Inr (), w))"
  "Imagine (stub_env s) = (\<lambda>p w. (Inr (answers s p), w))"
  "Upscale (stub_env s) = (\<lambda>a w. (Inr (Some (stub_upscaled a)), w))"
  "http_get (stub_env s) = (\<lambda>u w. (Inr (''bytes of '' @ u), w))"
  "writeFile (stub_env s) =
     (\<lambda>p d w. if p \<in> set (read_only s) then (Inl (Error ''EACCES''), w)
              else (Inr (), w @ [(p, d)]))"
  "mkdir (stub_env s) = (\<lambda>p w. (Inr (), w))"
  "readScript (stub_env s) = (\<lambda>p. read_stub (script_file s))"
  "readProgress (stub_env s) = (\<lambda>p. read_stub (ledger_file s))"
  "readReferences (stub_env s) = (\<lambda>p. read_stub (references_file s))"
  by (simp_all add: stub_env_def)

lemmas stub_defs = plain_stub_def stub_path_join_def read_stub_def

subsection \<open>The source's lookups in the specification's words\<close>

lemma find_as_filter: "find P xs = (case filter P xs of [] \<Rightarrow> None | x # _ \<Rightarrow> Some x)"
  by (induction xs) auto

lemma found_clause:
  "(case find (\<lambda>c. Character.name c = n) (AnimeScript.characters script) of
      Some char \<Rightarrow>
        Character.name char @ '' ('' @ Character.description char @ '', ''
        @ stylePrompt char @ '')''
    | None \<Rightarrow> n) = spec_clause script n"
  by (auto simp: spec_clause_def find_as_filter split: list.splits dest: filter_eq_ConsD)

lemma characterDetails_spec:
  "characterDetails scene script =
     join '' and '' (map (spec_clause script) (Scene.characters scene))"
  by (simp add: characterDetails_def found_clause)

lemma scene_parts_spec: "filter_Boolean (scene_parts scene script) = spec_tokens scene script"
  by (cases "cameraAngle scene")
     (simp_all add: filter_Boolean_def scene_parts_def spec_tokens_def characterDetails_spec)

lemma add_character_references_enumerate:
  "add_character_references refs i names acc =
     acc @ concat (map (spec_directive refs) (enumerate i names))"
  by (induction names arbitrary: i acc) (simp_all add: Let_def spec_directive_def)

lemma add_character_references_later:
  "0 < i \<Longrightarrow> add_character_references refs i names acc = acc @ plain_directives refs names"
  by (induction names arbitrary: i acc) (simp_all add: Let_def plain_directives_def)

subsection \<open>A word without blanks lies on one side of a blank\<close>

lemma sublist_across_separator:
  assumes "c \<notin> set w" and "sublist w (a @ c # b)"
  shows "sublist w a \<or> sublist w b"
proof -
  from assms(2) obtain ps ss where "a @ c # b = ps @ w @ ss"
    by (auto simp: sublist_def)
  then consider (left) us where "a = ps @ us" "us @ c # b = w @ ss"
    | (right) us where "a @ us = ps" "c # b = us @ w @ ss"
    by (auto simp: append_eq_append_conv2)
  then show ?thesis
  proof cases
    case left
    from left(2) consider (inside) vs where "us = w @ vs"
      | (across) vs where "us @ vs = w" "c # b = vs @ ss" "vs \<noteq> []"
      by (auto simp: append_eq_append_conv2) metis
    then show ?thesis
    proof cases
      case inside
      with left(1) show ?thesis by (auto simp: sublist_def)
    next
      case across
      then have "c \<in> set w" by (cases vs) auto
      with assms(1) show ?thesis by simp
    qed
  next
    case right
    show ?thesis
    proof (cases us)
      case Nil
      with right(2) assms(1) have "w = []" by (cases w) auto
      then show ?thesis by simp
    next
      case (Cons u us')
      with right(2) have "b = us' @ w @ ss" by simp
      then show ?thesis by (auto simp: sublist_def)
    qed
  qed
qed

lemma plain_directives_without_weight:
  assumes "\<not> sublist ''--cw'' acc"
    and "\<forall>n\<in>set names. truthy (refs n) \<longrightarrow> \<not> sublist ''--cw'' (the (refs n))"
  shows "\<not> sublist ''--cw'' (acc @ plain_directives refs names)"
  using assms
proof (induction names arbitrary: acc)
  case Nil
  then show ?case by (simp add: plain_directives_def)
next
  case (Cons n names)
  show ?case
  proof (cases "truthy (refs n)")
    case False
    with Cons show ?thesis by (simp add: plain_directives_def)
  next
    case True
    have "\<not> sublist ''--cw'' ''--cref''"
      by (simp add: sublist_Cons_right)
    then have "\<not> sublist ''--cw'' (acc @ CHR '' '' # ''--cref'')"
      using sublist_across_separator[of "CHR '' ''" "''--cw''" acc "''--cref''"] Cons.prems(1)
      by auto
    moreover have "\<not> sublist ''--cw'' (the (refs n))"
      using Cons.prems(2) True by simp
    ultimately have "\<not> sublist ''--cw'' ((acc @ CHR '' '' # ''--cref'') @ CHR '' '' # the (refs n))"
      using sublist_across_separator
              [of "CHR '' ''" "''--cw''" "acc @ CHR '' '' # ''--cref''" "the (refs n)"]
      by auto
    then have "\<not> sublist ''--cw'' (acc @ '' --cref '' @ the (refs n))"
      by simp
    from Cons.IH[OF this] Cons.prems(2) True show ?thesis
      by (simp add: plain_directives_def)
  qed
qed

subsection \<open>Scene prompt composition\<close>

text \<open>
  C7, for \<open>buildScenePrompt\<close> of \<open>exampleScript.ts\<close>: for every scene, script and reference
  map, the prompt is the specification's tokens in their order, joined with a comma and
  a blank, followed by the reference directives. The tokens are the quality boilerplate,
  the character clauses (\<open><name> (<description>, <stylePrompt>)\<close> for a name found in
  the script, the bare name for one that is not), the action, \<open>in <setting>\<close>, the mood,
  the camera angle if present, the art style, the lighting directive and the format
  directives. No token is empty: an empty or absent field is left out. The function is
  total: an unknown name raises nothing.
\<close>

theorem scene_prompt_composition:
  "buildScenePrompt refs scene script =
     join '', '' (spec_tokens scene script)
     @ reference_directives refs (Scene.characters scene)
   \<and> [] \<notin> set (spec_tokens scene script)"
  by (simp add: buildScenePrompt_def scene_parts_spec add_character_references_enumerate
        reference_directives_def spec_tokens_def)

theorem scene_prompt_composition_witness:
  "buildScenePrompt Map.empty scene_two sample_script =
     ''masterpiece, best quality, Eve and Bob (short, scarf), Bob waits, in a cafe, tense, ink, detailed lighting, perfect composition, --ar 16:9 --v 6 --style raw''
   \<and> [] \<notin> set (spec_tokens scene_two sample_script)"
  using scene_prompt_composition [of Map.empty scene_two sample_script]
  by (simp add: spec_tokens_def spec_clause_def reference_directives_def spec_directive_def
        sample_defs)

text \<open>
  The scene prompt of the first generator in \<open>anime.ts\<close> is not composed that way. For
  the scene below, which has the number 1, no camera angle and the unknown name \<open>Eve\<close> in
  its list, it has an empty token between two commas, the setting without \<open>in\<close>, and the
  clause \<open>Bob short\<close>.
\<close>

theorem anime_scene_prompt_empty_token:
  "anime_buildScenePrompt (stub_env plain_stub) (scene_two\<lparr>sceneNumber := 1\<rparr>)
     sample_script [] =
     Inr ''Bob waits, a cafe, tense, Eve, Bob short, , ink, highly detailed, professional lighting --ar 16:9 --v 6 --style raw''
   \<and> anime_buildScenePrompt (stub_env plain_stub) (scene_two\<lparr>sceneNumber := 1\<rparr>)
       sample_script []
       \<noteq> Inr (join '', '' (spec_tokens (scene_two\<lparr>sceneNumber := 1\<rparr>) sample_script))"
  by (simp add: anime_buildScenePrompt_def anime_outputDir_def spec_tokens_def spec_clause_def
        sample_defs stub_defs)

subsection \<open>What the prompt builders depend on\<close>

text \<open>
  \<open>buildCharacterPrompt\<close> and \<open>buildScenePrompt\<close> of \<open>exampleScript.ts\<close> and
  \<open>buildCharacterPrompt\<close> of \<open>anime.ts\<close> take the entity, the script and the reference map
  and nothing else. \<open>buildScenePrompt\<close> of the first generator in \<open>anime.ts\<close> returns its
  prompt for a scene whose number is at most 1; for every later scene the call of
  \<open>fs.existsSync\<close> throws, whatever the file system holds, and no prompt is returned.
\<close>

lemma anime_scene_prompt_of_first_scene:
  "sceneNumber scene \<le> 1 \<Longrightarrow> ok (anime_buildScenePrompt env scene script characterRefs)"
  by (simp add: anime_buildScenePrompt_def Let_def ok_def)

lemma anime_scene_prompt_after_first_scene:
  "sceneNumber scene > 1 \<Longrightarrow>
     anime_buildScenePrompt env scene script characterRefs
       = Inl (Error ''TypeError: fs.existsSync is not a function'')"
  by (simp add: anime_buildScenePrompt_def Let_def call_member_def fs_existsSync_def)

text \<open>
  C8, on \<open>buildScenePrompt\<close> of the first generator in \<open>anime.ts\<close>. For the second scene of
  the sample script, with no character references, the builder returns no prompt
  string: it throws the \<open>TypeError\<close> of the call \<open>fs.existsSync(firstSceneRef)\<close>.
\<close>

theorem anime_scene_prompt_throws:
  "anime_buildScenePrompt (stub_env plain_stub) scene_two sample_script []
     = Inl (Error ''TypeError: fs.existsSync is not a function'')"
  by (simp add: anime_buildScenePrompt_def Let_def call_member_def fs_existsSync_def
        sample_defs)

subsection \<open>The weight directive\<close>

text \<open>
  C9, for \<open>buildScenePrompt\<close> of \<open>exampleScript.ts\<close>, on a scene whose character list is
  \<open>first # rest\<close>. If the first-listed name has a resolved handle, the prompt is the base
  prompt, then \<open>--cref\<close> with that handle and \<open>--cw 1\<close>, then the plain \<open>--cref\<close>
  directives of the later names that are resolved. If the first-listed name is not
  resolved, the prompt is the base prompt and the plain \<open>--cref\<close> directives of the later
  resolved names: no weight directive is appended, and when neither the base prompt nor a
  handle contains \<open>--cw\<close>, the prompt does not contain it anywhere.
\<close>

theorem weight_only_on_first_listed:
  assumes "Scene.characters scene = first # rest"
  shows "(truthy (refs first) \<longrightarrow>
            buildScenePrompt refs scene script =
              join '', '' (filter_Boolean (scene_parts scene script))
              @ '' --cref '' @ the (refs first) @ '' --cw 1'' @ plain_directives refs rest)
       \<and> (\<not> truthy (refs first) \<longrightarrow>
            buildScenePrompt refs scene script =
              join '', '' (filter_Boolean (scene_parts scene script))
              @ plain_directives refs rest
            \<and> (\<not> sublist ''--cw'' (join '', '' (filter_Boolean (scene_parts scene script)))
               \<and> (\<forall>n\<in>set rest. truthy (refs n) \<longrightarrow> \<not> sublist ''--cw'' (the (refs n)))
               \<longrightarrow> \<not> sublist ''--cw'' (buildScenePrompt refs scene script)))"
  using assms
  by (simp add: buildScenePrompt_def Let_def add_character_references_later
        plain_directives_without_weight)

theorem weight_only_on_first_listed_witness:
  "\<not> truthy ([''Bob'' \<mapsto> ''https://cdn.test/b.png''] ''Eve'')
   \<and> buildScenePrompt [''Bob'' \<mapsto> ''https://cdn.test/b.png''] scene_two sample_script =
       ''masterpiece, best quality, Eve and Bob (short, scarf), Bob waits, in a cafe, tense, ink, detailed lighting, perfect composition, --ar 16:9 --v 6 --style raw --cref https://cdn.test/b.png''
   \<and> \<not> sublist ''--cw''
         (buildScenePrompt [''Bob'' \<mapsto> ''https://cdn.test/b.png''] scene_two sample_script)
   \<and> buildScenePrompt [''Ann'' \<mapsto> ''https://cdn.test/a.png'', ''Bob'' \<mapsto> ''https://cdn.test/b.png'']
        scene_one sample_script =
       ''masterpiece, best quality, Ann (tall, red hat) and Bob (short, scarf), Ann waves, in a park, calm, wide shot, ink, detailed lighting, perfect composition, --ar 16:9 --v 6 --style raw --cref https://cdn.test/a.png --cw 1 --cref https://cdn.test/b.png''"
  using weight_only_on_first_listed
          [of scene_two "''Eve''" "[''Bob'']" "[''Bob'' \<mapsto> ''https://cdn.test/b.png'']"
              sample_script]
        weight_only_on_first_listed
          [of scene_one "''Ann''" "[''Bob'']"
              "[''Ann'' \<mapsto> ''https://cdn.test/a.png'', ''Bob'' \<mapsto> ''https://cdn.test/b.png'']"
              sample_script]
  by (simp add: plain_directives_def filter_Boolean_def scene_parts_def characterDetails_def
        sample_defs sublist_Cons_right)

section \<open>Properties of the generator of \<open>exampleScript.ts\<close>\<close>

subsection \<open>Backend calls of the two loops\<close>

lemma attempts_append [simp]: "attempts (a @ b) = attempts a @ attempts b"
  by (simp add: attempts_def)

lemma attempts_Cons [simp]: "attempts (e # es) = attempt e @ attempts es"
  by (simp add: attempts_def)

lemma attempts_Nil [simp]: "attempts [] = []"
  by (simp add: attempts_def)

lemma downloadImage_attempts [simp]: "attempts (fst (downloadImage env u p w)) = []"
  by (simp add: downloadImage_def split: prod.splits sum.splits)

lemma download_variations_attempts [simp]:
  "attempts (fst (download_variations env dir i vs w)) = []"
  by (induction vs arbitrary: i w) (simp_all add: case_prod_beta)

lemma generateAndSelectVariation_attempts:
  "attempts (fst (snd (generateAndSelectVariation env p n ty w))) = [(ty, n)]"
  by (simp add: generateAndSelectVariation_def Let_def case_prod_beta
        split: sum.splits option.splits list.splits)

lemma character_references_loop_attempts:
  "attempts (fst (snd (character_references_loop env cs refs w))) =
     map (\<lambda>c. (character_asset, ''character_'' @ toLowerCase (Character.name c))) cs"
  by (induction cs arbitrary: refs w)
     (simp_all add: case_prod_beta Let_def generateAndSelectVariation_attempts)

lemma scenes_loop_attempts:
  "attempts (fst (scenes_loop env script refs ss w)) =
     map (\<lambda>s. (scene_asset, scene_outputName s)) ss"
  by (induction ss arbitrary: w)
     (simp_all add: case_prod_beta Let_def generateAndSelectVariation_attempts)

subsection \<open>The downloads of one item\<close>

lemma downloadImage_persist: "downloadImage env u p w = persist env (u, p) w"
  by (simp add: downloadImage_def persist_def ok_def split: prod.splits sum.splits)

lemma persist_all_append:
  "persist_all env (a @ b) w =
     (fst (persist_all env a w) @ fst (persist_all env b (snd (persist_all env a w))),
      snd (persist_all env b (snd (persist_all env a w))))"
  by (induction a arbitrary: w) (simp_all add: case_prod_beta)

lemma download_variations_persist:
  "download_variations env dir i vs w =
     persist_all env
       (map (\<lambda>(j, v). (Variation.uri v, variation_path env dir j)) (enumerate i vs)) w"
  by (induction vs arbitrary: i w)
     (simp_all add: case_prod_beta downloadImage_persist variation_path_def)

subsection \<open>Variation selection\<close>

text \<open>
  C5 as stated fails for a variation whose write fails. With a file system that refuses
  \<open>variation_2.png\<close> of the character \<open>Ann\<close>, the backend returns a result with two
  variations and the generation succeeds with that result, but the files written are
  the first variation, the canonical image and the metadata: the second variation is
  not persisted.
\<close>

theorem variation_not_persisted:
  "map Variation.uri (the (options (two_variations ''m'')))
     = [''https://cdn.test/m-1.png'', ''https://cdn.test/m-2.png'']
   \<and> fst (generateAndSelectVariation (stub_env variation_refused_stub)
           (buildCharacterPrompt Ann) ''character_ann'' character_asset [])
       = Some ((two_variations ''m'')\<lparr>MJResponse.uri := Some ''https://cdn.test/m-1.png''\<rparr>)
   \<and> map fst (snd (snd (generateAndSelectVariation (stub_env variation_refused_stub)
                           (buildCharacterPrompt Ann) ''character_ann'' character_asset [])))
       = [''anime_output/characters/variations/character_ann/variation_1.png'',
          ''anime_output/characters/character_ann.png'',
          ''anime_output/characters/character_ann_metadata.json'']"
  by code_simp

text \<open>
  C5, amended. Let \<open>Imagine\<close> return a result whose variation list is \<open>v0 # vs\<close>, and let the
  variations directory of the item be created. Then \<open>generateAndSelectVariation\<close> does
  what the specification's wording of the selection does, in the trace and in the world:
  it persists every variation, in the order of the list, to \<open>variation_<i+1>.png\<close> and
  after them \<open>v0\<close> to the canonical path, where a target whose download or write fails is
  reported and skipped, and then writes the metadata, which name \<open>v0\<close> as selected. When
  the metadata are written the result is the backend's with the \<open>uri\<close> of \<open>v0\<close>, otherwise
  \<open>null\<close>; and whenever there is a result, the reference that
  \<open>generateCharacterReferences\<close> records for the character is the \<open>uri\<close> of \<open>v0\<close> (none when
  it is the empty string). Nothing else of the variations is looked at.
\<close>

theorem variations_persisted_first_canonical:
  assumes "Imagine env p w = (Inr (Some imagine), w1)"
    and "options imagine = Some (v0 # vs)"
    and "mkdir env (path_join env [baseOutputDir, type_variations_dir ty, outputName]) w1
           = (Inr x, w2)"
  shows "generateAndSelectVariation env p outputName ty w =
           (let (evs, w3) = persist_all env (persist_targets env ty outputName (v0 # vs)) w2;
                metadataPath =
                  path_join env [baseOutputDir, type_dir ty, outputName @ ''_metadata.json''];
                metadata =
                  MetadataJson (selection_metadata env ty outputName p imagine (v0 # vs));
                (written, w4) = writeFile env metadataPath metadata w3
            in (if ok written
                then Some (imagine\<lparr>MJResponse.uri := Some (Variation.uri v0)\<rparr>)
                else None,
                [Call_Imagine ty outputName p (Inr (Some imagine)),
                 Call_mkdir (path_join env [baseOutputDir, type_variations_dir ty, outputName])
                   True]
                @ evs
                @ [Call_writeFile metadataPath metadata (ok written)]
                @ (if ok written then []
                   else [Console_error (''Error generating '' @ outputName @ '':'')]),
                w4))
       \<and> record_reference c (fst (generateAndSelectVariation env p outputName ty w)) refs =
           (case fst (generateAndSelectVariation env p outputName ty w) of
              None \<Rightarrow> refs
            | Some r \<Rightarrow>
                if Variation.uri v0 = [] then refs
                else refs(Character.name c \<mapsto> Variation.uri v0))"
  using assms
  by (simp add: generateAndSelectVariation_def Let_def case_prod_beta
        downloadImage_persist download_variations_persist persist_targets_def
        persist_all_append selection_metadata_def ok_def record_reference_def
        del: download_variations.simps split: sum.splits)

theorem variations_persisted_first_canonical_witness:
  "generateAndSelectVariation (stub_env plain_stub) (buildCharacterPrompt Ann)
     ''character_ann'' character_asset []
   = (Some ((two_variations ''m'')\<lparr>MJResponse.uri := Some ''https://cdn.test/m-1.png''\<rparr>),
      [Call_Imagine character_asset ''character_ann'' (buildCharacterPrompt Ann)
         (Inr (Some (two_variations ''m''))),
       Call_mkdir ''anime_output/characters/variations/character_ann'' True,
       Call_get ''https://cdn.test/m-1.png'' True,
       Call_writeFile ''anime_output/characters/variations/character_ann/variation_1.png''
         (ImageData ''bytes of https://cdn.test/m-1.png'') True,
       Call_get ''https://cdn.test/m-2.png'' True,
       Call_writeFile ''anime_output/characters/variations/character_ann/variation_2.png''
         (ImageData ''bytes of https://cdn.test/m-2.png'') True,
       Call_get ''https://cdn.test/m-1.png'' True,
       Call_writeFile ''anime_output/characters/character_ann.png''
         (ImageData ''bytes of https://cdn.test/m-1.png'') True,
       Call_writeFile ''anime_output/characters/character_ann_metadata.json''
         (MetadataJson
            \<lparr>Metadata.prompt = buildCharacterPrompt Ann, imagineId = Some ''m'',
             selectedVariation = ''m-1'',
             allVariations = [(''m-1'', ''https://cdn.test/m-1.png''),
                              (''m-2'', ''https://cdn.test/m-2.png'')],
             localPath = ''anime_output/characters/character_ann.png''\<rparr>) True],
      [(''anime_output/characters/variations/character_ann/variation_1.png'',
        ImageData ''bytes of https://cdn.test/m-1.png''),
       (''anime_output/characters/variations/character_ann/variation_2.png'',
        ImageData ''bytes of https://cdn.test/m-2.png''),
       (''anime_output/characters/character_ann.png'',
        ImageData ''bytes of https://cdn.test/m-1.png''),
       (''anime_output/characters/character_ann_metadata.json'',
        MetadataJson
          \<lparr>Metadata.prompt = buildCharacterPrompt Ann, imagineId = Some ''m'',
           selectedVariation = ''m-1'',
           allVariations = [(''m-1'', ''https://cdn.test/m-1.png''),
                            (''m-2'', ''https://cdn.test/m-2.png'')],
           localPath = ''anime_output/characters/character_ann.png''\<rparr>)])
   \<and> record_reference Ann
        (fst (generateAndSelectVariation (stub_env plain_stub) (buildCharacterPrompt Ann)
           ''character_ann'' character_asset [])) Map.empty ''Ann''
       = Some ''https://cdn.test/m-1.png''"
proof -
  have i: "Imagine (stub_env plain_stub) (buildCharacterPrompt Ann) []
           = (Inr (Some (two_variations ''m'')), [])"
    by (simp add: stub_defs)
  have o: "options (two_variations ''m'') =
             Some (\<lparr>Variation.id' = ''m-1'', Variation.hash = ''h1'',
                     Variation.uri = ''https://cdn.test/m-1.png''\<rparr>
                   # [\<lparr>Variation.id' = ''m-2'', Variation.hash = ''h2'',
                        Variation.uri = ''https://cdn.test/m-2.png''\<rparr>])"
    by (simp add: two_variations_def)
  have m: "mkdir (stub_env plain_stub)
             (path_join (stub_env plain_stub)
                [baseOutputDir, type_variations_dir character_asset, ''character_ann'']) []
           = (Inr (), [])"
    by simp
  show ?thesis
    using variations_persisted_first_canonical [OF i o m, of Ann Map.empty]
    by (simp add: stub_defs baseOutputDir_def type_dir_def type_variations_dir_def
          variation_path_def toString_def toString_nat.simps digit_def Ann_def
          persist_targets_def persist_def selection_metadata_def ok_def two_variations_def
          Let_def record_reference_def)
qed

subsection \<open>Write failures\<close>

lemma downloadImage_no_metadata [simp]:
  "Call_writeFile q (MetadataJson m) b \<notin> set (fst (downloadImage env u p w))"
  by (simp add: downloadImage_def split: prod.splits sum.splits)

lemma download_variations_no_metadata [simp]:
  "Call_writeFile q (MetadataJson m) b \<notin> set (fst (download_variations env dir i vs w))"
  by (induction vs arbitrary: i w) (simp_all add: case_prod_beta)






section \<open>Properties of the storyboard script of \<open>anime.ts\<close>\<close>

subsection \<open>The loops of \<open>main\<close>, case by case\<close>

text \<open>
  A property of the result of the character loop holds if it holds in each of the five
  ways an iteration can go: the list is empty; the character is in the ledger and is
  skipped; \<open>generateCharacter\<close> throws; \<open>saveProgress\<close> throws; the character is
  generated and saved and the loop goes on.
\<close>

lemma characters_loop_cases:
  assumes empty: "\<And>st w. P [] st w (Inr (), st, [], w)"
    and skip: "\<And>c cs progress refs files w res.
        StoryCharacter.name c \<in> set (completedCharacters progress) \<Longrightarrow>
        res = characters_loop env cs (progress, refs, files) w \<Longrightarrow>
        P cs (progress, refs, files) w res \<Longrightarrow>
        P (c # cs) (progress, refs, files) w res"
    and thrown: "\<And>c cs progress refs files w e evs1 w1.
        StoryCharacter.name c \<notin> set (completedCharacters progress) \<Longrightarrow>
        generateCharacter env c w = (Inl e, evs1, w1) \<Longrightarrow>
        P (c # cs) (progress, refs, files) w (Inl e, (progress, refs, files), evs1, w1)"
    and unsaved: "\<And>c cs progress refs files w u filepath evs1 w1 e evs2 w2.
        StoryCharacter.name c \<notin> set (completedCharacters progress) \<Longrightarrow>
        generateCharacter env c w = (Inr (u, filepath), evs1, w1) \<Longrightarrow>
        saveProgress env
          (progress\<lparr>completedCharacters :=
             completedCharacters progress @ [StoryCharacter.name c]\<rparr>) w1
          = (Inl e, evs2, w2) \<Longrightarrow>
        P (c # cs) (progress, refs, files) w
          (Inl e,
           (progress\<lparr>completedCharacters :=
              completedCharacters progress @ [StoryCharacter.name c]\<rparr>,
            AList.update (StoryCharacter.name c) u refs,
            AList.update (StoryCharacter.name c) filepath files),
           evs1 @ evs2, w2)"
    and saved: "\<And>c cs progress refs files w u filepath evs1 w1 x evs2 w2 r st evs3 w3.
        StoryCharacter.name c \<notin> set (completedCharacters progress) \<Longrightarrow>
        generateCharacter env c w = (Inr (u, filepath), evs1, w1) \<Longrightarrow>
        saveProgress env
          (progress\<lparr>completedCharacters :=
             completedCharacters progress @ [StoryCharacter.name c]\<rparr>) w1
          = (Inr x, evs2, w2) \<Longrightarrow>
        characters_loop env cs
          (progress\<lparr>completedCharacters :=
             completedCharacters progress @ [StoryCharacter.name c]\<rparr>,
           AList.update (StoryCharacter.name c) u refs,
           AList.update (StoryCharacter.name c) filepath files) w2
          = (r, st, evs3, w3) \<Longrightarrow>
        P cs
          (progress\<lparr>completedCharacters :=
             completedCharacters progress @ [StoryCharacter.name c]\<rparr>,
           AList.update (StoryCharacter.name c) u refs,
           AList.update (StoryCharacter.name c) filepath files) w2 (r, st, evs3, w3) \<Longrightarrow>
        P (c # cs) (progress, refs, files) w (r, st, evs1 @ evs2 @ Delay 5000 # evs3, w3)"
  shows "P cs st w (characters_loop env cs st w)"
proof (induction cs arbitrary: st w)
  case Nil
  show ?case by (simp add: empty)
next
  case (Cons c cs)
  obtain progress refs files where st: "st = (progress, refs, files)"
    by (cases st) auto
  show ?case
  proof (cases "StoryCharacter.name c \<in> set (completedCharacters progress)")
    case True
    then show ?thesis
      using skip[OF True refl Cons.IH[of "(progress, refs, files)" w]] by (simp add: st)
  next
    case False
    obtain r1 evs1 w1 where g: "generateCharacter env c w = (r1, evs1, w1)"
      by (cases "generateCharacter env c w") auto
    show ?thesis
    proof (cases r1)
      case (Inl e)
      then show ?thesis using thrown[OF False, of w e evs1 w1 cs refs files] g False
        by (simp add: st)
    next
      case (Inr uf)
      obtain u filepath where uf: "uf = (u, filepath)" by (cases uf) auto
      let ?progress1 = "progress\<lparr>completedCharacters :=
                          completedCharacters progress @ [StoryCharacter.name c]\<rparr>"
      let ?st1 = "(?progress1, AList.update (StoryCharacter.name c) u refs,
                   AList.update (StoryCharacter.name c) filepath files)"
      obtain r2 evs2 w2 where sv: "saveProgress env ?progress1 w1 = (r2, evs2, w2)"
        by (cases "saveProgress env ?progress1 w1") auto
      show ?thesis
      proof (cases r2)
        case (Inl e)
        then show ?thesis
          using unsaved[OF False, of w u filepath evs1 w1 e evs2 w2 cs refs files] g Inr uf sv
            False
          by (simp add: st)
      next
        case r2: (Inr x)
        obtain r st' evs3 w3 where rest: "characters_loop env cs ?st1 w2 = (r, st', evs3, w3)"
          by (cases "characters_loop env cs ?st1 w2") auto
        have "P cs ?st1 w2 (r, st', evs3, w3)"
          using Cons.IH[of ?st1 w2] rest by simp
        then show ?thesis
          using saved[OF False, of w u filepath evs1 w1 x evs2 w2 cs refs files r st' evs3 w3]
            g Inr uf sv r2 rest False
          by (simp add: st)
      qed
    qed
  qed
qed

lemma story_scenes_loop_cases:
  assumes empty: "\<And>st w. P [] st w (Inr (), st, [], w)"
    and skip: "\<And>s ss progress refs files w res.
        StoryScene.title s \<in> set (completedScenes progress) \<Longrightarrow>
        res = story_scenes_loop env ss (progress, refs, files) w \<Longrightarrow>
        P ss (progress, refs, files) w res \<Longrightarrow>
        P (s # ss) (progress, refs, files) w res"
    and thrown: "\<And>s ss progress refs files w e evs1 w1.
        StoryScene.title s \<notin> set (completedScenes progress) \<Longrightarrow>
        generateScene env s refs w = (Inl e, evs1, w1) \<Longrightarrow>
        P (s # ss) (progress, refs, files) w (Inl e, (progress, refs, files), evs1, w1)"
    and unsaved: "\<And>s ss progress refs files w filepath evs1 w1 e evs2 w2.
        StoryScene.title s \<notin> set (completedScenes progress) \<Longrightarrow>
        generateScene env s refs w = (Inr filepath, evs1, w1) \<Longrightarrow>
        saveProgress env
          (progress\<lparr>completedScenes :=
             completedScenes progress @ [StoryScene.title s]\<rparr>) w1
          = (Inl e, evs2, w2) \<Longrightarrow>
        P (s # ss) (progress, refs, files) w
          (Inl e,
           (progress\<lparr>completedScenes :=
              completedScenes progress @ [StoryScene.title s]\<rparr>,
            refs, files),
           evs1 @ evs2, w2)"
    and saved: "\<And>s ss progress refs files w filepath evs1 w1 x evs2 w2 r st evs3 w3.
        StoryScene.title s \<notin> set (completedScenes progress) \<Longrightarrow>
        generateScene env s refs w = (Inr filepath, evs1, w1) \<Longrightarrow>
        saveProgress env
          (progress\<lparr>completedScenes :=
             completedScenes progress @ [StoryScene.title s]\<rparr>) w1
          = (Inr x, evs2, w2) \<Longrightarrow>
        story_scenes_loop env ss
          (progress\<lparr>completedScenes :=
             completedScenes progress @ [StoryScene.title s]\<rparr>,
           refs, files) w2
          = (r, st, evs3, w3) \<Longrightarrow>
        P ss
          (progress\<lparr>completedScenes :=
             completedScenes progress @ [StoryScene.title s]\<rparr>,
           refs, files) w2 (r, st, evs3, w3) \<Longrightarrow>
        P (s # ss) (progress, refs, files) w (r, st, evs1 @ evs2 @ Delay 5000 # evs3, w3)"
  shows "P ss st w (story_scenes_loop env ss st w)"
proof (induction ss arbitrary: st w)
  case Nil
  show ?case by (simp add: empty)
next
  case (Cons s ss)
  obtain progress refs files where st: "st = (progress, refs, files)"
    by (cases st) auto
  show ?case
  proof (cases "StoryScene.title s \<in> set (completedScenes progress)")
    case True
    then show ?thesis
      using skip[OF True refl Cons.IH[of "(progress, refs, files)" w]] by (simp add: st)
  next
    case False
    obtain r1 evs1 w1 where g: "generateScene env s refs w = (r1, evs1, w1)"
      by (cases "generateScene env s refs w") auto
    show ?thesis
    proof (cases r1)
      case (Inl e)
      then show ?thesis using thrown[OF False, of refs w e evs1 w1 ss files] g False
        by (simp add: st)
    next
      case (Inr filepath)
      let ?progress1 = "progress\<lparr>completedScenes :=
                          completedScenes progress @ [StoryScene.title s]\<rparr>"
      let ?st1 = "(?progress1, refs, files)"
      obtain r2 evs2 w2 where sv: "saveProgress env ?progress1 w1 = (r2, evs2, w2)"
        by (cases "saveProgress env ?progress1 w1") auto
      show ?thesis
      proof (cases r2)
        case (Inl e)
        then show ?thesis
          using unsaved[OF False, of refs w filepath evs1 w1 e evs2 w2 ss files] g Inr sv
            False
          by (simp add: st)
      next
        case r2: (Inr x)
        obtain r st' evs3 w3 where rest: "story_scenes_loop env ss ?st1 w2 = (r, st', evs3, w3)"
          by (cases "story_scenes_loop env ss ?st1 w2") auto
        have "P ss ?st1 w2 (r, st', evs3, w3)"
          using Cons.IH[of ?st1 w2] rest by simp
        then show ?thesis
          using saved[OF False, of refs w filepath evs1 w1 x evs2 w2 ss files r st' evs3 w3]
            g Inr sv r2 rest False
          by (simp add: st)
      qed
    qed
  qed
qed

subsection \<open>What one item leaves in the trace\<close>

lemma submissions_append [simp]: "submissions (a @ b) = submissions a @ submissions b"
  by (simp add: submissions_def)

lemma submissions_Cons [simp]: "submissions (e # es) = submission e @ submissions es"
  by (simp add: submissions_def)

lemma submissions_Nil [simp]: "submissions [] = []"
  by (simp add: submissions_def)

lemma scene_calls_append [simp]: "scene_calls (a @ b) = scene_calls a @ scene_calls b"
  by (simp add: scene_calls_def)

lemma scene_calls_Cons [simp]: "scene_calls (e # es) = scene_call e @ scene_calls es"
  by (simp add: scene_calls_def)

lemma scene_calls_Nil [simp]: "scene_calls [] = []"
  by (simp add: scene_calls_def)

lemma imagine_upscale_download_cases:
  assumes run: "imagine_upscale_download env ty ident p path w = (r, evs, w1)"
  obtains
    (imagine_thrown) e where "Imagine env p w = (Inl e, w1)" "r = Inl e"
      "evs = [Call_Imagine ty ident p (Inl e)]"
  | (imagine_null) e where "Imagine env p w = (Inr None, w1)" "r = Inl e"
      "evs = [Call_Imagine ty ident p (Inr None)]"
  | (upscale_failed) result args up e where "fst (Imagine env p w) = Inr (Some result)"
      "r = Inl e"
      "evs = [Call_Imagine ty ident p (Inr (Some result)), Call_Upscale ty ident args up]"
      "\<forall>m u. up = Inr (Some m) \<longrightarrow> MJResponse.uri m \<noteq> Some u \<or> u = []"
  | (download_thrown) result args m u e where "fst (Imagine env p w) = Inr (Some result)"
      "r = Inl e" "MJResponse.uri m = Some u"
      "evs = [Call_Imagine ty ident p (Inr (Some result)),
              Call_Upscale ty ident args (Inr (Some m)), Call_get u False]"
  | (write_thrown) result args m u body e where "fst (Imagine env p w) = Inr (Some result)"
      "r = Inl e" "MJResponse.uri m = Some u"
      "evs = [Call_Imagine ty ident p (Inr (Some result)),
              Call_Upscale ty ident args (Inr (Some m)), Call_get u True,
              Call_writeFile path (ImageData body) False]"
  | (completed) result args m u body where "fst (Imagine env p w) = Inr (Some result)"
      "r = Inr u" "MJResponse.uri m = Some u" "u \<noteq> []"
      "evs = [Call_Imagine ty ident p (Inr (Some result)),
              Call_Upscale ty ident args (Inr (Some m)), Call_get u True,
              Call_writeFile path (ImageData body) True]"
proof -
  obtain ri wi where i: "Imagine env p w = (ri, wi)"
    by (cases "Imagine env p w") auto
  show thesis
  proof (cases ri)
    case (Inl e)
    with run i show thesis
      by (intro imagine_thrown[of e]) (auto simp: imagine_upscale_download_def Let_def)
  next
    case (Inr answer)
    show thesis
    proof (cases answer)
      case None
      with run i Inr show thesis
        by (intro imagine_null) (auto simp: imagine_upscale_download_def Let_def)
    next
      case (Some result)
      define args where "args = \<lparr>index = 1, msgId = MJResponse.id' result,
        hash = MJResponse.hash result, flags = MJResponse.flags result\<rparr>"
      obtain ru wu where u: "Upscale env args wi = (ru, wu)"
        by (cases "Upscale env args wi") auto
      note defs = imagine_upscale_download_def anime_downloadImage_def Let_def ok_def
      note known = run i Inr Some u[unfolded args_def]
      show thesis
      proof (cases ru)
        case (Inl e)
        with known show thesis
          by (intro upscale_failed[of result e args ru]) (auto simp: defs args_def)
      next
        case ru: (Inr up)
        show thesis
        proof (cases "truthy (case up of None \<Rightarrow> None | Some m \<Rightarrow> MJResponse.uri m)")
          case False
          with known ru show thesis
            by (intro upscale_failed[of result _ args ru])
               (auto simp: defs args_def split: option.splits)
        next
          case True
          then obtain m uu where m: "up = Some m" "MJResponse.uri m = Some uu" "uu \<noteq> []"
            by (cases up) (auto split: option.splits elim: truthy.elims)
          obtain rg wg where g: "http_get env uu wu = (rg, wg)"
            by (cases "http_get env uu wu") auto
          show thesis
          proof (cases rg)
            case (Inl e)
            with known ru m g show thesis
              by (intro download_thrown[of result e m uu args]) (auto simp: defs args_def)
          next
            case rg: (Inr body)
            obtain rw ww where wr: "writeFile env path (ImageData body) wg = (rw, ww)"
              by (cases "writeFile env path (ImageData body) wg") auto
            show thesis
            proof (cases rw)
              case (Inl e)
              with known ru m g rg wr show thesis
                by (intro write_thrown[of result e m uu args body])
                   (auto simp: defs args_def)
            next
              case rw: (Inr x)
              with known ru m g rg wr show thesis
                by (intro completed[of result uu m args body])
                   (auto simp: defs args_def)
            qed
          qed
        qed
      qed
    qed
  qed
qed

lemma imagine_upscale_download_shape:
  assumes "imagine_upscale_download env ty ident p path w = (r, evs, w1)"
  shows "set (submissions evs) \<subseteq> {(ty, ident)}"
    and "\<forall>e\<in>set evs. \<not> is_ledger_write e \<and> \<not> is_metadata_write e"
    and "scene_calls evs = (if ty = scene_asset then [(ident, p)] else [])"
    and "\<And>u. r = Inr u \<Longrightarrow>
           (\<exists>evs0 body. evs = evs0 @ [Call_writeFile path (ImageData body) True])
           \<and> (\<exists>args m. Call_Upscale ty ident args (Inr (Some m)) \<in> set evs
                \<and> MJResponse.uri m = Some u)"
proof -
  show "set (submissions evs) \<subseteq> {(ty, ident)}"
    using assms by (cases rule: imagine_upscale_download_cases) auto
  show "\<forall>e\<in>set evs. \<not> is_ledger_write e \<and> \<not> is_metadata_write e"
    using assms by (cases rule: imagine_upscale_download_cases) auto
  show "scene_calls evs = (if ty = scene_asset then [(ident, p)] else [])"
    using assms by (cases rule: imagine_upscale_download_cases; cases ty) auto
  show "\<And>u. r = Inr u \<Longrightarrow>
           (\<exists>evs0 body. evs = evs0 @ [Call_writeFile path (ImageData body) True])
           \<and> (\<exists>args m. Call_Upscale ty ident args (Inr (Some m)) \<in> set evs
                \<and> MJResponse.uri m = Some u)"
    using assms by (cases rule: imagine_upscale_download_cases) auto
qed

lemma generateCharacter_shape:
  assumes "generateCharacter env c w = (r, evs, w1)"
  shows "set (submissions evs) \<subseteq> {(character_asset, StoryCharacter.name c)}"
    and "\<forall>e\<in>set evs. \<not> is_ledger_write e \<and> \<not> is_metadata_write e"
    and "scene_calls evs = []"
    and "\<And>u filepath. r = Inr (u, filepath) \<Longrightarrow>
           filepath = character_filepath env (StoryCharacter.name c)
           \<and> (\<exists>evs0 body. evs = evs0 @ [Call_writeFile filepath (ImageData body) True])
           \<and> (\<exists>args m. Call_Upscale character_asset (StoryCharacter.name c) args
                          (Inr (Some m)) \<in> set evs
                \<and> MJResponse.uri m = Some u)"
proof -
  obtain r0 where i: "imagine_upscale_download env character_asset (StoryCharacter.name c)
      (StoryCharacter.prompt c) (character_filepath env (StoryCharacter.name c)) w
      = (r0, evs, w1)"
    and r: "r = (case r0 of Inl e \<Rightarrow> Inl e
                 | Inr u \<Rightarrow> Inr (u, character_filepath env (StoryCharacter.name c)))"
    using assms by (auto simp: generateCharacter_def Let_def split: prod.splits sum.splits)
  show "set (submissions evs) \<subseteq> {(character_asset, StoryCharacter.name c)}"
    and "\<forall>e\<in>set evs. \<not> is_ledger_write e \<and> \<not> is_metadata_write e"
    and "scene_calls evs = []"
    using imagine_upscale_download_shape(1-3)[OF i] by simp_all
  show "\<And>u filepath. r = Inr (u, filepath) \<Longrightarrow>
           filepath = character_filepath env (StoryCharacter.name c)
           \<and> (\<exists>evs0 body. evs = evs0 @ [Call_writeFile filepath (ImageData body) True])
           \<and> (\<exists>args m. Call_Upscale character_asset (StoryCharacter.name c) args
                          (Inr (Some m)) \<in> set evs
                \<and> MJResponse.uri m = Some u)"
    using imagine_upscale_download_shape(4)[OF i] r by (auto split: sum.splits)
qed

lemma generateScene_shape:
  assumes "generateScene env s refs w = (r, evs, w1)"
  shows "set (submissions evs) \<subseteq> {(scene_asset, StoryScene.title s)}"
    and "\<forall>e\<in>set evs. \<not> is_ledger_write e \<and> \<not> is_metadata_write e"
    and "scene_calls evs = [(StoryScene.title s, scene_prompt s refs)]"
    and "\<And>filepath. r = Inr filepath \<Longrightarrow>
           filepath = scene_filepath env (StoryScene.title s)
           \<and> (\<exists>evs0 body. evs = evs0 @ [Call_writeFile filepath (ImageData body) True])"
proof -
  obtain r0 where i: "imagine_upscale_download env scene_asset (StoryScene.title s)
      (scene_prompt s refs) (scene_filepath env (StoryScene.title s)) w = (r0, evs, w1)"
    and r: "r = (case r0 of Inl e \<Rightarrow> Inl e
                 | Inr u \<Rightarrow> Inr (scene_filepath env (StoryScene.title s)))"
    using assms by (auto simp: generateScene_def Let_def split: prod.splits sum.splits)
  show "set (submissions evs) \<subseteq> {(scene_asset, StoryScene.title s)}"
    and "\<forall>e\<in>set evs. \<not> is_ledger_write e \<and> \<not> is_metadata_write e"
    and "scene_calls evs = [(StoryScene.title s, scene_prompt s refs)]"
    using imagine_upscale_download_shape(1-3)[OF i] by simp_all
  show "\<And>filepath. r = Inr filepath \<Longrightarrow>
           filepath = scene_filepath env (StoryScene.title s)
           \<and> (\<exists>evs0 body. evs = evs0 @ [Call_writeFile filepath (ImageData body) True])"
    using imagine_upscale_download_shape(4)[OF i] r by (auto split: sum.splits)
qed

lemma saveProgress_shape:
  assumes "saveProgress env progress w = (r, evs, w1)"
  shows "evs = [Call_writeFile (progress_path env) (ProgressJson progress) (ok r)]"
  using assms by (auto simp: saveProgress_def split: prod.splits)

subsection \<open>Which items are submitted\<close>

lemma characters_loop_submissions:
  "set (submissions (fst (snd (snd (characters_loop env cs st w)))))
     \<subseteq> {(character_asset, StoryCharacter.name c) | c.
          c \<in> set cs \<and> StoryCharacter.name c \<notin> set (completedCharacters (fst st))}"
proof (rule characters_loop_cases
    [where P = "\<lambda>cs st w res. set (submissions (fst (snd (snd res))))
       \<subseteq> {(character_asset, StoryCharacter.name c) | c.
            c \<in> set cs \<and> StoryCharacter.name c \<notin> set (completedCharacters (fst st))}"],
    goal_cases)
  case (1 st w)
  then show ?case by simp
next
  case (2 c cs progress refs files w res)
  then show ?case by auto
next
  case (3 c cs progress refs files w e evs1 w1)
  then show ?case using generateCharacter_shape(1)[OF 3(2)] by auto
next
  case (4 c cs progress refs files w u filepath evs1 w1 e evs2 w2)
  then show ?case
    using generateCharacter_shape(1)[OF 4(2)] saveProgress_shape[OF 4(3)] by auto
next
  case (5 c cs progress refs files w u filepath evs1 w1 x evs2 w2 r st evs3 w3)
  then show ?case
    using generateCharacter_shape(1)[OF 5(2)] saveProgress_shape[OF 5(3)] by auto
qed

lemma story_scenes_loop_submissions:
  "set (submissions (fst (snd (snd (story_scenes_loop env ss st w)))))
     \<subseteq> {(scene_asset, StoryScene.title s) | s.
          s \<in> set ss \<and> StoryScene.title s \<notin> set (completedScenes (fst st))}"
proof (rule story_scenes_loop_cases
    [where P = "\<lambda>ss st w res. set (submissions (fst (snd (snd res))))
       \<subseteq> {(scene_asset, StoryScene.title s) | s.
            s \<in> set ss \<and> StoryScene.title s \<notin> set (completedScenes (fst st))}"],
    goal_cases)
  case (1 st w)
  then show ?case by simp
next
  case (2 s ss progress refs files w res)
  then show ?case by auto
next
  case (3 s ss progress refs files w e evs1 w1)
  then show ?case using generateScene_shape(1)[OF 3(2)] by auto
next
  case (4 s ss progress refs files w filepath evs1 w1 e evs2 w2)
  then show ?case
    using generateScene_shape(1)[OF 4(2)] saveProgress_shape[OF 4(3)] by auto
next
  case (5 s ss progress refs files w filepath evs1 w1 x evs2 w2 r st evs3 w3)
  then show ?case
    using generateScene_shape(1)[OF 5(2)] saveProgress_shape[OF 5(3)] by auto
qed

subsection \<open>What the loops do to the state\<close>

lemma characters_loop_scenes_ledger:
  "completedScenes (fst (fst (snd (characters_loop env cs st w)))) = completedScenes (fst st)"
  by (rule characters_loop_cases
      [where P = "\<lambda>cs st w res. completedScenes (fst (fst (snd res))) = completedScenes (fst st)"])
     auto

lemma characters_loop_scene_calls:
  "scene_calls (fst (snd (snd (characters_loop env cs st w)))) = []"
proof (rule characters_loop_cases
    [where P = "\<lambda>cs st w res. scene_calls (fst (snd (snd res))) = []"], goal_cases)
  case (1 st w)
  then show ?case by simp
next
  case (2 c cs progress refs files w res)
  then show ?case by auto
next
  case (3 c cs progress refs files w e evs1 w1)
  then show ?case using generateCharacter_shape(3)[OF 3(2)] by auto
next
  case (4 c cs progress refs files w u filepath evs1 w1 e evs2 w2)
  then show ?case
    using generateCharacter_shape(3)[OF 4(2)] saveProgress_shape[OF 4(3)] by auto
next
  case (5 c cs progress refs files w u filepath evs1 w1 x evs2 w2 r st evs3 w3)
  then show ?case
    using generateCharacter_shape(3)[OF 5(2)] saveProgress_shape[OF 5(3)] by auto
qed

text \<open>A handle in \<open>characterRefs\<close> after the character loop was there before it, or is the
  \<open>uri\<close> of an upscale that this loop made for the character of that name.\<close>

lemma characters_loop_references:
  "map_of (fst (snd (fst (snd (characters_loop env cs st w))))) n = Some u \<longrightarrow>
     map_of (fst (snd st)) n = Some u
     \<or> (\<exists>args m. Call_Upscale character_asset n args (Inr (Some m))
                     \<in> set (fst (snd (snd (characters_loop env cs st w))))
          \<and> MJResponse.uri m = Some u)"
proof (rule characters_loop_cases
    [where P = "\<lambda>cs st w res. map_of (fst (snd (fst (snd res)))) n = Some u \<longrightarrow>
       map_of (fst (snd st)) n = Some u
       \<or> (\<exists>args m. Call_Upscale character_asset n args (Inr (Some m))
                       \<in> set (fst (snd (snd res)))
            \<and> MJResponse.uri m = Some u)"], goal_cases)
  case (1 st w)
  then show ?case by simp
next
  case (2 c cs progress refs files w res)
  then show ?case by auto
next
  case (3 c cs progress refs files w e evs1 w1)
  then show ?case by auto
next
  case (4 c cs progress refs files w u' filepath evs1 w1 e evs2 w2)
  then show ?case
    using generateCharacter_shape(4)[OF 4(2) refl]
    by (auto simp: update_conv' split: if_splits)
next
  case (5 c cs progress refs files w u' filepath evs1 w1 x evs2 w2 r st evs3 w3)
  then show ?case
    using generateCharacter_shape(4)[OF 5(2) refl]
    by (auto simp: update_conv' split: if_splits)
qed

lemma upscale_is_submission:
  "Call_Upscale ty ident args r \<in> set evs \<Longrightarrow> (ty, ident) \<in> set (submissions evs)"
  by (induction evs) auto

lemma characters_loop_unsubmitted:
  "(character_asset, n) \<notin> set (submissions (fst (snd (snd (characters_loop env cs st w)))))
   \<longrightarrow> map_of (fst (snd (fst (snd (characters_loop env cs st w))))) n
       = map_of (fst (snd st)) n"
proof (rule characters_loop_cases
    [where P = "\<lambda>cs st w res.
       (character_asset, n) \<notin> set (submissions (fst (snd (snd res)))) \<longrightarrow>
       map_of (fst (snd (fst (snd res)))) n = map_of (fst (snd st)) n"], goal_cases)
  case (1 st w)
  then show ?case by simp
next
  case (2 c cs progress refs files w res)
  then show ?case by auto
next
  case (3 c cs progress refs files w e evs1 w1)
  then show ?case by auto
next
  case (4 c cs progress refs files w u filepath evs1 w1 e evs2 w2)
  then show ?case
    using generateCharacter_shape(4)[OF 4(2) refl]
    by (auto simp: update_conv' dest: upscale_is_submission)
next
  case (5 c cs progress refs files w u filepath evs1 w1 x evs2 w2 r st evs3 w3)
  then show ?case
    using generateCharacter_shape(4)[OF 5(2) refl]
    by (auto simp: update_conv' dest: upscale_is_submission)
qed

lemma story_scenes_loop_state:
  "snd (fst (snd (story_scenes_loop env ss st w))) = snd st
   \<and> completedCharacters (fst (fst (snd (story_scenes_loop env ss st w))))
       = completedCharacters (fst st)"
  by (rule story_scenes_loop_cases
      [where P = "\<lambda>ss st w res. snd (fst (snd res)) = snd st
         \<and> completedCharacters (fst (fst (snd res))) = completedCharacters (fst st)"])
     auto

text \<open>Every scene prompt that is submitted is the prompt of one of the scenes, applied to
  the \<open>characterRefs\<close> that the scene loop was entered with.\<close>

lemma story_scenes_loop_scene_calls:
  "set (scene_calls (fst (snd (snd (story_scenes_loop env ss st w)))))
     \<subseteq> {(StoryScene.title s, scene_prompt s (fst (snd st))) | s. s \<in> set ss}"
proof (rule story_scenes_loop_cases
    [where P = "\<lambda>ss st w res. set (scene_calls (fst (snd (snd res))))
       \<subseteq> {(StoryScene.title s, scene_prompt s (fst (snd st))) | s. s \<in> set ss}"],
    goal_cases)
  case (1 st w)
  then show ?case by simp
next
  case (2 s ss progress refs files w res)
  then show ?case by auto
next
  case (3 s ss progress refs files w e evs1 w1)
  then show ?case using generateScene_shape(3)[OF 3(2)] by auto
next
  case (4 s ss progress refs files w filepath evs1 w1 e evs2 w2)
  then show ?case
    using generateScene_shape(3)[OF 4(2)] saveProgress_shape[OF 4(3)] by auto
next
  case (5 s ss progress refs files w filepath evs1 w1 x evs2 w2 r st evs3 w3)
  then show ?case
    using generateScene_shape(3)[OF 5(2)] saveProgress_shape[OF 5(3)] by auto
qed

subsection \<open>A run of \<open>main\<close>, case by case\<close>

lemma quiet_trace:
  assumes "list_all quiet evs"
  shows "submissions evs = []" and "scene_calls evs = []"
    and "\<forall>e\<in>set evs. \<not> is_ledger_write e \<and> \<not> is_metadata_write e"
proof -
  have q: "\<And>e. quiet e \<Longrightarrow>
    submission e = [] \<and> scene_call e = [] \<and> \<not> is_ledger_write e \<and> \<not> is_metadata_write e"
    by (erule quiet.elims) auto
  show "submissions evs = []" using assms q by (induction evs) auto
  show "scene_calls evs = []" using assms q by (induction evs) auto
  show "\<forall>e\<in>set evs. \<not> is_ledger_write e \<and> \<not> is_metadata_write e"
    using assms q by (auto simp: list_all_iff)
qed

lemma mkdir_each_quiet: "list_all quiet (fst (snd (mkdir_each env dirs w)))"
  by (induction dirs arbitrary: w) (auto simp: case_prod_beta split: prod.splits sum.splits)

lemma loadProgress_quiet: "list_all quiet (fst (snd (loadProgress env w)))"
  by (auto simp: loadProgress_def split: prod.splits sum.splits)

lemma load_references_quiet: "list_all quiet (fst (snd (load_references env w)))"
  by (auto simp: load_references_def split: prod.splits sum.splits)

text \<open>
  A run of \<open>main\<close> that reaches its \<open>try\<close> goes one of three ways: the character loop
  throws; the character loop ends and the scene loop throws; both loops end and the
  reference summary is written. In each the trace is the quiet start-up, the traces of
  the loops and a quiet end.
\<close>

lemma main_cases:
  assumes "startup env w = Some (progress, w0)"
  obtains
    (characters_failed) pre post files0 wl e st1 evs1 w1 where
      "list_all quiet pre" "list_all quiet post"
      "characters_loop env (mainCharacters st) (progress, loaded_references env w0, files0) wl
         = (Inl e, st1, evs1, w1)"
      "main env st w = (st1, pre @ evs1 @ post, w1)"
  | (scenes_failed) pre post files0 wl x st1 evs1 w1 e st2 evs2 w2 where
      "list_all quiet pre" "list_all quiet post"
      "characters_loop env (mainCharacters st) (progress, loaded_references env w0, files0) wl
         = (Inr x, st1, evs1, w1)"
      "story_scenes_loop env (Story.scenes st) st1 w1 = (Inl e, st2, evs2, w2)"
      "main env st w = (st2, pre @ evs1 @ evs2 @ post, w2)"
  | (finished) pre post files0 wl x st1 evs1 w1 y st2 evs2 w2 b w3 where
      "list_all quiet pre" "list_all quiet post"
      "characters_loop env (mainCharacters st) (progress, loaded_references env w0, files0) wl
         = (Inr x, st1, evs1, w1)"
      "story_scenes_loop env (Story.scenes st) st1 w1 = (Inr y, st2, evs2, w2)"
      "main env st w =
         (st2,
          pre @ evs1 @ evs2
          @ Call_writeFile (references_path env)
              (ReferencesJson (fst (snd st2)) (snd (snd st2))) b # post, w3)"
proof -
  obtain evs_dirs w1' xd where dirs: "ensureDirectories env w = (Inr xd, evs_dirs, w1')"
    using assms by (auto simp: startup_def split: prod.splits sum.splits)
  obtain evs_load w2' where load: "loadProgress env w1' = (progress, evs_load, w2')"
    using assms dirs by (auto simp: startup_def split: prod.splits sum.splits)
  obtain xc where conn: "Connect env w2' = (Inr xc, w0)"
    using assms dirs load by (auto simp: startup_def split: prod.splits sum.splits)
  obtain files0 evs0 wl where refs:
    "load_references env w0 = ((loaded_references env w0, files0), evs0, wl)"
    by (cases "load_references env w0") (auto simp: loaded_references_def)
  let ?pre = "evs_dirs @ evs_load @ [Call_Connect True] @ evs0"
  have pre: "list_all quiet ?pre"
    using mkdir_each_quiet[of env "[''output/character_images'', ''output/scene_images'']" w]
      loadProgress_quiet[of env w1'] load_references_quiet[of env w0] dirs load refs
    by (simp add: ensureDirectories_def)
  obtain r1 st1 evs1 w1 where chars:
    "characters_loop env (mainCharacters st) (progress, loaded_references env w0, files0) wl
       = (r1, st1, evs1, w1)"
    by (cases "characters_loop env (mainCharacters st)
                 (progress, loaded_references env w0, files0) wl") auto
  show thesis
  proof (cases r1)
    case (Inl e)
    have "main env st w =
            (st1, ?pre @ evs1 @ [Console_error ''Error generating storyboard:'', Call_Close],
             w1)"
      using dirs load conn refs chars Inl by (simp add: main_def main_body_def)
    then show thesis
      using characters_failed[of ?pre
          "[Console_error ''Error generating storyboard:'', Call_Close]" files0 wl e st1 evs1 w1]
        pre chars Inl by simp
  next
    case r1: (Inr x)
    obtain r2 st2 evs2 w2 where scenes:
      "story_scenes_loop env (Story.scenes st) st1 w1 = (r2, st2, evs2, w2)"
      by (cases "story_scenes_loop env (Story.scenes st) st1 w1") auto
    show thesis
    proof (cases r2)
      case (Inl e)
      have "main env st w =
              (st2,
               ?pre @ evs1 @ evs2
               @ [Console_error ''Error generating storyboard:'', Call_Close], w2)"
        using dirs load conn refs chars r1 scenes Inl by (simp add: main_def main_body_def)
      then show thesis
        using scenes_failed[of ?pre
            "[Console_error ''Error generating storyboard:'', Call_Close]" files0 wl x st1 evs1
            w1 e st2 evs2 w2]
          pre chars r1 scenes Inl by simp
    next
      case r2: (Inr y)
      let ?summary = "ReferencesJson (fst (snd st2)) (snd (snd st2))"
      obtain r3 w3 where wr: "writeFile env (references_path env) ?summary w2 = (r3, w3)"
        by (cases "writeFile env (references_path env) ?summary w2") auto
      let ?post = "(case r3 of Inl e \<Rightarrow> [Console_error ''Error generating storyboard:'']
                    | Inr _ \<Rightarrow> []) @ [Call_Close]"
      have "main env st w =
              (st2,
               ?pre @ evs1 @ evs2
               @ Call_writeFile (references_path env) ?summary (ok r3) # ?post, w3)"
        using dirs load conn refs chars r1 scenes r2 wr
        by (simp add: main_def main_body_def Let_def)
      moreover have "list_all quiet ?post"
        by (cases r3) auto
      ultimately show thesis
        using finished[of ?pre ?post files0 wl x st1 evs1 w1 y st2 evs2 w2 "ok r3" w3]
          pre chars r1 scenes r2 by simp
    qed
  qed
qed

lemma main_without_startup:
  assumes "startup env w = None"
  shows "list_all quiet (fst (snd (main env st w)))"
  using assms mkdir_each_quiet[of env "[''output/character_images'', ''output/scene_images'']" w]
  by (auto simp: startup_def main_def ensureDirectories_def loadProgress_def
      split: prod.splits sum.splits)

subsection \<open>Resume\<close>

lemma main_submissions_pending:
  assumes "startup env w = Some (progress, w0)"
  shows "set (submissions (fst (snd (main env st w)))) \<subseteq> pending st progress"
  using assms
proof (cases rule: main_cases[where st = st])
  case (characters_failed pre post files0 wl e st1 evs1 w1)
  then show ?thesis
    using characters_loop_submissions
            [of env "mainCharacters st" "(progress, loaded_references env w0, files0)" wl]
    by (auto simp: quiet_trace(1) pending_def)
next
  case (scenes_failed pre post files0 wl x st1 evs1 w1 e st2 evs2 w2)
  then show ?thesis
    using characters_loop_submissions
            [of env "mainCharacters st" "(progress, loaded_references env w0, files0)" wl]
          characters_loop_scenes_ledger
            [of env "mainCharacters st" "(progress, loaded_references env w0, files0)" wl]
          story_scenes_loop_submissions[of env "Story.scenes st" st1 w1]
    by (auto simp: quiet_trace(1) pending_def)
next
  case (finished pre post files0 wl x st1 evs1 w1 y st2 evs2 w2 b w3)
  then show ?thesis
    using characters_loop_submissions
            [of env "mainCharacters st" "(progress, loaded_references env w0, files0)" wl]
          characters_loop_scenes_ledger
            [of env "mainCharacters st" "(progress, loaded_references env w0, files0)" wl]
          story_scenes_loop_submissions[of env "Story.scenes st" st1 w1]
    by (auto simp: quiet_trace(1) pending_def)
qed

text \<open>
  C2. In a run of \<open>main\<close> that loaded the ledger \<open>progress\<close>, every backend submission
  (\<open>Imagine\<close> or \<open>Upscale\<close>) is made for a character whose name, or a scene whose title,
  is not in that ledger: an item that the loaded ledger marks complete is skipped without
  any submission. So when the ledger marks every character and every scene of the story
  complete, the run makes no backend submission at all.
\<close>

theorem resume_skips_completed_items:
  assumes "startup env w = Some (progress, w0)"
  shows "set (submissions (fst (snd (main env st w)))) \<subseteq> pending st progress
       \<and> ((\<forall>c\<in>set (mainCharacters st).
              StoryCharacter.name c \<in> set (completedCharacters progress))
          \<and> (\<forall>s\<in>set (Story.scenes st). StoryScene.title s \<in> set (completedScenes progress))
          \<longrightarrow> submissions (fst (snd (main env st w))) = [])"
proof -
  have sub: "set (submissions (fst (snd (main env st w)))) \<subseteq> pending st progress"
    by (rule main_submissions_pending[OF assms])
  moreover have "submissions (fst (snd (main env st w))) = []"
    if "pending st progress = {}"
    using sub that by (cases "submissions (fst (snd (main env st w)))") auto
  moreover have "pending st progress = {}"
    if "\<forall>c\<in>set (mainCharacters st).
          StoryCharacter.name c \<in> set (completedCharacters progress)"
      and "\<forall>s\<in>set (Story.scenes st). StoryScene.title s \<in> set (completedScenes progress)"
    using that by (auto simp: pending_def)
  ultimately show ?thesis
    by blast
qed

theorem resume_skips_completed_items_witness:
  "startup (stub_env (story_stub always_answers (Some complete_ledger) None)) []
     = Some (complete_ledger, [])
   \<and> submissions
       (fst (snd (main (stub_env (story_stub always_answers (Some complete_ledger) None))
                    story []))) = []"
proof -
  let ?env = "stub_env (story_stub always_answers (Some complete_ledger) None)"
  have s: "startup ?env [] = Some (complete_ledger, [])"
    by (simp add: startup_def ensureDirectories_def loadProgress_def story_stub_def
          read_stub_def)
  have c: "\<forall>c\<in>set (mainCharacters story).
             StoryCharacter.name c \<in> set (completedCharacters complete_ledger)"
    and sc: "\<forall>s\<in>set (Story.scenes story).
             StoryScene.title s \<in> set (completedScenes complete_ledger)"
    by (simp_all add: complete_ledger_def)
  show ?thesis
    using s c sc resume_skips_completed_items[OF s, of story] by blast
qed

subsection \<open>The ledger is written after the artifact\<close>

text \<open>Events that are neither the successful write of an image nor a write of the ledger
  leave the discipline, the ledgers and the items as they are.\<close>

lemma plain_step:
  assumes "plain e"
  shows "ledger_discipline env cur None (e # es) = ledger_discipline env cur None es"
    and "last_written cur (e # es) = last_written cur es"
    and "last_saved cur (e # es) = last_saved cur es"
    and "\<not> is_artifact_write e" and "\<not> is_ledger_save e"
proof -
  have "ledger_discipline env cur None (e # es) = ledger_discipline env cur None es
        \<and> last_written cur (e # es) = last_written cur es
        \<and> last_saved cur (e # es) = last_saved cur es
        \<and> \<not> is_artifact_write e \<and> \<not> is_ledger_save e"
  proof (cases e)
    case (Call_writeFile p d b)
    with assms show ?thesis
      by (cases d; cases b) (simp_all add: plain_def is_artifact_write_def)
  qed (use assms in \<open>simp_all add: plain_def is_artifact_write_def\<close>)
  then show "ledger_discipline env cur None (e # es) = ledger_discipline env cur None es"
    and "last_written cur (e # es) = last_written cur es"
    and "last_saved cur (e # es) = last_saved cur es"
    and "\<not> is_artifact_write e" and "\<not> is_ledger_save e"
    by simp_all
qed

lemma plain_prefix:
  assumes "\<forall>e\<in>set a. plain e"
  shows "ledger_discipline env cur None (a @ b) = ledger_discipline env cur None b"
    and "last_written cur (a @ b) = last_written cur b"
    and "last_saved cur (a @ b) = last_saved cur b"
  using assms by (induction a; simp add: plain_step)+

lemma quiet_plain: "quiet e \<Longrightarrow> plain e \<and> submission e = []"
  by (erule quiet.elims) (simp_all add: plain_def)

lemma quiet_discipline: "list_all quiet es \<Longrightarrow> ledger_discipline env cur None es"
  using plain_prefix(1)[of es env cur "[]"] quiet_plain by (auto simp: list_all_iff)

lemma items_at_append:
  "items_at at cur (a @ b) = items_at at cur a @ items_at at (foldl item_in_work cur a) b"
  by (induction a arbitrary: cur) simp_all

lemma items_at_none: "\<forall>e\<in>set a. \<not> at e \<Longrightarrow> items_at at cur a = []"
  by (induction a arbitrary: cur) simp_all

lemma record_items_append:
  "record_items progress (xs @ ys) = record_items (record_items progress xs) ys"
  by (simp add: record_items_def)

lemma last_written_append:
  "last_written cur (a @ b) = last_written (last_written cur a) b"
  by (induction cur a rule: last_written.induct) auto

lemma last_saved_append: "last_saved cur (a @ b) = last_saved (last_saved cur a) b"
  by (induction cur a rule: last_saved.induct) auto

text \<open>What the trace of one item is like: when the item fails, every event is plain;
  when it succeeds, the trace ends with the successful write of the image, everything
  before is plain, and the item in work is this item.\<close>

lemma imagine_upscale_download_item:
  assumes "imagine_upscale_download env ty ident p path w = (r, evs, w1)"
  shows "(\<exists>e. r = Inl e) \<Longrightarrow> \<forall>e\<in>set evs. plain e"
    and "\<And>u. r = Inr u \<Longrightarrow>
           \<exists>evs0 body. evs = evs0 @ [Call_writeFile path (ImageData body) True]
             \<and> (\<forall>e\<in>set evs0. plain e)
             \<and> (\<forall>cur. foldl item_in_work cur evs0 = Some (ty, ident))"
proof -
  show "\<forall>e\<in>set evs. plain e" if "\<exists>e. r = Inl e"
    using assms that
    by (cases rule: imagine_upscale_download_cases) (auto simp: plain_def)
  show "\<exists>evs0 body. evs = evs0 @ [Call_writeFile path (ImageData body) True]
             \<and> (\<forall>e\<in>set evs0. plain e)
             \<and> (\<forall>cur. foldl item_in_work cur evs0 = Some (ty, ident))" if "r = Inr u" for u
    using assms that
  proof (cases rule: imagine_upscale_download_cases)
    case (completed result args m u' body)
    then show ?thesis
      by (intro exI[of _ "[Call_Imagine ty ident p (Inr (Some result)),
                           Call_Upscale ty ident args (Inr (Some m)), Call_get u' True]"]
                exI[of _ body])
         (simp add: plain_def item_in_work_def)
  qed auto
qed

lemma generateCharacter_item:
  assumes "generateCharacter env c w = (r, evs, w1)"
  shows "(\<exists>e. r = Inl e) \<Longrightarrow> \<forall>e\<in>set evs. plain e"
    and "\<And>u filepath. r = Inr (u, filepath) \<Longrightarrow>
           filepath = character_filepath env (StoryCharacter.name c)
           \<and> (\<exists>evs0 body. evs = evs0 @ [Call_writeFile filepath (ImageData body) True]
                \<and> (\<forall>e\<in>set evs0. plain e)
                \<and> (\<forall>cur. foldl item_in_work cur evs0
                             = Some (character_asset, StoryCharacter.name c)))"
proof -
  obtain r0 where i: "imagine_upscale_download env character_asset (StoryCharacter.name c)
      (StoryCharacter.prompt c) (character_filepath env (StoryCharacter.name c)) w
      = (r0, evs, w1)"
    and r: "r = (case r0 of Inl e \<Rightarrow> Inl e
                 | Inr u \<Rightarrow> Inr (u, character_filepath env (StoryCharacter.name c)))"
    using assms by (auto simp: generateCharacter_def Let_def split: prod.splits sum.splits)
  show "\<forall>e\<in>set evs. plain e" if "\<exists>e. r = Inl e"
    using imagine_upscale_download_item(1)[OF i] that r by (auto split: sum.splits)
  show "filepath = character_filepath env (StoryCharacter.name c)
           \<and> (\<exists>evs0 body. evs = evs0 @ [Call_writeFile filepath (ImageData body) True]
                \<and> (\<forall>e\<in>set evs0. plain e)
                \<and> (\<forall>cur. foldl item_in_work cur evs0
                             = Some (character_asset, StoryCharacter.name c)))"
    if "r = Inr (u, filepath)" for u filepath
    using imagine_upscale_download_item(2)[OF i] that r by (auto split: sum.splits)
qed

lemma generateScene_item:
  assumes "generateScene env s refs w = (r, evs, w1)"
  shows "(\<exists>e. r = Inl e) \<Longrightarrow> \<forall>e\<in>set evs. plain e"
    and "\<And>filepath. r = Inr filepath \<Longrightarrow>
           filepath = scene_filepath env (StoryScene.title s)
           \<and> (\<exists>evs0 body. evs = evs0 @ [Call_writeFile filepath (ImageData body) True]
                \<and> (\<forall>e\<in>set evs0. plain e)
                \<and> (\<forall>cur. foldl item_in_work cur evs0
                             = Some (scene_asset, StoryScene.title s)))"
proof -
  obtain r0 where i: "imagine_upscale_download env scene_asset (StoryScene.title s)
      (scene_prompt s refs) (scene_filepath env (StoryScene.title s)) w = (r0, evs, w1)"
    and r: "r = (case r0 of Inl e \<Rightarrow> Inl e
                 | Inr u \<Rightarrow> Inr (scene_filepath env (StoryScene.title s)))"
    using assms by (auto simp: generateScene_def Let_def split: prod.splits sum.splits)
  show "\<forall>e\<in>set evs. plain e" if "\<exists>e. r = Inl e"
    using imagine_upscale_download_item(1)[OF i] that r by (auto split: sum.splits)
  show "filepath = scene_filepath env (StoryScene.title s)
           \<and> (\<exists>evs0 body. evs = evs0 @ [Call_writeFile filepath (ImageData body) True]
                \<and> (\<forall>e\<in>set evs0. plain e)
                \<and> (\<forall>cur. foldl item_in_work cur evs0
                             = Some (scene_asset, StoryScene.title s)))"
    if "r = Inr filepath" for filepath
    using imagine_upscale_download_item(2)[OF i] that r by (auto split: sum.splits)
qed

text \<open>An item that succeeded, followed by the write of the ledger.\<close>

lemma item_then_ledger:
  assumes "evs1 = evs0 @ [Call_writeFile q (ImageData body) True]"
    and "\<forall>e\<in>set evs0. plain e"
    and "\<forall>cur. foldl item_in_work cur evs0 = Some item"
  shows "ledger_discipline env cur None
           (evs1 @ Call_writeFile p (ProgressJson L) b # rest)
         = (p = progress_path env \<and> entry_added env cur L q
            \<and> (if b then ledger_discipline env L None rest else list_all quiet rest))"
    and "items_at is_artifact_write c (evs1 @ Call_writeFile p (ProgressJson L) b # rest)
         = item # items_at is_artifact_write (Some item) rest"
    and "items_at is_ledger_save c (evs1 @ Call_writeFile p (ProgressJson L) b # rest)
         = (if b then [item] else []) @ items_at is_ledger_save (Some item) rest"
    and "last_saved cur (evs1 @ Call_writeFile p (ProgressJson L) b # rest)
         = last_saved (if b then L else cur) rest"
    and "last_written cur (evs1 @ Call_writeFile p (ProgressJson L) b # rest)
         = last_written L rest"
proof -
  have no: "\<forall>e\<in>set evs0. \<not> is_artifact_write e" "\<forall>e\<in>set evs0. \<not> is_ledger_save e"
    using assms(2) plain_step(4,5) by auto
  show "ledger_discipline env cur None
           (evs1 @ Call_writeFile p (ProgressJson L) b # rest)
         = (p = progress_path env \<and> entry_added env cur L q
            \<and> (if b then ledger_discipline env L None rest else list_all quiet rest))"
    by (simp add: assms(1) plain_prefix(1)[OF assms(2)])
  show "items_at is_artifact_write c (evs1 @ Call_writeFile p (ProgressJson L) b # rest)
         = item # items_at is_artifact_write (Some item) rest"
    using assms(3) no(1)
    by (simp add: assms(1) items_at_append items_at_none is_artifact_write_def
          item_in_work_def)
  show "items_at is_ledger_save c (evs1 @ Call_writeFile p (ProgressJson L) b # rest)
         = (if b then [item] else []) @ items_at is_ledger_save (Some item) rest"
    using assms(3) no(2)
    by (cases b) (simp_all add: assms(1) items_at_append items_at_none item_in_work_def)
  show "last_saved cur (evs1 @ Call_writeFile p (ProgressJson L) b # rest)
         = last_saved (if b then L else cur) rest"
    by (cases b) (simp_all add: assms(1) plain_prefix(3)[OF assms(2)])
  show "last_written cur (evs1 @ Call_writeFile p (ProgressJson L) b # rest)
         = last_written L rest"
    by (simp add: assms(1) plain_prefix(2)[OF assms(2)])
qed

text \<open>
  What a loop of \<open>main\<close> does to the ledger, from the ledger \<open>fst st\<close> it starts with: the
  ledger it ends with has an entry more for every item whose image was written; the
  ledger that was saved last has an entry more for every item after which the ledger was
  saved; when the loop ends normally the two are the same and the discipline of what
  follows is that of the whole; when it ends with an error, the discipline holds if
  nothing but quiet events follows.
\<close>

lemma characters_loop_ledger:
  "(\<forall>c. fst (fst (snd (characters_loop env cs st w)))
          = record_items (fst st)
              (items_at is_artifact_write c (fst (snd (snd (characters_loop env cs st w))))))
   \<and> (\<forall>c. last_saved (fst st) (fst (snd (snd (characters_loop env cs st w))))
            = record_items (fst st)
                (items_at is_ledger_save c (fst (snd (snd (characters_loop env cs st w))))))
   \<and> last_written (fst st) (fst (snd (snd (characters_loop env cs st w))))
       = fst (fst (snd (characters_loop env cs st w)))
   \<and> ((\<exists>x. fst (characters_loop env cs st w) = Inr x) \<longrightarrow>
         last_saved (fst st) (fst (snd (snd (characters_loop env cs st w))))
           = fst (fst (snd (characters_loop env cs st w)))
         \<and> (\<forall>rest. ledger_discipline env (fst st) None
                       (fst (snd (snd (characters_loop env cs st w))) @ rest)
                     = ledger_discipline env (fst (fst (snd (characters_loop env cs st w))))
                         None rest))
   \<and> ((\<exists>e. fst (characters_loop env cs st w) = Inl e) \<longrightarrow>
         (\<forall>rest. list_all quiet rest \<longrightarrow>
            ledger_discipline env (fst st) None
              (fst (snd (snd (characters_loop env cs st w))) @ rest)))"
proof -
  define P where "P = (\<lambda>(cs :: StoryCharacter list) (st :: run_state) (w :: 'a)
      (res :: (error + unit) \<times> run_state \<times> event list \<times> 'a).
      (\<forall>c. fst (fst (snd res))
             = record_items (fst st) (items_at is_artifact_write c (fst (snd (snd res)))))
      \<and> (\<forall>c. last_saved (fst st) (fst (snd (snd res)))
               = record_items (fst st) (items_at is_ledger_save c (fst (snd (snd res)))))
      \<and> last_written (fst st) (fst (snd (snd res))) = fst (fst (snd res))
      \<and> ((\<exists>x. fst res = Inr x) \<longrightarrow>
            last_saved (fst st) (fst (snd (snd res))) = fst (fst (snd res))
            \<and> (\<forall>rest. ledger_discipline env (fst st) None (fst (snd (snd res)) @ rest)
                        = ledger_discipline env (fst (fst (snd res))) None rest))
      \<and> ((\<exists>e. fst res = Inl e) \<longrightarrow>
            (\<forall>rest. list_all quiet rest \<longrightarrow>
               ledger_discipline env (fst st) None (fst (snd (snd res)) @ rest))))"
  have "P cs st w (characters_loop env cs st w)"
  proof (rule characters_loop_cases[where P = P], goal_cases)
    case (1 st w)
    show ?case by (simp add: P_def record_items_def)
  next
    case (2 c cs progress refs files w res)
    then show ?case by (simp add: P_def)
  next
    case (3 c cs progress refs files w e evs1 w1)
    have pl: "\<forall>e\<in>set evs1. plain e"
      using generateCharacter_item(1)[OF 3(2)] by simp
    then have no: "\<forall>e\<in>set evs1. \<not> is_artifact_write e" "\<forall>e\<in>set evs1. \<not> is_ledger_save e"
      using plain_step(4,5) by auto
    show ?case
      using plain_prefix(2)[OF pl, of progress "[]"] plain_prefix(3)[OF pl, of progress "[]"]
        quiet_discipline[of _ env progress]
      by (simp add: P_def items_at_none[OF no(1)] items_at_none[OF no(2)] record_items_def
            plain_prefix(1)[OF pl])
  next
    case (4 c cs progress refs files w u filepath evs1 w1 e evs2 w2)
    let ?L = "progress\<lparr>completedCharacters :=
                completedCharacters progress @ [StoryCharacter.name c]\<rparr>"
    let ?item = "(character_asset, StoryCharacter.name c)"
    obtain evs0 body where shape:
      "filepath = character_filepath env (StoryCharacter.name c)"
      "evs1 = evs0 @ [Call_writeFile filepath (ImageData body) True]"
      "\<forall>e\<in>set evs0. plain e" "\<forall>cur. foldl item_in_work cur evs0 = Some ?item"
      using generateCharacter_item(2)[OF 4(2) refl] by blast
    note item = item_then_ledger[OF shape(2,3,4)]
    have added: "entry_added env progress ?L filepath"
      by (simp add: entry_added_def shape(1))
    have evs2: "evs2 = [Call_writeFile (progress_path env) (ProgressJson ?L) False]"
      using saveProgress_shape[OF 4(3)] by (simp add: ok_def)
    show ?case
      using added
      by (simp add: P_def evs2 item record_items_def)
  next
    case (5 c cs progress refs files w u filepath evs1 w1 x evs2 w2 r st evs3 w3)
    let ?L = "progress\<lparr>completedCharacters :=
                completedCharacters progress @ [StoryCharacter.name c]\<rparr>"
    let ?item = "(character_asset, StoryCharacter.name c)"
    obtain evs0 body where shape:
      "filepath = character_filepath env (StoryCharacter.name c)"
      "evs1 = evs0 @ [Call_writeFile filepath (ImageData body) True]"
      "\<forall>e\<in>set evs0. plain e" "\<forall>cur. foldl item_in_work cur evs0 = Some ?item"
      using generateCharacter_item(2)[OF 5(2) refl] by blast
    note item = item_then_ledger[OF shape(2,3,4)]
    have added: "entry_added env progress ?L filepath"
      by (simp add: entry_added_def shape(1))
    have evs2: "evs2 = [Call_writeFile (progress_path env) (ProgressJson ?L) True]"
      using saveProgress_shape[OF 5(3)] by (simp add: ok_def)
    have delay: "plain (Delay 5000)" by (simp add: plain_def)
    show ?case
      using 5(5) added
      by (simp add: P_def evs2 item record_items_def plain_step[OF delay]
            is_artifact_write_def item_in_work_def)
  qed
  then show ?thesis by (simp add: P_def)
qed

lemma story_scenes_loop_ledger:
  "(\<forall>c. fst (fst (snd (story_scenes_loop env ss st w)))
          = record_items (fst st)
              (items_at is_artifact_write c (fst (snd (snd (story_scenes_loop env ss st w))))))
   \<and> (\<forall>c. last_saved (fst st) (fst (snd (snd (story_scenes_loop env ss st w))))
            = record_items (fst st)
                (items_at is_ledger_save c (fst (snd (snd (story_scenes_loop env ss st w))))))
   \<and> last_written (fst st) (fst (snd (snd (story_scenes_loop env ss st w))))
       = fst (fst (snd (story_scenes_loop env ss st w)))
   \<and> ((\<exists>x. fst (story_scenes_loop env ss st w) = Inr x) \<longrightarrow>
         last_saved (fst st) (fst (snd (snd (story_scenes_loop env ss st w))))
           = fst (fst (snd (story_scenes_loop env ss st w)))
         \<and> (\<forall>rest. ledger_discipline env (fst st) None
                       (fst (snd (snd (story_scenes_loop env ss st w))) @ rest)
                     = ledger_discipline env (fst (fst (snd (story_scenes_loop env ss st w))))
                         None rest))
   \<and> ((\<exists>e. fst (story_scenes_loop env ss st w) = Inl e) \<longrightarrow>
         (\<forall>rest. list_all quiet rest \<longrightarrow>
            ledger_discipline env (fst st) None
              (fst (snd (snd (story_scenes_loop env ss st w))) @ rest)))"
proof -
  define P where "P = (\<lambda>(ss :: StoryScene list) (st :: run_state) (w :: 'a)
      (res :: (error + unit) \<times> run_state \<times> event list \<times> 'a).
      (\<forall>c. fst (fst (snd res))
             = record_items (fst st) (items_at is_artifact_write c (fst (snd (snd res)))))
      \<and> (\<forall>c. last_saved (fst st) (fst (snd (snd res)))
               = record_items (fst st) (items_at is_ledger_save c (fst (snd (snd res)))))
      \<and> last_written (fst st) (fst (snd (snd res))) = fst (fst (snd res))
      \<and> ((\<exists>x. fst res = Inr x) \<longrightarrow>
            last_saved (fst st) (fst (snd (snd res))) = fst (fst (snd res))
            \<and> (\<forall>rest. ledger_discipline env (fst st) None (fst (snd (snd res)) @ rest)
                        = ledger_discipline env (fst (fst (snd res))) None rest))
      \<and> ((\<exists>e. fst res = Inl e) \<longrightarrow>
            (\<forall>rest. list_all quiet rest \<longrightarrow>
               ledger_discipline env (fst st) None (fst (snd (snd res)) @ rest))))"
  have "P ss st w (story_scenes_loop env ss st w)"
  proof (rule story_scenes_loop_cases[where P = P], goal_cases)
    case (1 st w)
    show ?case by (simp add: P_def record_items_def)
  next
    case (2 s ss progress refs files w res)
    then show ?case by (simp add: P_def)
  next
    case (3 s ss progress refs files w e evs1 w1)
    have pl: "\<forall>e\<in>set evs1. plain e"
      using generateScene_item(1)[OF 3(2)] by simp
    then have no: "\<forall>e\<in>set evs1. \<not> is_artifact_write e" "\<forall>e\<in>set evs1. \<not> is_ledger_save e"
      using plain_step(4,5) by auto
    show ?case
      using plain_prefix(2)[OF pl, of progress "[]"] plain_prefix(3)[OF pl, of progress "[]"]
        quiet_discipline[of _ env progress]
      by (simp add: P_def items_at_none[OF no(1)] items_at_none[OF no(2)] record_items_def
            plain_prefix(1)[OF pl])
  next
    case (4 s ss progress refs files w filepath evs1 w1 e evs2 w2)
    let ?L = "progress\<lparr>completedScenes :=
                completedScenes progress @ [StoryScene.title s]\<rparr>"
    let ?item = "(scene_asset, StoryScene.title s)"
    obtain evs0 body where shape:
      "filepath = scene_filepath env (StoryScene.title s)"
      "evs1 = evs0 @ [Call_writeFile filepath (ImageData body) True]"
      "\<forall>e\<in>set evs0. plain e" "\<forall>cur. foldl item_in_work cur evs0 = Some ?item"
      using generateScene_item(2)[OF 4(2) refl] by blast
    note item = item_then_ledger[OF shape(2,3,4)]
    have added: "entry_added env progress ?L filepath"
      by (simp add: entry_added_def shape(1))
    have evs2: "evs2 = [Call_writeFile (progress_path env) (ProgressJson ?L) False]"
      using saveProgress_shape[OF 4(3)] by (simp add: ok_def)
    show ?case
      using added
      by (simp add: P_def evs2 item record_items_def)
  next
    case (5 s ss progress refs files w filepath evs1 w1 x evs2 w2 r st evs3 w3)
    let ?L = "progress\<lparr>completedScenes :=
                completedScenes progress @ [StoryScene.title s]\<rparr>"
    let ?item = "(scene_asset, StoryScene.title s)"
    obtain evs0 body where shape:
      "filepath = scene_filepath env (StoryScene.title s)"
      "evs1 = evs0 @ [Call_writeFile filepath (ImageData body) True]"
      "\<forall>e\<in>set evs0. plain e" "\<forall>cur. foldl item_in_work cur evs0 = Some ?item"
      using generateScene_item(2)[OF 5(2) refl] by blast
    note item = item_then_ledger[OF shape(2,3,4)]
    have added: "entry_added env progress ?L filepath"
      by (simp add: entry_added_def shape(1))
    have evs2: "evs2 = [Call_writeFile (progress_path env) (ProgressJson ?L) True]"
      using saveProgress_shape[OF 5(3)] by (simp add: ok_def)
    have delay: "plain (Delay 5000)" by (simp add: plain_def)
    show ?case
      using 5(5) added
      by (simp add: P_def evs2 item record_items_def plain_step[OF delay]
            is_artifact_write_def item_in_work_def)
  qed
  then show ?thesis by (simp add: P_def)
qed

lemma idle_prefix:
  assumes "\<forall>e\<in>set a. plain e \<and> submission e = []"
  shows "items_at is_artifact_write c (a @ b) = items_at is_artifact_write c b"
    and "items_at is_ledger_save c (a @ b) = items_at is_ledger_save c b"
  using assms by (induction a; simp add: plain_step(4,5) item_in_work_def)+

lemma quiet_idle: "list_all quiet evs \<Longrightarrow> \<forall>e\<in>set evs. plain e \<and> submission e = []"
  using quiet_plain by (auto simp: list_all_iff)

text \<open>Idle events before and after a part of a trace do not change what the part says
  about the ledger.\<close>

lemma idle_around:
  assumes "\<forall>e\<in>set pre. plain e \<and> submission e = []"
    and "\<forall>e\<in>set post. plain e \<and> submission e = []"
  shows "items_at is_artifact_write c (pre @ mid @ post) = items_at is_artifact_write c mid"
    and "items_at is_ledger_save c (pre @ mid @ post) = items_at is_ledger_save c mid"
    and "last_saved cur (pre @ mid @ post) = last_saved cur mid"
    and "last_written cur (pre @ mid @ post) = last_written cur mid"
    and "ledger_discipline env cur None (pre @ mid @ post)
         = ledger_discipline env cur None (mid @ post)"
proof -
  have pp: "\<forall>e\<in>set pre. plain e" "\<forall>e\<in>set post. plain e"
    using assms by auto
  have "items_at at c (pre @ mid @ post) = items_at at c mid"
    if "\<And>c b. items_at at c (pre @ b) = items_at at c b"
      and "\<And>c. items_at at c post = []" for at
  proof -
    have "items_at at c (pre @ mid @ post) = items_at at c (mid @ post)"
      by (rule that(1))
    also have "\<dots> = items_at at c mid"
      by (simp add: items_at_append that(2))
    finally show ?thesis .
  qed
  then show "items_at is_artifact_write c (pre @ mid @ post) = items_at is_artifact_write c mid"
    and "items_at is_ledger_save c (pre @ mid @ post) = items_at is_ledger_save c mid"
    using idle_prefix[OF assms(1)] idle_prefix[OF assms(2), of _ "[]"] by simp_all
  have "last_saved cur (pre @ mid @ post) = last_saved cur (mid @ post)"
    by (rule plain_prefix(3)[OF pp(1)])
  also have "\<dots> = last_saved cur mid"
    using plain_prefix(3)[OF pp(2), of _ "[]"] by (simp add: last_saved_append)
  finally show "last_saved cur (pre @ mid @ post) = last_saved cur mid" .
  have "last_written cur (pre @ mid @ post) = last_written cur (mid @ post)"
    by (rule plain_prefix(2)[OF pp(1)])
  also have "\<dots> = last_written cur mid"
    using plain_prefix(2)[OF pp(2), of _ "[]"] by (simp add: last_written_append)
  finally show "last_written cur (pre @ mid @ post) = last_written cur mid" .
  show "ledger_discipline env cur None (pre @ mid @ post)
         = ledger_discipline env cur None (mid @ post)"
    by (simp add: plain_prefix(1)[OF pp(1)])
qed

text \<open>The two loops of \<open>main\<close>, one after the other.\<close>

lemma both_loops_ledger:
  assumes "characters_loop env cs st0 wl = (Inr x, st1, evs1, w1)"
    and "story_scenes_loop env ss st1 w1 = (r, st2, evs2, w2)"
    and "(\<exists>e. r = Inl e) \<longrightarrow> list_all quiet post"
    and "(\<exists>y. r = Inr y) \<longrightarrow> (\<forall>e\<in>set post. plain e)"
  shows "ledger_discipline env (fst st0) None ((evs1 @ evs2) @ post)"
    and "fst st2 = record_items (fst st0) (items_at is_artifact_write c (evs1 @ evs2))"
    and "last_saved (fst st0) (evs1 @ evs2)
         = record_items (fst st0) (items_at is_ledger_save c (evs1 @ evs2))"
    and "last_written (fst st0) (evs1 @ evs2) = fst st2"
proof -
  note c = characters_loop_ledger[of env cs st0 wl, unfolded assms(1)]
  note s = story_scenes_loop_ledger[of env ss st1 w1, unfolded assms(2)]
  have c1: "fst st1 = record_items (fst st0) (items_at is_artifact_write c evs1)"
    and c2: "last_saved (fst st0) evs1
             = record_items (fst st0) (items_at is_ledger_save c evs1)"
    and c3: "last_written (fst st0) evs1 = fst st1"
    and c4: "last_saved (fst st0) evs1 = fst st1"
    and c5: "\<And>rest. ledger_discipline env (fst st0) None (evs1 @ rest)
                     = ledger_discipline env (fst st1) None rest"
    using c by simp_all
  have s1: "fst st2 = record_items (fst st1)
                        (items_at is_artifact_write (foldl item_in_work c evs1) evs2)"
    and s2: "last_saved (fst st1) evs2
             = record_items (fst st1)
                 (items_at is_ledger_save (foldl item_in_work c evs1) evs2)"
    and s3: "last_written (fst st1) evs2 = fst st2"
    using s by simp_all
  show "ledger_discipline env (fst st0) None ((evs1 @ evs2) @ post)"
  proof (cases r)
    case (Inl e)
    then show ?thesis using s assms(3) by (simp add: c5)
  next
    case (Inr y)
    then show ?thesis
      using s assms(4) plain_prefix(1)[of post env "fst st2" "[]"] by (simp add: c5)
  qed
  show "fst st2 = record_items (fst st0) (items_at is_artifact_write c (evs1 @ evs2))"
    using s1 c1 by (simp add: items_at_append record_items_append)
  show "last_saved (fst st0) (evs1 @ evs2)
         = record_items (fst st0) (items_at is_ledger_save c (evs1 @ evs2))"
    using s2 c2 c4 by (simp add: items_at_append record_items_append last_saved_append)
  show "last_written (fst st0) (evs1 @ evs2) = fst st2"
    using s3 c3 by (simp add: last_written_append)
qed

text \<open>
  The ledger in a run of \<open>main\<close> that loaded the ledger \<open>progress\<close>: the discipline holds on
  the whole trace; the ledger that \<open>main\<close> ends with holds, after the loaded entries, an
  entry for every item whose image was written in this run; and the ledger that was
  saved last, which is in the file, holds an entry for every item after which the ledger
  was saved.
\<close>

lemma main_ledger:
  assumes "startup env w = Some (progress, w0)"
  shows "ledger_discipline env progress None (fst (snd (main env st w)))
       \<and> fst (fst (main env st w))
           = record_items progress
               (items_at is_artifact_write None (fst (snd (main env st w))))
       \<and> last_saved progress (fst (snd (main env st w)))
           = record_items progress
               (items_at is_ledger_save None (fst (snd (main env st w))))
       \<and> last_written progress (fst (snd (main env st w))) = fst (fst (main env st w))"
  using assms
proof (cases rule: main_cases[where st = st])
  case (characters_failed pre post files0 wl e st1 evs1 w1)
  let ?st0 = "(progress, loaded_references env w0, files0)"
  note c = characters_loop_ledger[of env "mainCharacters st" ?st0 wl,
      unfolded characters_failed(3)]
  note idle = idle_around[OF quiet_idle[OF characters_failed(1)]
      quiet_idle[OF characters_failed(2)]]
  have tr: "fst (snd (main env st w)) = pre @ evs1 @ post"
    and fin: "fst (fst (main env st w)) = fst st1"
    using characters_failed(4) by simp_all
  have "ledger_discipline env progress None (evs1 @ post)"
    using c characters_failed(2) by simp
  moreover have "fst st1 = record_items progress (items_at is_artifact_write None evs1)"
    "last_saved progress evs1 = record_items progress (items_at is_ledger_save None evs1)"
    "last_written progress evs1 = fst st1"
    using c by simp_all
  ultimately show ?thesis
    unfolding tr fin idle by simp
next
  case (scenes_failed pre post files0 wl x st1 evs1 w1 e st2 evs2 w2)
  let ?st0 = "(progress, loaded_references env w0, files0)"
  note idle = idle_around[OF quiet_idle[OF scenes_failed(1)] quiet_idle[OF scenes_failed(2)],
      where mid = "evs1 @ evs2"]
  have tr: "fst (snd (main env st w)) = pre @ (evs1 @ evs2) @ post"
    and fin: "fst (fst (main env st w)) = fst st2"
    using scenes_failed(5) by simp_all
  note both = both_loops_ledger[OF scenes_failed(3,4), of post, simplified]
  show ?thesis
    unfolding tr fin idle using both[OF scenes_failed(2)] by simp
next
  case (finished pre post files0 wl x st1 evs1 w1 y st2 evs2 w2 b w3)
  let ?st0 = "(progress, loaded_references env w0, files0)"
  let ?summary = "Call_writeFile (references_path env)
                    (ReferencesJson (fst (snd st2)) (snd (snd st2))) b"
  have post: "\<forall>e\<in>set (?summary # post). plain e \<and> submission e = []"
    using quiet_idle[OF finished(2)] by (simp add: plain_def)
  note idle = idle_around[OF quiet_idle[OF finished(1)] post, where mid = "evs1 @ evs2"]
  have tr: "fst (snd (main env st w)) = pre @ (evs1 @ evs2) @ ?summary # post"
    and fin: "fst (fst (main env st w)) = fst st2"
    using finished(5) by simp_all
  note both = both_loops_ledger[OF finished(3,4), of "?summary # post", simplified]
  show ?thesis
    unfolding tr fin idle using both post by simp
qed

text \<open>The loops write no metadata, and the reference summary comes after them.\<close>

lemma characters_loop_no_metadata:
  "\<forall>e\<in>set (fst (snd (snd (characters_loop env cs st w)))). \<not> is_metadata_write e"
proof (rule characters_loop_cases
    [where P = "\<lambda>cs st w res. \<forall>e\<in>set (fst (snd (snd res))). \<not> is_metadata_write e"],
    goal_cases)
  case (3 c cs progress refs files w e evs1 w1)
  then show ?case using generateCharacter_shape(2)[OF 3(2)] by simp
next
  case (4 c cs progress refs files w u filepath evs1 w1 e evs2 w2)
  then show ?case
    using generateCharacter_shape(2)[OF 4(2)] saveProgress_shape[OF 4(3)] by auto
next
  case (5 c cs progress refs files w u filepath evs1 w1 x evs2 w2 r st evs3 w3)
  then show ?case
    using generateCharacter_shape(2)[OF 5(2)] saveProgress_shape[OF 5(3)] by auto
qed simp_all

lemma story_scenes_loop_no_metadata:
  "\<forall>e\<in>set (fst (snd (snd (story_scenes_loop env ss st w)))). \<not> is_metadata_write e"
proof (rule story_scenes_loop_cases
    [where P = "\<lambda>ss st w res. \<forall>e\<in>set (fst (snd (snd res))). \<not> is_metadata_write e"],
    goal_cases)
  case (3 s ss progress refs files w e evs1 w1)
  then show ?case using generateScene_shape(2)[OF 3(2)] by simp
next
  case (4 s ss progress refs files w filepath evs1 w1 e evs2 w2)
  then show ?case
    using generateScene_shape(2)[OF 4(2)] saveProgress_shape[OF 4(3)] by auto
next
  case (5 s ss progress refs files w filepath evs1 w1 x evs2 w2 r st evs3 w3)
  then show ?case
    using generateScene_shape(2)[OF 5(2)] saveProgress_shape[OF 5(3)] by auto
qed simp_all

lemma main_summary_last:
  assumes "startup env w = Some (progress, w0)"
  shows "\<exists>a b. fst (snd (main env st w)) = a @ b
               \<and> (\<forall>e\<in>set a. \<not> is_metadata_write e)
               \<and> (\<forall>e\<in>set b. \<not> is_ledger_write e)"
  using assms
proof (cases rule: main_cases[where st = st])
  case (characters_failed pre post files0 wl e st1 evs1 w1)
  have "\<forall>e\<in>set (pre @ evs1). \<not> is_metadata_write e"
    using characters_loop_no_metadata
            [of env "mainCharacters st" "(progress, loaded_references env w0, files0)" wl]
      characters_failed(3) quiet_trace(3)[OF characters_failed(1)]
    by auto
  then show ?thesis
    using characters_failed(4) quiet_trace(3)[OF characters_failed(2)]
    by (intro exI[of _ "pre @ evs1"] exI[of _ post]) auto
next
  case (scenes_failed pre post files0 wl x st1 evs1 w1 e st2 evs2 w2)
  have "\<forall>e\<in>set (pre @ evs1 @ evs2). \<not> is_metadata_write e"
    using characters_loop_no_metadata
            [of env "mainCharacters st" "(progress, loaded_references env w0, files0)" wl]
      story_scenes_loop_no_metadata[of env "Story.scenes st" st1 w1]
      scenes_failed(3,4) quiet_trace(3)[OF scenes_failed(1)]
    by auto
  then show ?thesis
    using scenes_failed(5) quiet_trace(3)[OF scenes_failed(2)]
    by (intro exI[of _ "pre @ evs1 @ evs2"] exI[of _ post]) auto
next
  case (finished pre post files0 wl x st1 evs1 w1 y st2 evs2 w2 b w3)
  let ?summary = "Call_writeFile (references_path env)
                    (ReferencesJson (fst (snd st2)) (snd (snd st2))) b"
  have "\<forall>e\<in>set (pre @ evs1 @ evs2). \<not> is_metadata_write e"
    using characters_loop_no_metadata
            [of env "mainCharacters st" "(progress, loaded_references env w0, files0)" wl]
      story_scenes_loop_no_metadata[of env "Story.scenes st" st1 w1]
      finished(3,4) quiet_trace(3)[OF finished(1)]
    by auto
  then show ?thesis
    using finished(5) quiet_trace(3)[OF finished(2)]
    by (intro exI[of _ "pre @ evs1 @ evs2"] exI[of _ "?summary # post"]) auto
qed

text \<open>
  C3 as stated fails on the metadata: the storyboard script, the one with the ledger,
  writes no metadata for an item. In the run below the ledger lacks only the character
  \<open>Mother\<close>; the run generates her, writes her image and then the ledger, and the only
  other file it writes is the reference summary, after the ledger.
\<close>

theorem ledger_written_without_metadata:
  "\<not> metadata_before_ledger False
        (fst (snd (main (stub_env (story_stub always_answers (Some Mother_pending) None))
                     story [])))
   \<and> filter (\<lambda>e. \<not> quiet e)
        (fst (snd (main (stub_env (story_stub always_answers (Some Mother_pending) None))
                     story []))) =
       [Call_Imagine character_asset ''Mother''
          (StoryCharacter.prompt (mainCharacters story ! 4))
          (Inr (Some (two_variations ''m''))),
        Call_Upscale character_asset ''Mother''
          \<lparr>index = 1, msgId = Some ''m'', hash = Some ''h'', flags = Some 0\<rparr>
          (Inr (Some (stub_upscaled
             \<lparr>index = 1, msgId = Some ''m'', hash = Some ''h'', flags = Some 0\<rparr>))),
        Call_get ''https://cdn.test/m-U1.png'' True,
        Call_writeFile ''output/character_images/Mother.png''
          (ImageData ''bytes of https://cdn.test/m-U1.png'') True,
        Call_writeFile ''output/progress.json'' (ProgressJson complete_ledger) True,
        Call_writeFile ''output/character_references.json''
          (ReferencesJson [(''Mother'', ''https://cdn.test/m-U1.png'')]
             [(''Mother'', ''output/character_images/Mother.png'')]) True]"
  by code_simp

text \<open>
  C3, amended. In every run of \<open>main\<close> that loaded the ledger \<open>progress\<close>, the ledger
  discipline holds on the trace, in both directions: the event directly after the
  successful write of an item's image is a write of the ledger; every write of the
  ledger comes directly after such a write, goes to the ledger file and has exactly one
  more entry than the ledger before it (the loaded one, at first), the entry of that
  item; and after a write of the ledger that failed nothing more is generated or
  written. So the artifact is downloaded and written strictly before the ledger entry,
  and the ledger is saved once per completed item, immediately after that item, never
  batched. No metadata is written for an item; the reference summary, when it is
  written, comes after every write of the ledger.
\<close>

theorem ledger_saved_after_each_artifact:
  assumes "startup env w = Some (progress, w0)"
  shows "ledger_discipline env progress None (fst (snd (main env st w)))
       \<and> (\<exists>a b. fst (snd (main env st w)) = a @ b
                 \<and> (\<forall>e\<in>set a. \<not> is_metadata_write e)
                 \<and> (\<forall>e\<in>set b. \<not> is_ledger_write e))"
  using main_ledger[OF assms, of st] main_summary_last[OF assms, of st] by blast

theorem ledger_saved_after_each_artifact_witness:
  "startup (stub_env (story_stub always_answers (Some Mother_pending) None)) []
     = Some (Mother_pending, [])
   \<and> ledger_discipline (stub_env (story_stub always_answers (Some Mother_pending) None))
        Mother_pending None
        (fst (snd (main (stub_env (story_stub always_answers (Some Mother_pending) None))
                     story [])))
   \<and> startup (stub_env ledger_refused_stub) []
       = Some (\<lparr>completedCharacters = [], completedScenes = []\<rparr>, [])
   \<and> ledger_discipline (stub_env ledger_refused_stub)
        \<lparr>completedCharacters = [], completedScenes = []\<rparr> None
        (fst (snd (main (stub_env ledger_refused_stub) story [])))
   \<and> filter (\<lambda>e. \<not> quiet e) (fst (snd (main (stub_env ledger_refused_stub) story [])))
       = [Call_Imagine character_asset ''Zoey''
            (StoryCharacter.prompt (mainCharacters story ! 0))
            (Inr (Some (two_variations ''m''))),
          Call_Upscale character_asset ''Zoey''
            \<lparr>index = 1, msgId = Some ''m'', hash = Some ''h'', flags = Some 0\<rparr>
            (Inr (Some (stub_upscaled
               \<lparr>index = 1, msgId = Some ''m'', hash = Some ''h'', flags = Some 0\<rparr>))),
          Call_get ''https://cdn.test/m-U1.png'' True,
          Call_writeFile ''output/character_images/Zoey.png''
            (ImageData ''bytes of https://cdn.test/m-U1.png'') True,
          Call_writeFile ''output/progress.json''
            (ProgressJson \<lparr>completedCharacters = [''Zoey''], completedScenes = []\<rparr>) False]
   \<and> snd (snd (main (stub_env ledger_refused_stub) story []))
       = [(''output/character_images/Zoey.png'',
           ImageData ''bytes of https://cdn.test/m-U1.png'')]
   \<and> snd (snd (main (stub_env (story_stub always_answers (Some Mother_pending) None))
                  story []))
       = [(''output/character_images/Mother.png'',
           ImageData ''bytes of https://cdn.test/m-U1.png''),
          (''output/progress.json'', ProgressJson complete_ledger),
          (''output/character_references.json'',
           ReferencesJson [(''Mother'', ''https://cdn.test/m-U1.png'')]
             [(''Mother'', ''output/character_images/Mother.png'')])]"
proof -
  let ?env = "stub_env (story_stub always_answers (Some Mother_pending) None)"
  have s: "startup ?env [] = Some (Mother_pending, [])"
    by (simp add: startup_def ensureDirectories_def loadProgress_def story_stub_def
          read_stub_def)
  have r: "startup (stub_env ledger_refused_stub) []
           = Some (\<lparr>completedCharacters = [], completedScenes = []\<rparr>, [])"
    by (simp add: startup_def ensureDirectories_def loadProgress_def story_stub_def
          ledger_refused_stub_def read_stub_def)
  have t: "filter (\<lambda>e. \<not> quiet e) (fst (snd (main (stub_env ledger_refused_stub) story [])))
       = [Call_Imagine character_asset ''Zoey''
            (StoryCharacter.prompt (mainCharacters story ! 0))
            (Inr (Some (two_variations ''m''))),
          Call_Upscale character_asset ''Zoey''
            \<lparr>index = 1, msgId = Some ''m'', hash = Some ''h'', flags = Some 0\<rparr>
            (Inr (Some (stub_upscaled
               \<lparr>index = 1, msgId = Some ''m'', hash = Some ''h'', flags = Some 0\<rparr>))),
          Call_get ''https://cdn.test/m-U1.png'' True,
          Call_writeFile ''output/character_images/Zoey.png''
            (ImageData ''bytes of https://cdn.test/m-U1.png'') True,
          Call_writeFile ''output/progress.json''
            (ProgressJson \<lparr>completedCharacters = [''Zoey''], completedScenes = []\<rparr>) False]"
    by code_simp
  have w: "snd (snd (main (stub_env ledger_refused_stub) story []))
       = [(''output/character_images/Zoey.png'',
           ImageData ''bytes of https://cdn.test/m-U1.png'')]"
    "snd (snd (main ?env story []))
       = [(''output/character_images/Mother.png'',
           ImageData ''bytes of https://cdn.test/m-U1.png''),
          (''output/progress.json'', ProgressJson complete_ledger),
          (''output/character_references.json'',
           ReferencesJson [(''Mother'', ''https://cdn.test/m-U1.png'')]
             [(''Mother'', ''output/character_images/Mother.png'')])]"
    by code_simp+
  show ?thesis
    using s r t w ledger_saved_after_each_artifact[OF s, of story]
      ledger_saved_after_each_artifact[OF r, of story]
    by blast
qed

subsection \<open>The references that the scene prompts see\<close>

text \<open>
  In a run of \<open>main\<close> that reaches its \<open>try\<close>: every scene prompt that is submitted is
  the prompt of a scene of the story applied to the \<open>characterRefs\<close> that \<open>main\<close> ends
  with; a handle in there was loaded from the reference summary or is the \<open>uri\<close> of an
  upscale made for that character in this run; and a character for which nothing was
  submitted has what the summary had for it.
\<close>

lemma main_scene_prompts:
  assumes "startup env w = Some (progress, w0)"
  shows "set (scene_calls (fst (snd (main env st w))))
           \<subseteq> {(StoryScene.title s, scene_prompt s (fst (snd (fst (main env st w))))) | s.
                s \<in> set (Story.scenes st)}"
    and "\<And>n u. map_of (fst (snd (fst (main env st w)))) n = Some u \<Longrightarrow>
           map_of (loaded_references env w0) n = Some u
           \<or> (\<exists>args m. Call_Upscale character_asset n args (Inr (Some m))
                           \<in> set (fst (snd (main env st w)))
                \<and> MJResponse.uri m = Some u)"
    and "\<And>n. (character_asset, n) \<notin> set (submissions (fst (snd (main env st w)))) \<Longrightarrow>
           map_of (fst (snd (fst (main env st w)))) n = map_of (loaded_references env w0) n"
proof -
  show "set (scene_calls (fst (snd (main env st w))))
           \<subseteq> {(StoryScene.title s, scene_prompt s (fst (snd (fst (main env st w))))) | s.
                s \<in> set (Story.scenes st)}"
    using assms
  proof (cases rule: main_cases[where st = st])
    case (characters_failed pre post files0 wl e st1 evs1 w1)
    then show ?thesis
      using characters_loop_scene_calls
              [of env "mainCharacters st" "(progress, loaded_references env w0, files0)" wl]
      by (simp add: quiet_trace(2))
  next
    case (scenes_failed pre post files0 wl x st1 evs1 w1 e st2 evs2 w2)
    then show ?thesis
      using characters_loop_scene_calls
              [of env "mainCharacters st" "(progress, loaded_references env w0, files0)" wl]
            story_scenes_loop_scene_calls[of env "Story.scenes st" st1 w1]
            story_scenes_loop_state[of env "Story.scenes st" st1 w1]
      by (simp add: quiet_trace(2))
  next
    case (finished pre post files0 wl x st1 evs1 w1 y st2 evs2 w2 b w3)
    then show ?thesis
      using characters_loop_scene_calls
              [of env "mainCharacters st" "(progress, loaded_references env w0, files0)" wl]
            story_scenes_loop_scene_calls[of env "Story.scenes st" st1 w1]
            story_scenes_loop_state[of env "Story.scenes st" st1 w1]
      by (simp add: quiet_trace(2))
  qed
  show "map_of (loaded_references env w0) n = Some u
           \<or> (\<exists>args m. Call_Upscale character_asset n args (Inr (Some m))
                           \<in> set (fst (snd (main env st w)))
                \<and> MJResponse.uri m = Some u)"
    if "map_of (fst (snd (fst (main env st w)))) n = Some u" for n u
    using assms
  proof (cases rule: main_cases[where st = st])
    case (characters_failed pre post files0 wl e st1 evs1 w1)
    then show ?thesis
      using that characters_loop_references
              [of env "mainCharacters st" "(progress, loaded_references env w0, files0)" wl n u]
      by auto
  next
    case (scenes_failed pre post files0 wl x st1 evs1 w1 e st2 evs2 w2)
    then show ?thesis
      using that characters_loop_references
              [of env "mainCharacters st" "(progress, loaded_references env w0, files0)" wl n u]
            story_scenes_loop_state[of env "Story.scenes st" st1 w1]
      by auto
  next
    case (finished pre post files0 wl x st1 evs1 w1 y st2 evs2 w2 b w3)
    then show ?thesis
      using that characters_loop_references
              [of env "mainCharacters st" "(progress, loaded_references env w0, files0)" wl n u]
            story_scenes_loop_state[of env "Story.scenes st" st1 w1]
      by auto
  qed
  show "map_of (fst (snd (fst (main env st w)))) n = map_of (loaded_references env w0) n"
    if "(character_asset, n) \<notin> set (submissions (fst (snd (main env st w))))" for n
    using assms
  proof (cases rule: main_cases[where st = st])
    case (characters_failed pre post files0 wl e st1 evs1 w1)
    then show ?thesis
      using that characters_loop_unsubmitted
              [of n env "mainCharacters st" "(progress, loaded_references env w0, files0)" wl]
      by auto
  next
    case (scenes_failed pre post files0 wl x st1 evs1 w1 e st2 evs2 w2)
    then show ?thesis
      using that characters_loop_unsubmitted
              [of n env "mainCharacters st" "(progress, loaded_references env w0, files0)" wl]
            story_scenes_loop_state[of env "Story.scenes st" st1 w1]
      by auto
  next
    case (finished pre post files0 wl x st1 evs1 w1 y st2 evs2 w2 b w3)
    then show ?thesis
      using that characters_loop_unsubmitted
              [of n env "mainCharacters st" "(progress, loaded_references env w0, files0)" wl]
            story_scenes_loop_state[of env "Story.scenes st" st1 w1]
      by auto
  qed
qed

lemma unresolved_handle_renders_undefined:
  assumes "Handle_of n \<in> set (StoryScene.prompt s)" and "map_of refs n = None"
  shows "sublist ''undefined'' (scene_prompt s refs)"
proof -
  obtain xs ys where "StoryScene.prompt s = xs @ Handle_of n # ys"
    using assms(1) by (auto dest: split_list)
  then have "scene_prompt s refs =
      concat (map (render_part refs) xs) @ ''undefined'' @ concat (map (render_part refs) ys)"
    using assms(2) by (simp add: scene_prompt_def)
  then show ?thesis
    by (metis sublist_appendI)
qed

subsection \<open>Resume without a reference summary\<close>

text \<open>
  C10. Let \<open>main\<close> load a ledger that holds the character name \<open>n\<close> while the reference
  summary is absent or has no handle for \<open>n\<close>. Then nothing is submitted for \<open>n\<close>,
  \<open>characterRefs\<close> has no handle for \<open>n\<close> at the end of the run, every scene prompt that is
  submitted is a scene's template applied to that \<open>characterRefs\<close>, and the prompt of
  every scene whose template interpolates the handle of \<open>n\<close> contains the text
  \<open>undefined\<close>.
\<close>

theorem resume_bakes_undefined_into_prompts:
  assumes "startup env w = Some (progress, w0)"
    and "n \<in> set (completedCharacters progress)"
    and "map_of (loaded_references env w0) n = None"
  shows "(character_asset, n) \<notin> set (submissions (fst (snd (main env st w))))
       \<and> map_of (fst (snd (fst (main env st w)))) n = None
       \<and> set (scene_calls (fst (snd (main env st w))))
           \<subseteq> {(StoryScene.title s, scene_prompt s (fst (snd (fst (main env st w))))) | s.
                s \<in> set (Story.scenes st)}
       \<and> (\<forall>s\<in>set (Story.scenes st). Handle_of n \<in> set (StoryScene.prompt s) \<longrightarrow>
             sublist ''undefined'' (scene_prompt s (fst (snd (fst (main env st w))))))"
proof -
  have skipped: "(character_asset, n) \<notin> set (submissions (fst (snd (main env st w))))"
    using main_submissions_pending[OF assms(1), of st] assms(2) by (auto simp: pending_def)
  then have none: "map_of (fst (snd (fst (main env st w)))) n = None"
    using main_scene_prompts(3)[OF assms(1)] assms(3) by simp
  show ?thesis
    using skipped none main_scene_prompts(1)[OF assms(1), of st]
      unresolved_handle_renders_undefined[OF _ none]
    by blast
qed

theorem resume_bakes_undefined_into_prompts_witness:
  "startup (stub_env (story_stub always_answers (Some characters_done) None)) []
     = Some (characters_done, [])
   \<and> ''Zoey'' \<in> set (completedCharacters characters_done)
   \<and> map_of (loaded_references (stub_env (story_stub always_answers (Some characters_done) None))
               []) ''Zoey'' = None
   \<and> sublist ''undefined''
        (scene_prompt (hd (Story.scenes story))
           (fst (snd (fst (main (stub_env (story_stub always_answers (Some characters_done)
                                              None)) story [])))))
   \<and> hd (scene_calls
           (fst (snd (main (stub_env (story_stub always_answers (Some characters_done) None))
                        story []))))
       = (''The Passionate Reunion'',
          ''Intimate hospital room setting, Zoey (wearing professional attire, vulnerable expression) turning away from Blaine (in doctor's coat, intense gaze). Tension-filled atmosphere with medical equipment in background, dramatic shadows emphasizing their emotional connection, warm lighting highlighting their faces. Close physical proximity suggesting unresolved feelings --cref undefined undefined --ar 1:1 --v 6'')"
proof -
  let ?env = "stub_env (story_stub always_answers (Some characters_done) None)"
  have s: "startup ?env [] = Some (characters_done, [])"
    by (simp add: startup_def ensureDirectories_def loadProgress_def story_stub_def
          read_stub_def)
  have z: "''Zoey'' \<in> set (completedCharacters characters_done)"
    by (simp add: characters_done_def story_def)
  have l: "map_of (loaded_references ?env []) ''Zoey'' = None"
    by (simp add: loaded_references_def load_references_def story_stub_def read_stub_def)
  have h: "hd (Story.scenes story) \<in> set (Story.scenes story)"
    "Handle_of ''Zoey'' \<in> set (StoryScene.prompt (hd (Story.scenes story)))"
    by (simp_all add: story_def)
  have p: "hd (scene_calls (fst (snd (main ?env story []))))
       = (''The Passionate Reunion'',
          ''Intimate hospital room setting, Zoey (wearing professional attire, vulnerable expression) turning away from Blaine (in doctor's coat, intense gaze). Tension-filled atmosphere with medical equipment in background, dramatic shadows emphasizing their emotional connection, warm lighting highlighting their faces. Close physical proximity suggesting unresolved feelings --cref undefined undefined --ar 1:1 --v 6'')"
    by code_simp
  show ?thesis
    using s z l h p resume_bakes_undefined_into_prompts[OF s z l, of story] by blast
qed

subsection \<open>Phase order\<close>

lemma phase_ordered_append:
  assumes "\<forall>c\<in>set a. fst c = character_asset" and "\<forall>c\<in>set b. fst c = scene_asset"
  shows "phase_ordered (a @ b)"
proof -
  have "dropWhile (\<lambda>c. fst c = character_asset) (a @ b)
          = dropWhile (\<lambda>c. fst c = character_asset) b"
    using assms(1) by (simp add: dropWhile_append2)
  moreover have "set (dropWhile (\<lambda>c. fst c = character_asset) b) \<subseteq> set b"
    by (auto dest: set_dropWhileD)
  ultimately show ?thesis
    using assms(2) by (auto simp: phase_ordered_def list_all_iff)
qed

lemma characters_loop_kind:
  "\<forall>c\<in>set (submissions (fst (snd (snd (characters_loop env cs st w))))).
     fst c = character_asset"
  using characters_loop_submissions[of env cs st w] by fastforce

lemma story_scenes_loop_kind:
  "\<forall>c\<in>set (submissions (fst (snd (snd (story_scenes_loop env ss st w))))).
     fst c = scene_asset"
  using story_scenes_loop_submissions[of env ss st w] by fastforce

lemma main_phase_ordered: "phase_ordered (submissions (fst (snd (main env st w))))"
proof (cases "startup env w")
  case None
  then show ?thesis
    using quiet_trace(1)[OF main_without_startup[of env w st]]
    by (simp add: phase_ordered_def)
next
  case (Some a)
  obtain progress w0 where "startup env w = Some (progress, w0)"
    using Some by (cases a) auto
  then show ?thesis
  proof (cases rule: main_cases[where st = st])
    case (characters_failed pre post files0 wl e st1 evs1 w1)
    then show ?thesis
      using characters_loop_kind
              [of env "mainCharacters st" "(progress, loaded_references env w0, files0)" wl]
            phase_ordered_append[of "submissions evs1" "[]"]
      by (simp add: quiet_trace(1))
  next
    case (scenes_failed pre post files0 wl x st1 evs1 w1 e st2 evs2 w2)
    then show ?thesis
      using characters_loop_kind
              [of env "mainCharacters st" "(progress, loaded_references env w0, files0)" wl]
            story_scenes_loop_kind[of env "Story.scenes st" st1 w1]
            phase_ordered_append[of "submissions evs1" "submissions evs2"]
      by (simp add: quiet_trace(1))
  next
    case (finished pre post files0 wl x st1 evs1 w1 y st2 evs2 w2 b w3)
    then show ?thesis
      using characters_loop_kind
              [of env "mainCharacters st" "(progress, loaded_references env w0, files0)" wl]
            story_scenes_loop_kind[of env "Story.scenes st" st1 w1]
            phase_ordered_append[of "submissions evs1" "submissions evs2"]
      by (simp add: quiet_trace(1))
  qed
qed

text \<open>The same for \<open>generate\<close> of \<open>exampleScript.ts\<close>.\<close>

lemma quiet_attempts: "list_all quiet evs \<Longrightarrow> attempts evs = []"
proof (induction evs)
  case Nil
  then show ?case by simp
next
  case (Cons e evs)
  then show ?case by (cases e rule: quiet.cases) auto
qed

lemma downloadImage_scene_calls [simp]: "scene_calls (fst (downloadImage env u p w)) = []"
  by (simp add: downloadImage_def split: prod.splits sum.splits)

lemma download_variations_scene_calls [simp]:
  "scene_calls (fst (download_variations env dir i vs w)) = []"
  by (induction vs arbitrary: i w) (simp_all add: case_prod_beta)

lemma generateAndSelectVariation_scene_calls:
  "scene_calls (fst (snd (generateAndSelectVariation env p n ty w)))
     = (if ty = scene_asset then [(n, p)] else [])"
  by (cases ty)
     (simp_all add: generateAndSelectVariation_def Let_def case_prod_beta
        del: download_variations.simps split: sum.splits option.splits list.splits)

lemma character_references_loop_scene_calls:
  "scene_calls (fst (snd (character_references_loop env cs refs w))) = []"
  by (induction cs arbitrary: refs w)
     (simp_all add: case_prod_beta Let_def generateAndSelectVariation_scene_calls)

lemma scenes_loop_scene_calls:
  "scene_calls (fst (scenes_loop env script refs ss w))
     = map (\<lambda>s. (scene_outputName s, buildScenePrompt refs s script)) ss"
  by (induction ss arbitrary: w)
     (simp_all add: case_prod_beta Let_def generateAndSelectVariation_scene_calls)

lemma generate_cases:
  obtains
    (not_started) "list_all quiet (fst (snd (generate env path refs w)))"
      "\<And>script w1. readScript env path w \<noteq> (Inr script, w1)
         \<or> scene_calls (fst (snd (generate env path refs w))) = []"
      "fst (generate env path refs w) = refs"
  | (ran) script w1 pre w3 where
      "readScript env path w = (Inr script, w1)" "list_all quiet pre"
      "fst (generate env path refs w)
         = fst (character_references_loop env (AnimeScript.characters script) refs w3)"
      "fst (snd (generate env path refs w))
         = pre
           @ fst (snd (character_references_loop env (AnimeScript.characters script) refs w3))
           @ fst (scenes_loop env script
                    (fst (character_references_loop env (AnimeScript.characters script) refs w3))
                    (AnimeScript.scenes script)
                    (snd (snd (character_references_loop env (AnimeScript.characters script)
                                 refs w3))))
           @ [Call_Close]"
proof -
  obtain rs w1 where rd: "readScript env path w = (rs, w1)"
    by (cases "readScript env path w") auto
  show thesis
  proof (cases rs)
    case (Inl e)
    with rd show thesis
      by (intro not_started) (auto simp: generate_def)
  next
    case (Inr script)
    obtain rd' evs_dirs w2 where dirs: "createDirectoryStructure env w1 = (rd', evs_dirs, w2)"
      by (cases "createDirectoryStructure env w1") auto
    have qd: "list_all quiet evs_dirs"
      using mkdir_each_quiet dirs unfolding createDirectoryStructure_def
      by (metis fst_conv snd_conv)
    show thesis
    proof (cases rd')
      case (Inl e)
      with rd Inr dirs qd show thesis
        by (intro not_started) (auto simp: generate_def quiet_trace(2))
    next
      case rd': (Inr x)
      obtain rc w3 where conn: "Connect env w2 = (rc, w3)"
        by (cases "Connect env w2") auto
      show thesis
      proof (cases rc)
        case (Inl e)
        with rd Inr dirs rd' conn qd show thesis
          by (intro not_started) (auto simp: generate_def quiet_trace(2))
      next
        case rc: (Inr y)
        with rd Inr dirs rd' conn qd show thesis
          by (intro ran[of script w1 "Call_readFile path True # evs_dirs @ [Call_Connect True]" w3])
             (auto simp: generate_def generateCharacterReferences_def generateScenes_def
                case_prod_beta
              simp del: character_references_loop.simps scenes_loop.simps)
      qed
    qed
  qed
qed

lemma generate_phase_ordered: "phase_ordered (attempts (fst (snd (generate env path refs w))))"
proof (cases rule: generate_cases[of env path refs w])
  case not_started
  then show ?thesis
    by (simp add: quiet_attempts phase_ordered_def)
next
  case (ran script w1 pre w3)
  have "phase_ordered
          (map (\<lambda>c. (character_asset, ''character_'' @ toLowerCase (Character.name c)))
             (AnimeScript.characters script)
           @ map (\<lambda>s. (scene_asset, scene_outputName s)) (AnimeScript.scenes script))"
    by (rule phase_ordered_append) auto
  with ran show ?thesis
    by (simp add: quiet_attempts character_references_loop_attempts scenes_loop_attempts)
qed

subsection \<open>The handles that the character phase resolves\<close>

lemma resolved_handles_append:
  "resolved_handles c (a @ b)
     = resolved_handles c a @ resolved_handles (foldl handle_in_work c a) b"
  by (induction a arbitrary: c) simp_all

lemma resolved_handles_none:
  "\<forall>e\<in>set a. \<not> is_artifact_write e \<Longrightarrow> resolved_handles c a = []"
  by (induction a arbitrary: c) simp_all

lemma quiet_handle: "quiet e \<Longrightarrow> \<not> is_artifact_write e \<and> handle_in_work c e = c"
  by (erule quiet.elims) (simp_all add: is_artifact_write_def)

lemma quiet_handles:
  assumes "list_all quiet a"
  shows "resolved_handles c (a @ b) = resolved_handles c b"
  using assms by (induction a) (simp_all add: quiet_handle)

lemma imagine_upscale_download_handle:
  assumes "imagine_upscale_download env ty ident p path w = (r, evs, w1)"
  shows "(\<exists>e. r = Inl e) \<Longrightarrow> \<forall>c. resolved_handles c evs = []"
    and "\<And>u. r = Inr u \<Longrightarrow>
           \<forall>c rest. resolved_handles c (evs @ rest)
             = (if ty = character_asset then [(ident, u)] else [])
               @ resolved_handles (if ty = character_asset then Some (ident, u) else None) rest"
proof -
  show "\<forall>c. resolved_handles c evs = []" if "\<exists>e. r = Inl e"
    using assms that
    by (cases rule: imagine_upscale_download_cases) (auto simp: is_artifact_write_def)
  show "\<forall>c rest. resolved_handles c (evs @ rest)
             = (if ty = character_asset then [(ident, u)] else [])
               @ resolved_handles (if ty = character_asset then Some (ident, u) else None) rest"
    if "r = Inr u" for u
    using assms that
    by (cases rule: imagine_upscale_download_cases; cases ty)
       (auto simp: is_artifact_write_def)
qed

lemma generateCharacter_handle:
  assumes "generateCharacter env c w = (r, evs, w1)"
  shows "(\<exists>e. r = Inl e) \<Longrightarrow> \<forall>h. resolved_handles h evs = []"
    and "\<And>u filepath. r = Inr (u, filepath) \<Longrightarrow>
           \<forall>h rest. resolved_handles h (evs @ rest)
             = (StoryCharacter.name c, u)
               # resolved_handles (Some (StoryCharacter.name c, u)) rest"
proof -
  obtain r0 where i: "imagine_upscale_download env character_asset (StoryCharacter.name c)
      (StoryCharacter.prompt c) (character_filepath env (StoryCharacter.name c)) w
      = (r0, evs, w1)"
    and r: "r = (case r0 of Inl e \<Rightarrow> Inl e
                 | Inr u \<Rightarrow> Inr (u, character_filepath env (StoryCharacter.name c)))"
    using assms by (auto simp: generateCharacter_def Let_def split: prod.splits sum.splits)
  show "\<forall>h. resolved_handles h evs = []" if "\<exists>e. r = Inl e"
    using imagine_upscale_download_handle(1)[OF i] that r by (auto split: sum.splits)
  show "\<forall>h rest. resolved_handles h (evs @ rest)
             = (StoryCharacter.name c, u)
               # resolved_handles (Some (StoryCharacter.name c, u)) rest"
    if "r = Inr (u, filepath)" for u filepath
    using imagine_upscale_download_handle(2)[OF i] that r by (auto split: sum.splits)
qed

lemma generateScene_handle:
  assumes "generateScene env s refs w = (r, evs, w1)"
  shows "(\<exists>e. r = Inl e) \<Longrightarrow> \<forall>h. resolved_handles h evs = []"
    and "\<And>filepath. r = Inr filepath \<Longrightarrow>
           \<forall>h rest. resolved_handles h (evs @ rest) = resolved_handles None rest"
proof -
  obtain r0 where i: "imagine_upscale_download env scene_asset (StoryScene.title s)
      (scene_prompt s refs) (scene_filepath env (StoryScene.title s)) w = (r0, evs, w1)"
    and r: "r = (case r0 of Inl e \<Rightarrow> Inl e
                 | Inr u \<Rightarrow> Inr (scene_filepath env (StoryScene.title s)))"
    using assms by (auto simp: generateScene_def Let_def split: prod.splits sum.splits)
  show "\<forall>h. resolved_handles h evs = []" if "\<exists>e. r = Inl e"
    using imagine_upscale_download_handle(1)[OF i] that r by (auto split: sum.splits)
  show "\<forall>h rest. resolved_handles h (evs @ rest) = resolved_handles None rest"
    if "r = Inr filepath" for filepath
    using imagine_upscale_download_handle(2)[OF i] that r by (auto split: sum.splits)
qed

text \<open>The reference map after the character loop is the one before it with the handles
  assigned that the loop resolved, in order; the scene loop resolves none.\<close>

lemma characters_loop_handles:
  "\<forall>h. fst (snd (fst (snd (characters_loop env cs st w))))
         = Object_assign (fst (snd st))
             (resolved_handles h (fst (snd (snd (characters_loop env cs st w)))))"
proof (rule characters_loop_cases
    [where P = "\<lambda>cs st w res.
       \<forall>h. fst (snd (fst (snd res)))
             = Object_assign (fst (snd st)) (resolved_handles h (fst (snd (snd res))))"],
    goal_cases)
  case (1 st w)
  show ?case by (simp add: Object_assign_def)
next
  case (2 c cs progress refs files w res)
  then show ?case by simp
next
  case (3 c cs progress refs files w e evs1 w1)
  show ?case
    using generateCharacter_handle(1)[OF 3(2)] by (simp add: Object_assign_def)
next
  case (4 c cs progress refs files w u filepath evs1 w1 e evs2 w2)
  show ?case
    using generateCharacter_handle(2)[OF 4(2) refl] saveProgress_shape[OF 4(3)]
    by (simp add: Object_assign_def is_artifact_write_def)
next
  case (5 c cs progress refs files w u filepath evs1 w1 x evs2 w2 r st evs3 w3)
  show ?case
    using generateCharacter_handle(2)[OF 5(2) refl] saveProgress_shape[OF 5(3)] 5(5)
    by (simp add: Object_assign_def is_artifact_write_def)
qed

lemma story_scenes_loop_handles:
  "\<forall>h. resolved_handles h (fst (snd (snd (story_scenes_loop env ss st w)))) = []"
proof (rule story_scenes_loop_cases
    [where P = "\<lambda>ss st w res. \<forall>h. resolved_handles h (fst (snd (snd res))) = []"],
    goal_cases)
  case (1 st w)
  show ?case by simp
next
  case (2 s ss progress refs files w res)
  then show ?case by simp
next
  case (3 s ss progress refs files w e evs1 w1)
  show ?case
    using generateScene_handle(1)[OF 3(2)] by simp
next
  case (4 s ss progress refs files w filepath evs1 w1 e evs2 w2)
  show ?case
    using generateScene_handle(2)[OF 4(2) refl] saveProgress_shape[OF 4(3)]
    by (simp add: is_artifact_write_def)
next
  case (5 s ss progress refs files w filepath evs1 w1 x evs2 w2 r st evs3 w3)
  show ?case
    using generateScene_handle(2)[OF 5(2) refl] saveProgress_shape[OF 5(3)] 5(5)
    by (simp add: is_artifact_write_def)
qed

lemma handles_around:
  assumes "list_all quiet pre" and "\<forall>e\<in>set post. \<not> is_artifact_write e"
  shows "resolved_handles c (pre @ mid @ post) = resolved_handles c mid"
proof -
  have "resolved_handles c (pre @ mid @ post) = resolved_handles c (mid @ post)"
    by (rule quiet_handles[OF assms(1)])
  also have "\<dots> = resolved_handles c mid"
    by (simp add: resolved_handles_append resolved_handles_none[OF assms(2)])
  finally show ?thesis .
qed

lemma main_references:
  assumes "startup env w = Some (progress, w0)"
  shows "fst (snd (fst (main env st w)))
         = Object_assign (loaded_references env w0)
             (resolved_handles None (fst (snd (main env st w))))"
  using assms
proof (cases rule: main_cases[where st = st])
  case (characters_failed pre post files0 wl e st1 evs1 w1)
  have post: "\<forall>e\<in>set post. \<not> is_artifact_write e"
    using characters_failed(2) quiet_handle by (auto simp: list_all_iff)
  have "resolved_handles None (fst (snd (main env st w))) = resolved_handles None evs1"
    using handles_around[OF characters_failed(1) post, of None evs1] characters_failed(4)
    by simp
  then show ?thesis
    using characters_loop_handles
            [of env "mainCharacters st" "(progress, loaded_references env w0, files0)" wl]
      characters_failed(3,4)
    by simp
next
  case (scenes_failed pre post files0 wl x st1 evs1 w1 e st2 evs2 w2)
  have post: "\<forall>e\<in>set post. \<not> is_artifact_write e"
    using scenes_failed(2) quiet_handle by (auto simp: list_all_iff)
  have "resolved_handles None (fst (snd (main env st w)))
        = resolved_handles None (evs1 @ evs2)"
    using handles_around[OF scenes_failed(1) post, of None "evs1 @ evs2"] scenes_failed(5)
    by simp
  also have "\<dots> = resolved_handles None evs1"
    using story_scenes_loop_handles[of env "Story.scenes st" st1 w1] scenes_failed(4)
    by (simp add: resolved_handles_append)
  finally show ?thesis
    using characters_loop_handles
            [of env "mainCharacters st" "(progress, loaded_references env w0, files0)" wl]
      story_scenes_loop_state[of env "Story.scenes st" st1 w1]
      scenes_failed(3,4,5)
    by simp
next
  case (finished pre post files0 wl x st1 evs1 w1 y st2 evs2 w2 b w3)
  let ?summary = "Call_writeFile (references_path env)
                    (ReferencesJson (fst (snd st2)) (snd (snd st2))) b"
  have post: "\<forall>e\<in>set (?summary # post). \<not> is_artifact_write e"
    using finished(2) quiet_handle by (auto simp: list_all_iff is_artifact_write_def)
  have "resolved_handles None (fst (snd (main env st w)))
        = resolved_handles None (evs1 @ evs2)"
    using handles_around[OF finished(1) post, of None "evs1 @ evs2"] finished(5)
    by simp
  also have "\<dots> = resolved_handles None evs1"
    using story_scenes_loop_handles[of env "Story.scenes st" st1 w1] finished(4)
    by (simp add: resolved_handles_append)
  finally show ?thesis
    using characters_loop_handles
            [of env "mainCharacters st" "(progress, loaded_references env w0, files0)" wl]
      story_scenes_loop_state[of env "Story.scenes st" st1 w1]
      finished(3,4,5)
    by simp
qed

text \<open>The same for \<open>generate\<close> of \<open>exampleScript.ts\<close>: the reference map after the character
  phase is the one before it, overridden by the handles that the phase resolved, and
  every scene prompt is built from it.\<close>

lemma character_references_loop_resolved:
  "fst (character_references_loop env cs refs w)
     = refs ++ map_of (rev (resolved_references env cs w))"
proof (induction cs arbitrary: refs w)
  case Nil
  show ?case by simp
next
  case (Cons c cs)
  let ?g = "generateAndSelectVariation env (buildCharacterPrompt c)
              (''character_'' @ toLowerCase (Character.name c)) character_asset w"
  let ?new = "case fst ?g of
                None \<Rightarrow> []
              | Some r \<Rightarrow>
                  if truthy (MJResponse.uri r)
                  then [(Character.name c, the (MJResponse.uri r))] else []"
  have one: "record_reference c (fst ?g) refs = refs ++ map_of (rev ?new)"
    by (simp add: record_reference_def split: option.splits)
  have "fst (character_references_loop env (c # cs) refs w)
        = record_reference c (fst ?g) refs
          ++ map_of (rev (resolved_references env cs (snd (snd ?g))))"
    using Cons.IH[of "record_reference c (fst ?g) refs" "snd (snd ?g)"]
    by (simp add: case_prod_beta Let_def)
  also have "\<dots> = refs ++ map_of (rev (?new @ resolved_references env cs (snd (snd ?g))))"
    unfolding one by (simp only: rev_append map_of_append map_add_assoc)
  finally show ?case
    by (simp add: case_prod_beta Let_def)
qed

lemma generate_started:
  assumes "generate_startup env path w = Some (script, w3)"
  shows "fst (generate env path refs w)
           = fst (character_references_loop env (AnimeScript.characters script) refs w3)"
    and "scene_calls (fst (snd (generate env path refs w)))
           = map (\<lambda>s. (scene_outputName s,
                        buildScenePrompt (fst (generate env path refs w)) s script))
               (AnimeScript.scenes script)"
proof -
  obtain w1 where rd: "readScript env path w = (Inr script, w1)"
    using assms by (auto simp: generate_startup_def split: prod.splits sum.splits)
  obtain xd evs_dirs w2 where dirs: "createDirectoryStructure env w1 = (Inr xd, evs_dirs, w2)"
    using assms rd by (auto simp: generate_startup_def split: prod.splits sum.splits)
  obtain xc where conn: "Connect env w2 = (Inr xc, w3)"
    using assms rd dirs by (auto simp: generate_startup_def split: prod.splits sum.splits)
  have qd: "scene_calls evs_dirs = []"
    using mkdir_each_quiet dirs quiet_trace(2) unfolding createDirectoryStructure_def
    by (metis fst_conv snd_conv)
  show "fst (generate env path refs w)
           = fst (character_references_loop env (AnimeScript.characters script) refs w3)"
    by (simp add: generate_def rd dirs conn generateCharacterReferences_def
          generateScenes_def case_prod_beta
          del: character_references_loop.simps scenes_loop.simps)
  then show "scene_calls (fst (snd (generate env path refs w)))
           = map (\<lambda>s. (scene_outputName s,
                        buildScenePrompt (fst (generate env path refs w)) s script))
               (AnimeScript.scenes script)"
    by (simp add: generate_def rd dirs conn generateCharacterReferences_def
          generateScenes_def case_prod_beta qd character_references_loop_scene_calls
          scenes_loop_scene_calls
          del: character_references_loop.simps scenes_loop.simps)
qed

text \<open>
  C4 as stated fails for \<open>main\<close> of \<open>anime.ts\<close>: the handles that the scene prompts see
  are not exactly those resolved in the character phase of the run. In the run below the
  ledger holds every character, so that the character phase submits nothing, and the
  first scene prompt carries the two handles of the reference summary of an earlier run.
\<close>

theorem scene_prompt_uses_earlier_references:
  "filter (\<lambda>c. fst c = character_asset)
     (submissions
        (fst (snd (main (stub_env (story_stub always_answers (Some characters_done)
                                     (Some earlier_references))) story [])))) = []
   \<and> hd (scene_calls
           (fst (snd (main (stub_env (story_stub always_answers (Some characters_done)
                                        (Some earlier_references))) story []))))
       = (''The Passionate Reunion'',
          ''Intimate hospital room setting, Zoey (wearing professional attire, vulnerable expression) turning away from Blaine (in doctor's coat, intense gaze). Tension-filled atmosphere with medical equipment in background, dramatic shadows emphasizing their emotional connection, warm lighting highlighting their faces. Close physical proximity suggesting unresolved feelings --cref https://old.test/zoey.png https://old.test/blaine.png --ar 1:1 --v 6'')"
  by code_simp

text \<open>
  C4, amended. In every run of \<open>main\<close> (\<open>anime.ts\<close>) and of \<open>generate\<close>
  (\<open>exampleScript.ts\<close>) the backend calls are in phase order: once a call has been made
  for a scene, none is made for a character, so every character is attempted or skipped
  before any scene generation begins. Every scene prompt is built from the reference
  map as it is at the end of the character phase, and that map is the one the run
  started with, overridden by the handles resolved during the character phase of this
  run, in the order in which they were resolved. In \<open>main\<close> the run starts with the
  handles loaded from the reference summary, and a handle is resolved when the image of
  a character's upscale has been written; in \<open>generate\<close> it starts with the generator's
  map (empty for a new generator), a handle is resolved when the generation of a
  character returns a result with a \<open>uri\<close>, and every scene of the script gets its prompt
  from the resulting map.
\<close>

theorem characters_before_scenes:
  "phase_ordered (submissions (fst (snd (main env st w))))
   \<and> phase_ordered (attempts (fst (snd (generate env path refs w))))
   \<and> (startup env w = Some (progress, w0) \<longrightarrow>
        set (scene_calls (fst (snd (main env st w))))
          \<subseteq> {(StoryScene.title s, scene_prompt s (fst (snd (fst (main env st w))))) | s.
               s \<in> set (Story.scenes st)}
        \<and> fst (snd (fst (main env st w)))
            = Object_assign (loaded_references env w0)
                (resolved_handles None (fst (snd (main env st w)))))
   \<and> (generate_startup env path w = Some (script, w1) \<longrightarrow>
        scene_calls (fst (snd (generate env path refs w)))
          = map (\<lambda>s. (scene_outputName s,
                       buildScenePrompt (fst (generate env path refs w)) s script))
              (AnimeScript.scenes script)
        \<and> fst (generate env path refs w)
            = refs ++ map_of (rev (resolved_references env (AnimeScript.characters script) w1)))"
  using main_phase_ordered[of env st w] generate_phase_ordered[of env path refs w]
    main_scene_prompts(1)[of env w progress w0 st] main_references[of env w progress w0 st]
    generate_started[of env path w script w1 refs]
    character_references_loop_resolved[of env "AnimeScript.characters script" refs w1]
  by simp

theorem characters_before_scenes_witness:
  "startup (stub_env partly_resumed_stub) [] = Some (Blaine_done, [])
   \<and> generate_startup (stub_env partly_resumed_stub) ''./anime_script.json'' []
       = Some (sample_script, [])
   \<and> phase_ordered (submissions (fst (snd (main (stub_env partly_resumed_stub) story []))))
   \<and> phase_ordered
       (attempts (fst (snd (generate (stub_env partly_resumed_stub) ''./anime_script.json''
                              Map.empty []))))
   \<and> loaded_references (stub_env partly_resumed_stub) []
       = [(''Zoey'', ''https://old.test/zoey.png''), (''Blaine'', ''https://old.test/blaine.png'')]
   \<and> fst (snd (fst (main (stub_env partly_resumed_stub) story [])))
       = [(''Zoey'', ''https://cdn.test/m-U1.png''), (''Blaine'', ''https://old.test/blaine.png''),
          (''Max'', ''https://cdn.test/m-U1.png''), (''Sophia'', ''https://cdn.test/m-U1.png''),
          (''Mother'', ''https://cdn.test/m-U1.png'')]
   \<and> scene_calls (fst (snd (generate (stub_env partly_resumed_stub) ''./anime_script.json''
                               Map.empty [])))
       = map (\<lambda>s. (scene_outputName s,
                    buildScenePrompt
                      [''Ann'' \<mapsto> ''https://cdn.test/m-1.png'',
                       ''Bob'' \<mapsto> ''https://cdn.test/m-1.png''] s sample_script))
           [scene_one, scene_two]"
proof -
  let ?env = "stub_env partly_resumed_stub"
  have s: "startup ?env [] = Some (Blaine_done, [])"
    by (simp add: startup_def ensureDirectories_def loadProgress_def partly_resumed_stub_def
          scripted_stub_def plain_stub_def read_stub_def)
  have g: "generate_startup ?env ''./anime_script.json'' [] = Some (sample_script, [])"
    by (simp add: generate_startup_def createDirectoryStructure_def partly_resumed_stub_def
          scripted_stub_def plain_stub_def read_stub_def)
  have l: "loaded_references ?env []
           = [(''Zoey'', ''https://old.test/zoey.png''),
              (''Blaine'', ''https://old.test/blaine.png'')]"
    by code_simp
  have h: "resolved_handles None (fst (snd (main ?env story [])))
           = [(''Zoey'', ''https://cdn.test/m-U1.png''), (''Max'', ''https://cdn.test/m-U1.png''),
              (''Sophia'', ''https://cdn.test/m-U1.png''),
              (''Mother'', ''https://cdn.test/m-U1.png'')]"
    by code_simp
  have a: "Object_assign
             [(''Zoey'', ''https://old.test/zoey.png''),
              (''Blaine'', ''https://old.test/blaine.png'')]
             [(''Zoey'', ''https://cdn.test/m-U1.png''), (''Max'', ''https://cdn.test/m-U1.png''),
              (''Sophia'', ''https://cdn.test/m-U1.png''),
              (''Mother'', ''https://cdn.test/m-U1.png'')]
           = [(''Zoey'', ''https://cdn.test/m-U1.png''),
              (''Blaine'', ''https://old.test/blaine.png''),
              (''Max'', ''https://cdn.test/m-U1.png''), (''Sophia'', ''https://cdn.test/m-U1.png''),
              (''Mother'', ''https://cdn.test/m-U1.png'')]"
    by code_simp
  have r: "resolved_references ?env [Ann, Bob] []
           = [(''Ann'', ''https://cdn.test/m-1.png''), (''Bob'', ''https://cdn.test/m-1.png'')]"
    by code_simp
  have sc: "AnimeScript.characters sample_script = [Ann, Bob]"
    "AnimeScript.scenes sample_script = [scene_one, scene_two]"
    by (simp_all add: sample_script_def)
  show ?thesis
    using s g l h a r
      characters_before_scenes
        [of ?env story "[]" "''./anime_script.json''" Map.empty Blaine_done "[]"
            sample_script "[]"]
    by (simp add: sc del: resolved_handles.simps resolved_references.simps)
qed

subsection \<open>A \<open>null\<close> result of the backend\<close>












end
